theory Spec2Isabelle
  imports Main "HOL-Library.Word"
begin

unbundle bit_operations_syntax

section \<open>Values shared by the libraries\<close>

text \<open>
  A JavaScript \<open>Error\<close> is modelled by its \<open>message\<close>. A function that may throw
  returns \<open>error + 'a\<close>, with \<open>Inl\<close> for the thrown error. Errors raised by the
  platform carry the message text of the V8 engine.
\<close>

datatype error = Error string

fun message :: "error \<Rightarrow> string" where
  "message (Error m) = m"

text \<open>
  A \<open>Uint8Array\<close> is a list of bytes. Strings built from hexadecimal digits, Base58
  and Base64 text are lists of \<open>char\<close>, one \<open>char\<close> per code unit.
\<close>

type_synonym byte = "8 word"
type_synonym Uint8Array = "byte list"

section \<open>Platform text encodings\<close>

text \<open>
  A JavaScript string is a sequence of UTF-16 code units. Lone surrogates are allowed.
\<close>

type_synonym jsstring = "16 word list"

definition js :: "string \<Rightarrow> jsstring" where
  "js s = map (\<lambda>c. of_nat (of_char c)) s"

subsection \<open>\<open>TextEncoder.encode\<close>\<close>

text \<open>
  The string is first converted to scalar values: a surrogate pair is one code point,
  a lone surrogate becomes U+FFFD. Each scalar value is then written in UTF-8.
\<close>

definition is_high_surrogate :: "nat \<Rightarrow> bool" where
  "is_high_surrogate u = (0xD800 \<le> u \<and> u \<le> 0xDBFF)"

definition is_low_surrogate :: "nat \<Rightarrow> bool" where
  "is_low_surrogate u = (0xDC00 \<le> u \<and> u \<le> 0xDFFF)"

fun scalar_values :: "nat list \<Rightarrow> nat list" where
  "scalar_values [] = []"
| "scalar_values [u] = (if is_high_surrogate u \<or> is_low_surrogate u then [0xFFFD] else [u])"
| "scalar_values (u # v # us) =
     (if is_high_surrogate u then
        (if is_low_surrogate v
         then (0x10000 + (u - 0xD800) * 0x400 + (v - 0xDC00)) # scalar_values us
         else 0xFFFD # scalar_values (v # us))
      else if is_low_surrogate u then 0xFFFD # scalar_values (v # us)
      else u # scalar_values (v # us))"

definition utf8_encode :: "nat \<Rightarrow> nat list" where
  "utf8_encode c =
     (if c < 0x80 then [c]
      else if c < 0x800 then [0xC0 + c div 64, 0x80 + c mod 64]
      else if c < 0x10000 then [0xE0 + c div 4096, 0x80 + c div 64 mod 64, 0x80 + c mod 64]
      else [0xF0 + c div 262144, 0x80 + c div 4096 mod 64, 0x80 + c div 64 mod 64,
            0x80 + c mod 64])"

definition TextEncoder_encode :: "jsstring \<Rightarrow> Uint8Array" where
  "TextEncoder_encode s =
     map of_nat (concat (map utf8_encode (scalar_values (map unat s))))"

subsection \<open>\<open>TextDecoder.decode\<close>\<close>

text \<open>
  The UTF-8 decoder of \<open>new TextDecoder()\<close>: errors are replaced by U+FFFD (the decoder
  is not fatal) and a leading byte order mark is removed (\<open>ignoreBOM\<close> is false). The
  decoder state is the code point under construction, the continuation bytes seen and
  needed, and the bounds of the next continuation byte.
\<close>

record utf8_decoder_state =
  code_point :: nat
  bytes_seen :: nat
  bytes_needed :: nat
  lower_boundary :: nat
  upper_boundary :: nat

definition utf8_initial :: utf8_decoder_state where
  "utf8_initial =
     \<lparr>code_point = 0, bytes_seen = 0, bytes_needed = 0,
      lower_boundary = 0x80, upper_boundary = 0xBF\<rparr>"

function utf8_decoder :: "utf8_decoder_state \<Rightarrow> nat list \<Rightarrow> nat list" where
  "utf8_decoder st [] = (if bytes_needed st \<noteq> 0 then [0xFFFD] else [])"
| "utf8_decoder st (b # bs) =
     (if bytes_needed st = 0 then
        (if b \<le> 0x7F then b # utf8_decoder st bs
         else if 0xC2 \<le> b \<and> b \<le> 0xDF then
           utf8_decoder (st\<lparr>bytes_needed := 1, code_point := b mod 32\<rparr>) bs
         else if 0xE0 \<le> b \<and> b \<le> 0xEF then
           utf8_decoder
             (st\<lparr>lower_boundary := (if b = 0xE0 then 0xA0 else lower_boundary st),
                 upper_boundary := (if b = 0xED then 0x9F else upper_boundary st),
                 bytes_needed := 2, code_point := b mod 16\<rparr>) bs
         else if 0xF0 \<le> b \<and> b \<le> 0xF4 then
           utf8_decoder
             (st\<lparr>lower_boundary := (if b = 0xF0 then 0x90 else lower_boundary st),
                 upper_boundary := (if b = 0xF4 then 0x8F else upper_boundary st),
                 bytes_needed := 3, code_point := b mod 8\<rparr>) bs
         else 0xFFFD # utf8_decoder st bs)
      else if \<not> (lower_boundary st \<le> b \<and> b \<le> upper_boundary st) then
        0xFFFD # utf8_decoder utf8_initial (b # bs)
      else
        (let st' = st\<lparr>lower_boundary := 0x80, upper_boundary := 0xBF,
                       code_point := code_point st * 64 + b mod 64,
                       bytes_seen := bytes_seen st + 1\<rparr>
         in if bytes_seen st' \<noteq> bytes_needed st' then utf8_decoder st' bs
            else code_point st' # utf8_decoder utf8_initial bs))"
  by pat_completeness auto
termination
  by (relation "measure (\<lambda>(st, bs). 2 * length bs + (if bytes_needed st = 0 then 0 else 1))")
    (auto simp: utf8_initial_def)

declare utf8_decoder.simps [simp del]

definition utf16_units :: "nat \<Rightarrow> nat list" where
  "utf16_units c =
     (if c < 0x10000 then [c]
      else [0xD800 + (c - 0x10000) div 0x400, 0xDC00 + (c - 0x10000) mod 0x400])"

definition strip_BOM :: "nat list \<Rightarrow> nat list" where
  "strip_BOM cs = (case cs of [] \<Rightarrow> [] | c # rest \<Rightarrow> if c = 0xFEFF then rest else cs)"

definition TextDecoder_decode :: "Uint8Array \<Rightarrow> jsstring" where
  "TextDecoder_decode bytes =
     map of_nat (concat (map utf16_units (strip_BOM (utf8_decoder utf8_initial (map unat bytes)))))"

subsection \<open>Well-formed strings\<close>

text \<open>A scalar value is a code point that is not a surrogate.\<close>

definition scalar :: "nat \<Rightarrow> bool" where
  "scalar c = (c < 0x110000 \<and> \<not> is_high_surrogate c \<and> \<not> is_low_surrogate c)"

text \<open>A string is well formed when every surrogate is part of a pair.\<close>

fun well_formed :: "nat list \<Rightarrow> bool" where
  "well_formed [] = True"
| "well_formed [u] = (\<not> is_high_surrogate u \<and> \<not> is_low_surrogate u)"
| "well_formed (u # v # us) =
     (if is_high_surrogate u then is_low_surrogate v \<and> well_formed us
      else \<not> is_low_surrogate u \<and> well_formed (v # us))"

section \<open>Cryptography library (src/lib/crypto.js)\<close>

subsection \<open>Hexadecimal text\<close>

text \<open>
  \<open>parseInt(s, 16)\<close>: leading white space is skipped, then an optional sign and an
  optional \<open>0x\<close> prefix, then the longest run of hexadecimal digits is read; no digit
  gives \<open>NaN\<close>, modelled by \<open>None\<close>.
\<close>

definition digitValue :: "char \<Rightarrow> nat option" where
  "digitValue c =
     (let n = (of_char c :: nat) in
      if 48 \<le> n \<and> n \<le> 57 then Some (n - 48)
      else if 97 \<le> n \<and> n \<le> 102 then Some (n - 87)
      else if 65 \<le> n \<and> n \<le> 70 then Some (n - 55)
      else None)"

definition isWhiteSpace :: "char \<Rightarrow> bool" where
  "isWhiteSpace c = ((of_char c :: nat) \<in> {9, 10, 11, 12, 13, 32, 160})"

fun radix16 :: "nat \<Rightarrow> string \<Rightarrow> nat" where
  "radix16 n [] = n"
| "radix16 n (c # cs) =
     (case digitValue c of None \<Rightarrow> n | Some d \<Rightarrow> radix16 (16 * n + d) cs)"

definition parseInt16 :: "string \<Rightarrow> int option" where
  "parseInt16 string =
     (let S = dropWhile isWhiteSpace string;
          sign = (if S \<noteq> [] \<and> hd S = CHR ''-'' then - 1 else 1 :: int);
          S = (if S \<noteq> [] \<and> (hd S = CHR ''+'' \<or> hd S = CHR ''-'') then tl S else S);
          S = (if take 2 S = ''0x'' \<or> take 2 S = ''0X'' then drop 2 S else S);
          Z = takeWhile (\<lambda>c. digitValue c \<noteq> None) S
      in if Z = [] then None else Some (sign * int (radix16 0 Z)))"

text \<open>Storing a number into a \<open>Uint8Array\<close>: \<open>NaN\<close> becomes 0, the rest wraps.\<close>

definition ToUint8 :: "int option \<Rightarrow> byte" where
  "ToUint8 v = (case v of None \<Rightarrow> 0 | Some n \<Rightarrow> word_of_int n)"

text \<open>
  \<open>hexToBytes\<close> allocates \<open>hex.length / 2\<close> bytes (rounded down) and writes one byte
  for every two characters; the write for a trailing single character is out of range
  and is dropped.
\<close>

fun hexToBytes :: "string \<Rightarrow> Uint8Array" where
  "hexToBytes (a # b # rest) = ToUint8 (parseInt16 [a, b]) # hexToBytes rest"
| "hexToBytes rest = []"

text \<open>\<open>Number.prototype.toString(16)\<close> on a natural number.\<close>

definition HEX_DIGITS :: string where
  "HEX_DIGITS = ''0123456789abcdef''"

function toString16 :: "nat \<Rightarrow> string" where
  "toString16 n =
     (if n < 16 then [HEX_DIGITS ! n] else toString16 (n div 16) @ [HEX_DIGITS ! (n mod 16)])"
  by pat_completeness auto
termination
  by (relation "measure id") auto

declare toString16.simps [simp del]

text \<open>\<open>padStart(2, '0')\<close>.\<close>

definition padStart2 :: "string \<Rightarrow> string" where
  "padStart2 s = replicate (2 - length s) CHR ''0'' @ s"

definition bytesToHex :: "Uint8Array \<Rightarrow> string" where
  "bytesToHex bytes = concat (map (\<lambda>b. padStart2 (toString16 (unat b))) bytes)"

definition ALPHABET :: string where
  "ALPHABET = ''123456789ABCDEFGHJKLMNPQRSTUVWXYZabcdefghijkmnopqrstuvwxyz''"

fun those_digits :: "string \<Rightarrow> nat list option" where
  "those_digits [] = Some []"
| "those_digits (c # cs) =
     (case digitValue c of None \<Rightarrow> None
      | Some d \<Rightarrow> (case those_digits cs of None \<Rightarrow> None | Some ds \<Rightarrow> Some (d # ds)))"

definition BigInt_0x :: "string \<Rightarrow> error + nat" where
  "BigInt_0x hex =
     (case those_digits hex of
        None \<Rightarrow> Inl (Error (''Cannot convert 0x'' @ hex @ '' to a BigInt''))
      | Some ds \<Rightarrow>
          if ds = [] then Inl (Error (''Cannot convert 0x'' @ hex @ '' to a BigInt''))
          else Inr (foldl (\<lambda>n d. 16 * n + d) 0 ds))"

function base58_loop :: "nat \<Rightarrow> string \<Rightarrow> string" where
  "base58_loop num encoded =
     (if num > 0 then base58_loop (num div 58) (ALPHABET ! (num mod 58) # encoded)
      else encoded)"
  by pat_completeness auto
termination
  by (relation "measure fst") auto

declare base58_loop.simps [simp del]

fun leading_zeros_loop :: "Uint8Array \<Rightarrow> string \<Rightarrow> string" where
  "leading_zeros_loop [] encoded = encoded"
| "leading_zeros_loop (b # bytes) encoded =
     (if b = 0 then leading_zeros_loop bytes (ALPHABET ! 0 # encoded) else encoded)"

definition base58Encode :: "Uint8Array \<Rightarrow> error + string" where
  "base58Encode bytes =
     (case BigInt_0x (bytesToHex bytes) of
        Inl e \<Rightarrow> Inl e
      | Inr num \<Rightarrow> Inr (leading_zeros_loop bytes (base58_loop num [])))"

fun indexOf :: "string \<Rightarrow> char \<Rightarrow> nat option" where
  "indexOf [] c = None"
| "indexOf (x # xs) c = (if x = c then Some 0 else map_option Suc (indexOf xs c))"

fun base58_digits :: "string \<Rightarrow> nat \<Rightarrow> error + nat" where
  "base58_digits [] num = Inr num"
| "base58_digits (c # str) num =
     (case indexOf ALPHABET c of
        None \<Rightarrow> Inl (Error ''Invalid Base58 character'')
      | Some digit \<Rightarrow> base58_digits str (num * 58 + digit))"

definition base58Decode :: "string \<Rightarrow> error + Uint8Array" where
  "base58Decode str =
     (case base58_digits str 0 of
        Inl e \<Rightarrow> Inl e
      | Inr num \<Rightarrow>
          let hex = toString16 num;
              hex = (if length hex mod 2 \<noteq> 0 then CHR ''0'' # hex else hex);
              bytes = hexToBytes hex;
              leadingZeros = length (takeWhile (\<lambda>c. c = CHR ''1'') str)
          in Inr (replicate leadingZeros 0 @ bytes))"

record cryptojs =
  SHA256 :: "Uint8Array \<Rightarrow> Uint8Array"
  RIPEMD160 :: "Uint8Array \<Rightarrow> Uint8Array"

definition ADDRESS_VERSION :: byte where
  "ADDRESS_VERSION = 0x1e"

definition sha256Sync :: "cryptojs \<Rightarrow> Uint8Array \<Rightarrow> Uint8Array" where
  "sha256Sync J data = hexToBytes (bytesToHex (SHA256 J data))"

definition ripemd160 :: "cryptojs \<Rightarrow> Uint8Array \<Rightarrow> Uint8Array" where
  "ripemd160 J data = hexToBytes (bytesToHex (RIPEMD160 J data))"

definition typed_set :: "Uint8Array \<Rightarrow> Uint8Array \<Rightarrow> nat \<Rightarrow> error + Uint8Array" where
  "typed_set target source offset =
     (if length source + offset > length target then Inl (Error ''offset is out of bounds'')
      else Inr (take offset target @ source @ drop (offset + length source) target))"

definition slice_arr :: "nat \<Rightarrow> nat \<Rightarrow> 'a list \<Rightarrow> 'a list" where
  "slice_arr start end xs = take (end - start) (drop start xs)"

definition index :: "'a list \<Rightarrow> nat \<Rightarrow> 'a option" where
  "index xs i = (if i < length xs then Some (xs ! i) else None)"

definition publicKeyToAddress_try :: "cryptojs \<Rightarrow> string \<Rightarrow> error + string" where
  "publicKeyToAddress_try J publicKeyHex =
     (let publicKeyBytes = hexToBytes publicKeyHex;
          sha256Hash = sha256Sync J publicKeyBytes;
          ripemd160Hash = ripemd160 J sha256Hash;
          versionedPayload = (replicate 21 0) [0 := ADDRESS_VERSION]
      in case typed_set versionedPayload ripemd160Hash 1 of
           Inl e \<Rightarrow> Inl e
         | Inr versionedPayload \<Rightarrow>
             let checksum1 = sha256Sync J versionedPayload;
                 checksum2 = sha256Sync J checksum1;
                 checksum = slice_arr 0 4 checksum2
             in case typed_set (replicate 25 0) versionedPayload 0 of
                  Inl e \<Rightarrow> Inl e
                | Inr addressBytes \<Rightarrow>
                    (case typed_set addressBytes checksum 21 of
                       Inl e \<Rightarrow> Inl e
                     | Inr addressBytes \<Rightarrow> base58Encode addressBytes))"

definition publicKeyToAddress :: "cryptojs \<Rightarrow> string \<Rightarrow> error + string" where
  "publicKeyToAddress J publicKeyHex =
     (case publicKeyToAddress_try J publicKeyHex of
        Inl e \<Rightarrow> Inl (Error (''Failed to generate address: '' @ message e))
      | Inr a \<Rightarrow> Inr a)"

definition startsWith :: "string \<Rightarrow> string \<Rightarrow> bool" where
  "startsWith s p = (take (length p) s = p)"

definition compare_checksums :: "Uint8Array \<Rightarrow> Uint8Array \<Rightarrow> bool" where
  "compare_checksums checksum expectedChecksum =
     list_all (\<lambda>i. index checksum i = index expectedChecksum i) [0, 1, 2, 3]"

definition validateAddress_try :: "cryptojs \<Rightarrow> string \<Rightarrow> error + bool" where
  "validateAddress_try J address =
     (if \<not> startsWith address ''D'' then Inr False
      else case base58Decode address of
        Inl e \<Rightarrow> Inl e
      | Inr decoded \<Rightarrow>
          if length decoded \<noteq> 25 then Inr False
          else if index decoded 0 \<noteq> Some ADDRESS_VERSION then Inr False
          else
            let payload = slice_arr 0 21 decoded;
                checksum = slice_arr 21 25 decoded;
                hash1 = sha256Sync J payload;
                hash2 = sha256Sync J hash1;
                expectedChecksum = slice_arr 0 4 hash2
            in Inr (compare_checksums checksum expectedChecksum))"

definition validateAddress :: "cryptojs \<Rightarrow> string \<Rightarrow> error + bool" where
  "validateAddress J address =
     (case validateAddress_try J address of Inl e \<Rightarrow> Inr False | Inr b \<Rightarrow> Inr b)"

text \<open>The 25 bytes of an address: version, 20-byte hash, 4-byte checksum.\<close>

definition address_bytes :: "cryptojs \<Rightarrow> Uint8Array \<Rightarrow> Uint8Array" where
  "address_bytes J hash160 =
     (ADDRESS_VERSION # hash160) @
       take 4 (SHA256 J (SHA256 J (ADDRESS_VERSION # hash160)))"

record elliptic =
  encodeCompressed :: "string \<Rightarrow> error + string"
  signDER :: "string \<Rightarrow> Uint8Array \<Rightarrow> error + string"

record wallet =
  privateKey :: string
  publicKey :: string
  address :: string

definition getPublicKeyFromPrivate :: "elliptic \<Rightarrow> string \<Rightarrow> error + string" where
  "getPublicKeyFromPrivate E privateKeyHex =
     (case encodeCompressed E privateKeyHex of
        Inl e \<Rightarrow> Inl (Error (''Invalid private key: '' @ message e))
      | Inr pub \<Rightarrow> Inr pub)"





definition WORDLIST :: "string list" where
  "WORDLIST =
    [''abandon'', ''ability'', ''able'', ''about'', ''above'', ''absent'', ''absorb'',
     ''abstract'', ''absurd'', ''abuse'', ''access'', ''accident'', ''account'',
     ''accuse'', ''achieve'', ''acid'', ''acoustic'', ''acquire'', ''across'', ''act'',
     ''action'', ''actor'', ''actress'', ''actual'', ''adapt'', ''add'', ''addict'',
     ''address'', ''adjust'', ''admit'', ''adult'', ''advance'', ''advice'', ''aerobic'',
     ''afford'', ''afraid'', ''again'', ''age'', ''agent'', ''agree'', ''ahead'', ''aim'',
     ''air'', ''airport'', ''aisle'', ''alarm'', ''album'', ''alcohol'', ''alert'',
     ''alien'', ''all'', ''alley'', ''allow'', ''almost'', ''alone'', ''alpha'',
     ''already'', ''also'', ''alter'', ''always'', ''amateur'', ''amazing'', ''among'',
     ''amount'', ''amused'', ''analyst'', ''anchor'', ''ancient'', ''anger'', ''angle'',
     ''angry'', ''animal'', ''ankle'', ''announce'', ''annual'', ''another'', ''answer'',
     ''antenna'', ''antique'', ''anxiety'', ''any'', ''apart'', ''apology'', ''appear'',
     ''apple'', ''approve'', ''april'', ''arch'', ''arctic'', ''area'', ''arena'',
     ''argue'', ''arm'', ''armed'', ''armor'', ''army'', ''around'', ''arrange'',
     ''arrest'', ''arrive'', ''arrow'', ''art'', ''artefact'', ''artist'', ''artwork'',
     ''ask'', ''aspect'', ''assault'', ''asset'', ''assist'', ''assume'', ''asthma'',
     ''athlete'', ''atom'', ''attack'', ''attend'', ''attitude'', ''attract'', ''auction'',
     ''audit'', ''august'', ''aunt'', ''author'', ''auto'', ''autumn'', ''average'',
     ''avocado'', ''avoid'', ''awake'', ''aware'', ''away'', ''awesome'', ''awful'',
     ''awkward'', ''axis'', ''baby'', ''bachelor'', ''bacon'', ''badge'', ''bag'',
     ''balance'', ''balcony'', ''ball'', ''bamboo'', ''banana'', ''banner'', ''bar'',
     ''barely'', ''bargain'', ''barrel'', ''base'', ''basic'', ''basket'', ''battle'',
     ''beach'', ''bean'', ''beauty'', ''because'', ''become'', ''beef'', ''before'',
     ''begin'', ''behave'', ''behind'', ''believe'', ''below'', ''belt'', ''bench'',
     ''benefit'', ''best'', ''betray'', ''better'', ''between'', ''beyond'', ''bicycle'',
     ''bid'', ''bike'', ''bind'', ''biology'', ''bird'', ''birth'', ''bitter'', ''black'',
     ''blade'', ''blame'', ''blanket'', ''blast'', ''bleak'', ''bless'', ''blind'',
     ''blood'', ''blossom'', ''blouse'', ''blue'', ''blur'', ''blush'', ''board'',
     ''boat'', ''body'', ''boil'', ''bomb'', ''bone'', ''bonus'', ''book'', ''boost'',
     ''border'', ''boring'', ''borrow'', ''boss'', ''bottom'', ''bounce'', ''box'',
     ''boy'', ''bracket'', ''brain'', ''brand'', ''brass'', ''brave'', ''bread'',
     ''breeze'', ''brick'', ''bridge'', ''brief'', ''bright'', ''bring'', ''brisk'',
     ''broccoli'', ''broken'', ''bronze'', ''broom'', ''brother'', ''brown'', ''brush'',
     ''bubble'']"

definition randomIndex :: "32 word \<Rightarrow> nat" where
  "randomIndex r = unat r mod length WORDLIST"

fun join :: "string \<Rightarrow> string list \<Rightarrow> string" where
  "join sep [] = []"
| "join sep [w] = w"
| "join sep (w # ws) = w @ sep @ join sep ws"

definition generateMnemonic :: "(nat \<Rightarrow> 32 word) \<Rightarrow> string" where
  "generateMnemonic getRandomValues =
     join '' '' (map (\<lambda>i. WORDLIST ! randomIndex (getRandomValues i)) [0..<12])"

subsection \<open>Transactions\<close>

text \<open>
  The values a transaction field can hold: the JSON primitives and \<open>undefined\<close>, with
  numbers restricted to integers of magnitude below \<open>10 ^ 21\<close>, which JavaScript prints
  in plain decimal, and nested plain objects. An object lists its
  properties in insertion order; a missing property reads as \<open>undefined\<close>.
\<close>

datatype jsval =
    Undefined
  | Null
  | Boolean bool
  | Number int
  | String jsstring
  | Object "(string \<times> jsval) list"

type_synonym jsobject = "(string \<times> jsval) list"

definition get_prop :: "jsobject \<Rightarrow> string \<Rightarrow> jsval" where
  "get_prop obj k = (case map_of obj k of None \<Rightarrow> Undefined | Some v \<Rightarrow> v)"

fun set_prop :: "jsobject \<Rightarrow> string \<Rightarrow> jsval \<Rightarrow> jsobject" where
  "set_prop [] k v = [(k, v)]"
| "set_prop ((k', v') # obj) k v =
     (if k' = k then (k, v) # obj else (k', v') # set_prop obj k v)"

text \<open>\<open>a || b\<close>: \<open>a\<close> when it is truthy, else \<open>b\<close>.\<close>

fun truthy :: "jsval \<Rightarrow> bool" where
  "truthy Undefined = False"
| "truthy Null = False"
| "truthy (Boolean b) = b"
| "truthy (Number n) = (n \<noteq> 0)"
| "truthy (String s) = (s \<noteq> [])"
| "truthy (Object obj) = True"

definition logical_or :: "jsval \<Rightarrow> jsval \<Rightarrow> jsval" where
  "logical_or a b = (if truthy a then a else b)"

text \<open>
  \<open>JSON.stringify\<close>. A string is quoted with the JSON escapes; control characters and
  lone surrogates are written as a \<open>u\<close> escape with four hexadecimal digits. A property whose value is \<open>undefined\<close> is
  left out of its object.
\<close>

function decimal :: "nat \<Rightarrow> string" where
  "decimal n = (if n < 10 then [''0123456789'' ! n] else decimal (n div 10) @ [''0123456789'' ! (n mod 10)])"
  by pat_completeness auto
termination
  by (relation "measure id") auto

declare decimal.simps [simp del]

definition Number_toString :: "int \<Rightarrow> string" where
  "Number_toString n = (if n < 0 then CHR ''-'' # decimal (nat (- n)) else decimal (nat n))"

definition unicode_escape :: "nat \<Rightarrow> string" where
  "unicode_escape u =
     [CHR 0x5C, CHR ''u''] @ [HEX_DIGITS ! (u div 4096), HEX_DIGITS ! (u div 256 mod 16),
              HEX_DIGITS ! (u div 16 mod 16), HEX_DIGITS ! (u mod 16)]"

definition quote_unit :: "nat \<Rightarrow> nat list" where
  "quote_unit u =
     (if u = 0x08 then map of_char [CHR 0x5C, CHR ''b'']
      else if u = 0x09 then map of_char [CHR 0x5C, CHR ''t'']
      else if u = 0x0A then map of_char [CHR 0x5C, CHR ''n'']
      else if u = 0x0C then map of_char [CHR 0x5C, CHR ''f'']
      else if u = 0x0D then map of_char [CHR 0x5C, CHR ''r'']
      else if u = 0x22 then map of_char [CHR 0x5C, CHR 0x22]
      else if u = 0x5C then map of_char [CHR 0x5C, CHR 0x5C]
      else if u < 0x20 \<or> is_high_surrogate u \<or> is_low_surrogate u
      then map of_char (unicode_escape u)
      else [u])"

fun quote_units :: "nat list \<Rightarrow> nat list" where
  "quote_units [] = []"
| "quote_units [u] = quote_unit u"
| "quote_units (u # v # us) =
     (if is_high_surrogate u \<and> is_low_surrogate v then u # v # quote_units us
      else quote_unit u @ quote_units (v # us))"

definition QuoteJSONString :: "jsstring \<Rightarrow> jsstring" where
  "QuoteJSONString s = js [CHR 0x22] @ map of_nat (quote_units (map unat s)) @ js [CHR 0x22]"

fun join_js :: "jsstring \<Rightarrow> jsstring list \<Rightarrow> jsstring" where
  "join_js sep [] = []"
| "join_js sep [s] = s"
| "join_js sep (s # ss) = s @ sep @ join_js sep ss"

fun JSON_stringify :: "jsval \<Rightarrow> jsstring option"
  and JSON_properties :: "(string \<times> jsval) list \<Rightarrow> jsstring list" where
  "JSON_stringify Undefined = None"
| "JSON_stringify Null = Some (js ''null'')"
| "JSON_stringify (Boolean b) = Some (js (if b then ''true'' else ''false''))"
| "JSON_stringify (Number n) = Some (js (Number_toString n))"
| "JSON_stringify (String s) = Some (QuoteJSONString s)"
| "JSON_stringify (Object obj) = Some (js ''{'' @ join_js (js '','') (JSON_properties obj) @ js ''}'')"
| "JSON_properties [] = []"
| "JSON_properties ((k, v) # obj) =
     (case JSON_stringify v of
        None \<Rightarrow> JSON_properties obj
      | Some str \<Rightarrow> (QuoteJSONString (js k) @ js '':'' @ str) # JSON_properties obj)"

text \<open>\<open>hashTransaction\<close>: the six signable fields, in this order, then SHA-256.\<close>

definition signable :: "jsobject \<Rightarrow> jsobject" where
  "signable tx =
     [(''from'', get_prop tx ''from''),
      (''to'', get_prop tx ''to''),
      (''amount'', get_prop tx ''amount''),
      (''tokenType'', get_prop tx ''tokenType''),
      (''fee'', logical_or (get_prop tx ''fee'') (get_prop tx ''feeDNT'')),
      (''nonce'', get_prop tx ''nonce'')]"

definition txData :: "jsobject \<Rightarrow> jsstring" where
  "txData tx = the (JSON_stringify (Object (signable tx)))"

definition hashTransaction :: "cryptojs \<Rightarrow> jsobject \<Rightarrow> string" where
  "hashTransaction J tx =
     (let dataBytes = TextEncoder_encode (txData tx);
          hash = sha256Sync J dataBytes
      in bytesToHex hash)"

definition signMessage :: "elliptic \<Rightarrow> string \<Rightarrow> string \<Rightarrow> error + string" where
  "signMessage E messageHashHex privateKeyHex =
     (case signDER E privateKeyHex (hexToBytes messageHashHex) of
        Inl e \<Rightarrow> Inl (Error (''Failed to sign message: '' @ message e))
      | Inr sig \<Rightarrow> Inr sig)"

text \<open>\<open>signTransaction\<close> returns \<open>{...tx, signature, publicKey}\<close>.\<close>

definition signTransaction ::
  "elliptic \<Rightarrow> cryptojs \<Rightarrow> jsobject \<Rightarrow> string \<Rightarrow> error + jsobject" where
  "signTransaction E J tx privateKeyHex =
     (let txHash = hashTransaction J tx
      in case signMessage E txHash privateKeyHex of
           Inl e \<Rightarrow> Inl e
         | Inr sig \<Rightarrow>
             (case getPublicKeyFromPrivate E privateKeyHex of
                Inl e \<Rightarrow> Inl e
              | Inr pub \<Rightarrow>
                  Inr (set_prop (set_prop tx ''signature'' (String (js sig)))
                         ''publicKey'' (String (js pub)))))"

subsection \<open>Instances of the hash library\<close>

text \<open>Hash functions that return zero bytes, to instantiate the library parameter.\<close>

definition zero_hashes :: cryptojs where
  "zero_hashes = \<lparr>SHA256 = (\<lambda>data. replicate 32 0), RIPEMD160 = (\<lambda>data. replicate 20 0)\<rparr>"

subsection \<open>SHA-256\<close>

text \<open>
  Modelled from the spec: the CryptoJS library is not part of the repository, so
  \<open>CryptoJS.SHA256\<close> is written out from its specification, FIPS 180-4. The message
  schedule is kept as a window of sixteen words that slides by one word per round.
\<close>

type_synonym u32 = "32 word"

type_synonym sha_state = "u32 \<times> u32 \<times> u32 \<times> u32 \<times> u32 \<times> u32 \<times> u32 \<times> u32"

definition K256 :: "u32 list" where
  "K256 =
    [1116352408, 1899447441, 3049323471, 3921009573, 961987163, 1508970993, 2453635748,
     2870763221, 3624381080, 310598401, 607225278, 1426881987, 1925078388, 2162078206,
     2614888103, 3248222580, 3835390401, 4022224774, 264347078, 604807628, 770255983,
     1249150122, 1555081692, 1996064986, 2554220882, 2821834349, 2952996808, 3210313671,
     3336571891, 3584528711, 113926993, 338241895, 666307205, 773529912, 1294757372,
     1396182291, 1695183700, 1986661051, 2177026350, 2456956037, 2730485921, 2820302411,
     3259730800, 3345764771, 3516065817, 3600352804, 4094571909, 275423344, 430227734,
     506948616, 659060556, 883997877, 958139571, 1322822218, 1537002063, 1747873779,
     1955562222, 2024104815, 2227730452, 2361852424, 2428436474, 2756734187, 3204031479,
     3329325298]"

definition H256 :: sha_state where
  "H256 = (1779033703, 3144134277, 1013904242, 2773480762,
           1359893119, 2600822924, 528734635, 1541459225)"

definition rotr :: "nat \<Rightarrow> u32 \<Rightarrow> u32" where
  "rotr n x = drop_bit n x OR push_bit (32 - n) x"

definition Ch :: "u32 \<Rightarrow> u32 \<Rightarrow> u32 \<Rightarrow> u32" where
  "Ch x y z = (x AND y) XOR (NOT x AND z)"

definition Maj :: "u32 \<Rightarrow> u32 \<Rightarrow> u32 \<Rightarrow> u32" where
  "Maj x y z = (x AND y) XOR (x AND z) XOR (y AND z)"

definition Sigma0 :: "u32 \<Rightarrow> u32" where
  "Sigma0 x = rotr 2 x XOR rotr 13 x XOR rotr 22 x"

definition Sigma1 :: "u32 \<Rightarrow> u32" where
  "Sigma1 x = rotr 6 x XOR rotr 11 x XOR rotr 25 x"

definition sigma0 :: "u32 \<Rightarrow> u32" where
  "sigma0 x = rotr 7 x XOR rotr 18 x XOR drop_bit 3 x"

definition sigma1 :: "u32 \<Rightarrow> u32" where
  "sigma1 x = rotr 17 x XOR rotr 19 x XOR drop_bit 10 x"

text \<open>
  One round. The window holds the schedule words \<open>W\<^sub>t \<dots> W\<^sub>t\<^sub>+\<^sub>1\<^sub>5\<close>; the round uses
  \<open>W\<^sub>t\<close> and appends \<open>W\<^sub>t\<^sub>+\<^sub>1\<^sub>6 = \<sigma>\<^sub>1(W\<^sub>t\<^sub>+\<^sub>1\<^sub>4) + W\<^sub>t\<^sub>+\<^sub>9 + \<sigma>\<^sub>0(W\<^sub>t\<^sub>+\<^sub>1) + W\<^sub>t\<close>.
\<close>

fun sha_round :: "sha_state \<times> u32 list \<Rightarrow> u32 \<Rightarrow> sha_state \<times> u32 list" where
  "sha_round ((a, b, c, d, e, f, g, h), W) k =
     (let T1 = h + Sigma1 e + Ch e f g + k + hd W;
          T2 = Sigma0 a + Maj a b c
      in ((T1 + T2, a, b, c, d + T1, e, f, g),
          tl W @ [sigma1 (W ! 14) + W ! 9 + sigma0 (W ! 1) + hd W]))"

fun add_state :: "sha_state \<Rightarrow> sha_state \<Rightarrow> sha_state" where
  "add_state (a, b, c, d, e, f, g, h) (a', b', c', d', e', f', g', h') =
     (a + a', b + b', c + c', d + d', e + e', f + f', g + g', h + h')"

definition compress :: "sha_state \<Rightarrow> u32 list \<Rightarrow> sha_state" where
  "compress H M = add_state H (fst (foldl sha_round (H, M) K256))"

definition be32 :: "byte \<Rightarrow> byte \<Rightarrow> byte \<Rightarrow> byte \<Rightarrow> u32" where
  "be32 a b c d =
     push_bit 24 (ucast a) OR push_bit 16 (ucast b) OR push_bit 8 (ucast c) OR ucast d"

fun be_words :: "Uint8Array \<Rightarrow> u32 list" where
  "be_words (a # b # c # d # rest) = be32 a b c d # be_words rest"
| "be_words rest = []"

text \<open>Padding: a one bit, zero bits, and the bit length as a 64-bit big-endian number.\<close>

definition sha_pad :: "Uint8Array \<Rightarrow> Uint8Array" where
  "sha_pad msg =
     msg @ [0x80] @ replicate ((119 - length msg mod 64) mod 64) 0 @
     map (\<lambda>i. of_nat (8 * length msg div 256 ^ i)) [7, 6, 5, 4, 3, 2, 1, 0]"

function sha_blocks :: "sha_state \<Rightarrow> Uint8Array \<Rightarrow> sha_state" where
  "sha_blocks H bytes =
     (if length bytes < 64 then H
      else sha_blocks (compress H (be_words (take 64 bytes))) (drop 64 bytes))"
  by pat_completeness auto
termination
  by (relation "measure (\<lambda>(H, bytes). length bytes)") auto

declare sha_blocks.simps [simp del]

definition word_bytes :: "u32 \<Rightarrow> Uint8Array" where
  "word_bytes w = [ucast (drop_bit 24 w), ucast (drop_bit 16 w), ucast (drop_bit 8 w), ucast w]"

fun state_bytes :: "sha_state \<Rightarrow> Uint8Array" where
  "state_bytes (a, b, c, d, e, f, g, h) =
     word_bytes a @ word_bytes b @ word_bytes c @ word_bytes d @
     word_bytes e @ word_bytes f @ word_bytes g @ word_bytes h"

definition sha256 :: "Uint8Array \<Rightarrow> Uint8Array" where
  "sha256 msg = state_bytes (sha_blocks H256 (sha_pad msg))"

text \<open>The hash library with this SHA-256; RIPEMD-160 stays a parameter.\<close>

definition cryptojs_with :: "(Uint8Array \<Rightarrow> Uint8Array) \<Rightarrow> cryptojs" where
  "cryptojs_with rmd = \<lparr>SHA256 = sha256, RIPEMD160 = rmd\<rparr>"

text \<open>Two addresses whose 25 bytes differ only in the last byte of the hash.\<close>

definition address_one_bytes :: Uint8Array where
  "address_one_bytes =
     [30, 138, 199, 2, 172, 1, 55, 206, 174, 118, 245, 45, 41, 131, 163, 70, 119, 109, 185,
      74, 145, 40, 82, 180, 134]"

definition address_one :: string where
  "address_one = ''DHntCDdggUsWSRPgyAShTRyEvz5vxt8d3T''"

definition address_two :: string where
  "address_two = ''DHntCDdggUsWSRPgyAShTRyEvz5xRx3Qu3''"

subsection \<open>Sample transactions\<close>

text \<open>The properties that \<open>hashTransaction\<close> reads.\<close>

definition signable_keys :: "string set" where
  "signable_keys = {''from'', ''to'', ''amount'', ''tokenType'', ''fee'', ''feeDNT'', ''nonce''}"

text \<open>A transaction without a fee, and the same transaction with a fee of zero in either field.\<close>

definition tx_base :: jsobject where
  "tx_base =
     [(''from'', String (js ''a'')), (''to'', String (js ''b'')), (''amount'', Number 1),
      (''tokenType'', String (js ''DNT'')), (''nonce'', Number 0)]"

definition tx_fee_zero :: jsobject where
  "tx_fee_zero =
     [(''from'', String (js ''a'')), (''to'', String (js ''b'')), (''amount'', Number 1),
      (''tokenType'', String (js ''DNT'')), (''fee'', Number 0), (''nonce'', Number 0)]"

definition tx_feeDNT_zero :: jsobject where
  "tx_feeDNT_zero =
     [(''from'', String (js ''a'')), (''to'', String (js ''b'')), (''amount'', Number 1),
      (''tokenType'', String (js ''DNT'')), (''feeDNT'', Number 0), (''nonce'', Number 0)]"

text \<open>A signing library that returns fixed strings, to instantiate the library parameter.\<close>

definition fixed_signer :: elliptic where
  "fixed_signer = \<lparr>encodeCompressed = (\<lambda>k. Inr ''02''), signDER = (\<lambda>k m. Inr ''30'')\<rparr>"

section \<open>JavaScript numbers\<close>

text \<open>
  A Number is an IEEE 754 double: NaN, an infinity, or the finite value
  \<open>mantissa * 2 ^ exponent\<close>. The same value has several such pairs; the operations
  below do not depend on the pair chosen. The sign of a zero is not kept: multiplication,
  subtraction and comparison, the operations of the session guard, give the same result
  for both zeros up to the sign of a zero result.
\<close>

datatype number = NaN | PosInfinity | NegInfinity | Finite int int

text \<open>The number of binary digits of a natural number.\<close>

function bit_length :: "nat \<Rightarrow> nat" where
  "bit_length n = (if n = 0 then 0 else Suc (bit_length (n div 2)))"
  by pat_completeness auto
termination
  by (relation "measure id") auto

declare bit_length.simps [simp del]

text \<open>\<open>m / 2 ^ s\<close> rounded to the nearest integer, a tie to the even one.\<close>

definition round_half_even :: "int \<Rightarrow> nat \<Rightarrow> int" where
  "round_half_even m s =
     (let q = m div 2 ^ s; r = m mod 2 ^ s
      in if 2 * r < 2 ^ s then q
         else if 2 * r > 2 ^ s then q + 1
         else if even q then q else q + 1)"

text \<open>
  Rounding of the exact result \<open>m * 2 ^ e\<close> of an operation to a double (round to nearest,
  ties to even): the mantissa keeps at most 53 binary digits, the exponent is at least
  \<open>-1074\<close>, and a rounded magnitude of \<open>2 ^ 1024\<close> or more is an infinity.
\<close>

definition js_round :: "int \<Rightarrow> int \<Rightarrow> number" where
  "js_round m e =
     (let s = max (int (bit_length (nat \<bar>m\<bar>)) - 53) (- 1074 - e);
          m' = (if s \<le> 0 then m else round_half_even m (nat s));
          e' = (if s \<le> 0 then e else e + s)
      in if 0 \<le> e' \<and> 2 ^ 1024 \<le> \<bar>m'\<bar> * 2 ^ nat e'
         then (if m' < 0 then NegInfinity else PosInfinity)
         else Finite m' e')"

text \<open>\<open>a * b\<close>.\<close>

fun js_mul :: "number \<Rightarrow> number \<Rightarrow> number" where
  "js_mul (Finite m e) (Finite m' e') = js_round (m * m') (e + e')"
| "js_mul NaN b = NaN"
| "js_mul a NaN = NaN"
| "js_mul PosInfinity PosInfinity = PosInfinity"
| "js_mul PosInfinity NegInfinity = NegInfinity"
| "js_mul NegInfinity PosInfinity = NegInfinity"
| "js_mul NegInfinity NegInfinity = PosInfinity"
| "js_mul PosInfinity (Finite m e) =
     (if m = 0 then NaN else if m < 0 then NegInfinity else PosInfinity)"
| "js_mul NegInfinity (Finite m e) =
     (if m = 0 then NaN else if m < 0 then PosInfinity else NegInfinity)"
| "js_mul (Finite m e) PosInfinity =
     (if m = 0 then NaN else if m < 0 then NegInfinity else PosInfinity)"
| "js_mul (Finite m e) NegInfinity =
     (if m = 0 then NaN else if m < 0 then PosInfinity else NegInfinity)"

text \<open>\<open>a - b\<close>.\<close>

fun js_sub :: "number \<Rightarrow> number \<Rightarrow> number" where
  "js_sub (Finite m e) (Finite m' e') =
     (let e0 = min e e'
      in js_round (m * 2 ^ nat (e - e0) - m' * 2 ^ nat (e' - e0)) e0)"
| "js_sub NaN b = NaN"
| "js_sub a NaN = NaN"
| "js_sub PosInfinity PosInfinity = NaN"
| "js_sub NegInfinity NegInfinity = NaN"
| "js_sub PosInfinity b = PosInfinity"
| "js_sub NegInfinity b = NegInfinity"
| "js_sub (Finite m e) PosInfinity = NegInfinity"
| "js_sub (Finite m e) NegInfinity = PosInfinity"

text \<open>\<open>a < b\<close> and \<open>a >= b\<close>: both are false when an operand is NaN.\<close>

fun js_lt :: "number \<Rightarrow> number \<Rightarrow> bool" where
  "js_lt (Finite m e) (Finite m' e') =
     (let e0 = min e e' in m * 2 ^ nat (e - e0) < m' * 2 ^ nat (e' - e0))"
| "js_lt NaN b = False"
| "js_lt a NaN = False"
| "js_lt PosInfinity b = False"
| "js_lt a NegInfinity = False"
| "js_lt NegInfinity b = True"
| "js_lt (Finite m e) PosInfinity = True"

fun js_ge :: "number \<Rightarrow> number \<Rightarrow> bool" where
  "js_ge NaN b = False"
| "js_ge a NaN = False"
| "js_ge a b = (\<not> js_lt a b)"

section \<open>Storage library (src/lib/storage.js)\<close>

subsection \<open>Base64 (\<open>btoa\<close>, \<open>atob\<close>)\<close>

definition BASE64 :: string where
  "BASE64 = ''ABCDEFGHIJKLMNOPQRSTUVWXYZabcdefghijklmnopqrstuvwxyz0123456789+/''"

text \<open>Three bytes give four six-bit values; one or two trailing bytes give two or three.\<close>

fun sextets :: "nat list \<Rightarrow> nat list" where
  "sextets (a # b # c # rest) =
     [a div 4, a mod 4 * 16 + b div 16, b mod 16 * 4 + c div 64, c mod 64] @ sextets rest"
| "sextets [a, b] = [a div 4, a mod 4 * 16 + b div 16, b mod 16 * 4]"
| "sextets [a] = [a div 4, a mod 4 * 16]"
| "sextets [] = []"

text \<open>
  \<open>btoa\<close> on a binary string (every character a byte): the Base64 characters, padded
  with \<open>=\<close> to a multiple of four.
\<close>

definition btoa :: "string \<Rightarrow> string" where
  "btoa binary =
     map (\<lambda>v. BASE64 ! v) (sextets (map of_char binary)) @
     replicate ((3 - length binary mod 3) mod 3) CHR ''=''"

text \<open>
  \<open>atob\<close> is the forgiving Base64 decoder: ASCII white space is removed; if the length
  is then a multiple of four, one or two trailing \<open>=\<close> are removed; a length that
  leaves remainder one, or a character outside the alphabet, throws; the six-bit values
  are then regrouped into bytes and leftover bits are dropped.
\<close>

definition ascii_whitespace :: "char \<Rightarrow> bool" where
  "ascii_whitespace c = ((of_char c :: nat) \<in> {9, 10, 12, 13, 32})"

definition remove_padding :: "string \<Rightarrow> string" where
  "remove_padding data =
     (if length data mod 4 = 0 then
        (if data \<noteq> [] \<and> last data = CHR ''='' then
           (if butlast data \<noteq> [] \<and> last (butlast data) = CHR ''=''
            then butlast (butlast data) else butlast data)
         else data)
      else data)"

fun base64_index :: "string \<Rightarrow> char \<Rightarrow> nat option" where
  "base64_index [] c = None"
| "base64_index (x # xs) c = (if x = c then Some 0 else map_option Suc (base64_index xs c))"

fun base64_values :: "string \<Rightarrow> nat list option" where
  "base64_values [] = Some []"
| "base64_values (c # cs) =
     (case base64_index BASE64 c of None \<Rightarrow> None
      | Some v \<Rightarrow> (case base64_values cs of None \<Rightarrow> None | Some vs \<Rightarrow> Some (v # vs)))"

fun octets :: "nat list \<Rightarrow> nat list" where
  "octets (a # b # c # d # rest) =
     [a * 4 + b div 16, b mod 16 * 16 + c div 4, c mod 4 * 64 + d] @ octets rest"
| "octets [a, b, c] = [a * 4 + b div 16, b mod 16 * 16 + c div 4]"
| "octets [a, b] = [a * 4 + b div 16]"
| "octets rest = []"

definition atob :: "string \<Rightarrow> error + string" where
  "atob data =
     (let data = remove_padding (filter (\<lambda>c. \<not> ascii_whitespace c) data)
      in if length data mod 4 = 1
         then Inl (Error ''The string to be decoded is not correctly encoded.'')
         else case base64_values data of
           None \<Rightarrow> Inl (Error ''The string to be decoded is not correctly encoded.'')
         | Some vs \<Rightarrow> Inr (map char_of (octets vs)))"

definition arrayBufferToBase64 :: "Uint8Array \<Rightarrow> string" where
  "arrayBufferToBase64 buffer = btoa (map (\<lambda>b. char_of (unat b)) buffer)"

definition base64ToArrayBuffer :: "string \<Rightarrow> error + Uint8Array" where
  "base64ToArrayBuffer base64 =
     (case atob base64 of
        Inl e \<Rightarrow> Inl e
      | Inr binary \<Rightarrow> Inr (map (\<lambda>c. of_nat (of_char c)) binary))"

subsection \<open>Web Crypto\<close>

text \<open>
  The primitives of \<open>crypto.subtle\<close> that the library calls. The SHA-256 digest and
  the AES-GCM cipher are parameters; AES-GCM takes the key and the initialisation vector
  and rejects (\<open>Inl\<close>) when it fails, on decryption when the tag does not verify.
\<close>

record subtle_crypto =
  digest_SHA256 :: "Uint8Array \<Rightarrow> Uint8Array"
  AES_GCM_encrypt :: "Uint8Array \<Rightarrow> Uint8Array \<Rightarrow> Uint8Array \<Rightarrow> error + Uint8Array"
  AES_GCM_decrypt :: "Uint8Array \<Rightarrow> Uint8Array \<Rightarrow> Uint8Array \<Rightarrow> error + Uint8Array"

text \<open>
  PBKDF2 with HMAC as its pseudorandom function, as \<open>deriveKey\<close> with
  \<open>{name: 'PBKDF2', hash: 'SHA-256'}\<close> computes it (RFC 8018 and RFC 2104). The HMAC
  key is the password: a key longer than the 64-byte block is hashed first, and the
  key is then padded with zero bytes to the block length.
\<close>

definition hmac_block_key :: "(Uint8Array \<Rightarrow> Uint8Array) \<Rightarrow> Uint8Array \<Rightarrow> Uint8Array" where
  "hmac_block_key H K =
     (let K' = (if length K > 64 then H K else K) in K' @ replicate (64 - length K') 0)"

definition HMAC :: "(Uint8Array \<Rightarrow> Uint8Array) \<Rightarrow> Uint8Array \<Rightarrow> Uint8Array \<Rightarrow> Uint8Array" where
  "HMAC H K text =
     (let K0 = hmac_block_key H K
      in H (map (\<lambda>b. b XOR 0x5c) K0 @ H (map (\<lambda>b. b XOR 0x36) K0 @ text)))"

definition INT_32_BE :: "nat \<Rightarrow> Uint8Array" where
  "INT_32_BE i = map (\<lambda>k. of_nat (i div 256 ^ k)) [3, 2, 1, 0]"

fun pbkdf2_U :: "(Uint8Array \<Rightarrow> Uint8Array) \<Rightarrow> Uint8Array \<Rightarrow> nat \<Rightarrow> Uint8Array" where
  "pbkdf2_U PRF U1 0 = U1"
| "pbkdf2_U PRF U1 (Suc j) = PRF (pbkdf2_U PRF U1 j)"

definition pbkdf2_F ::
  "(Uint8Array \<Rightarrow> Uint8Array) \<Rightarrow> Uint8Array \<Rightarrow> nat \<Rightarrow> nat \<Rightarrow> Uint8Array" where
  "pbkdf2_F PRF S c i =
     (let U1 = PRF (S @ INT_32_BE i)
      in fold (\<lambda>j T. map2 (XOR) T (pbkdf2_U PRF U1 j)) [1..<c] U1)"

definition PBKDF2 ::
  "(Uint8Array \<Rightarrow> Uint8Array) \<Rightarrow> Uint8Array \<Rightarrow> Uint8Array \<Rightarrow> nat \<Rightarrow> nat \<Rightarrow> Uint8Array" where
  "PBKDF2 H P S c dkLen =
     take dkLen (concat (map (pbkdf2_F (HMAC H P) S c) [1..<(dkLen + 31) div 32 + 1]))"

text \<open>\<open>crypto.getRandomValues\<close> consumes an entropy source, a stream of bytes.\<close>

type_synonym entropy = "nat \<Rightarrow> byte"

definition getRandomBytes :: "nat \<Rightarrow> entropy \<Rightarrow> Uint8Array \<times> entropy" where
  "getRandomBytes len rnd = (map rnd [0..<len], \<lambda>i. rnd (i + len))"

subsection \<open>Encryption\<close>

definition deriveKey :: "subtle_crypto \<Rightarrow> jsstring \<Rightarrow> Uint8Array \<Rightarrow> Uint8Array" where
  "deriveKey C password salt =
     (let passwordBuffer = TextEncoder_encode password
      in PBKDF2 (digest_SHA256 C) passwordBuffer salt 100000 32)"

record encrypted_secret =
  encrypted :: string
  salt :: string
  iv :: string

definition encrypt ::
  "subtle_crypto \<Rightarrow> entropy \<Rightarrow> jsstring \<Rightarrow> jsstring \<Rightarrow> error + encrypted_secret" where
  "encrypt C rnd plaintext password =
     (let (salt_bytes, rnd) = getRandomBytes 32 rnd;
          (iv_bytes, rnd) = getRandomBytes 12 rnd;
          key = deriveKey C password salt_bytes;
          plaintextBuffer = TextEncoder_encode plaintext
      in case AES_GCM_encrypt C key iv_bytes plaintextBuffer of
           Inl error \<Rightarrow> Inl (Error (''Encryption failed: '' @ message error))
         | Inr encryptedBuffer \<Rightarrow>
             Inr \<lparr>encrypted = arrayBufferToBase64 encryptedBuffer,
                  salt = arrayBufferToBase64 salt_bytes,
                  iv = arrayBufferToBase64 iv_bytes\<rparr>)"

definition decrypt_try ::
  "subtle_crypto \<Rightarrow> string \<Rightarrow> string \<Rightarrow> string \<Rightarrow> jsstring \<Rightarrow> error + jsstring" where
  "decrypt_try C encryptedBase64 saltBase64 ivBase64 password =
     (case base64ToArrayBuffer saltBase64 of
        Inl e \<Rightarrow> Inl e
      | Inr salt_bytes \<Rightarrow>
     (case base64ToArrayBuffer ivBase64 of
        Inl e \<Rightarrow> Inl e
      | Inr iv_bytes \<Rightarrow>
     (case base64ToArrayBuffer encryptedBase64 of
        Inl e \<Rightarrow> Inl e
      | Inr encrypted_bytes \<Rightarrow>
          let key = deriveKey C password salt_bytes
          in case AES_GCM_decrypt C key iv_bytes encrypted_bytes of
               Inl e \<Rightarrow> Inl e
             | Inr decryptedBuffer \<Rightarrow> Inr (TextDecoder_decode decryptedBuffer))))"

definition decrypt ::
  "subtle_crypto \<Rightarrow> string \<Rightarrow> string \<Rightarrow> string \<Rightarrow> jsstring \<Rightarrow> error + jsstring" where
  "decrypt C encryptedBase64 saltBase64 ivBase64 password =
     (case decrypt_try C encryptedBase64 saltBase64 ivBase64 password of
        Inl error \<Rightarrow> Inl (Error ''Decryption failed - incorrect password or corrupted data'')
      | Inr plaintext \<Rightarrow> Inr plaintext)"

subsection \<open>Persisted records\<close>

text \<open>
  The three records kept in \<open>chrome.storage.local\<close> under the keys
  \<open>dinari_wallet\<close>, \<open>dinari_settings\<close> and \<open>dinari_session\<close>. Times are
  milliseconds since the epoch (\<open>Date.now()\<close>); they and the auto-lock setting are
  JavaScript numbers. A record without the numeric property reads \<open>undefined\<close>, which
  the arithmetic converts to NaN: it is the record holding NaN.
\<close>

record session =
  unlocked :: bool
  last_activity :: number

record settings =
  rpc_endpoint :: string
  auto_lock_minutes :: number

record wallet_record =
  encrypted_data :: string
  salt' :: string
  iv' :: string
  address' :: string
  public_key :: string

record items =
  dinari_wallet :: "wallet_record option"
  dinari_settings :: "settings option"
  dinari_session :: "session option"

text \<open>
  \<open>chrome.storage.local.get\<close> returns a promise: it resolves with the stored items or
  rejects with an error. A store that rejects is \<open>StorageFailure\<close>.
\<close>

datatype chrome_storage = StorageFailure string | Storage items

fun local_get :: "chrome_storage \<Rightarrow> error + items" where
  "local_get (StorageFailure m) = Inl (Error m)"
| "local_get (Storage its) = Inr its"

definition DEFAULT_SETTINGS :: settings where
  "DEFAULT_SETTINGS =
     \<lparr>rpc_endpoint = ''https://rpctiger-testnet.dinariblockchain.network:8545'',
      auto_lock_minutes = Finite 5 0\<rparr>"

subsection \<open>Settings and session\<close>

definition getSettings :: "chrome_storage \<Rightarrow> settings" where
  "getSettings st =
     (case local_get st of
        Inl e \<Rightarrow> DEFAULT_SETTINGS
      | Inr result \<Rightarrow>
          (case dinari_settings result of None \<Rightarrow> DEFAULT_SETTINGS | Some s \<Rightarrow> s))"

definition getSession :: "chrome_storage \<Rightarrow> session" where
  "getSession st =
     (case local_get st of
        Inl e \<Rightarrow> \<lparr>unlocked = False, last_activity = Finite 0 0\<rparr>
      | Inr result \<Rightarrow>
          (case dinari_session result of
             None \<Rightarrow> \<lparr>unlocked = False, last_activity = Finite 0 0\<rparr>
           | Some s \<Rightarrow> s))"

text \<open>\<open>isSessionValid\<close>; the second argument is the value of \<open>Date.now()\<close>.\<close>

definition isSessionValid :: "chrome_storage \<Rightarrow> number \<Rightarrow> bool" where
  "isSessionValid st now =
     (let session = getSession st in
      if \<not> unlocked session then False
      else
        let settings = getSettings st;
            autoLockMs =
              js_mul (js_mul (auto_lock_minutes settings) (Finite 60 0)) (Finite 1000 0);
            timeSinceActivity = js_sub now (last_activity session)
        in js_lt timeSinceActivity autoLockMs)"

subsection \<open>Wallet records\<close>

text \<open>
  Reading a property of a parsed JSON value: \<open>null\<close> has no properties and the read
  throws a TypeError, whose message names the property in single quotes; a primitive
  has none of the properties read here.
\<close>

fun member :: "jsval \<Rightarrow> string \<Rightarrow> error + jsval" where
  "member (Object obj) k = Inr (get_prop obj k)"
| "member Null k =
     Inl (Error (''Cannot read properties of null (reading '' @ [CHR 0x27] @ k @ [CHR 0x27]
                 @ '')''))"
| "member Undefined k =
     Inl (Error (''Cannot read properties of undefined (reading '' @ [CHR 0x27] @ k
                 @ [CHR 0x27] @ '')''))"
| "member v k = Inr Undefined"

text \<open>
  \<open>loadWallet\<close>. \<open>JSON.parse\<close> is a parameter. Every error raised inside is caught
  and thrown again as a new error, with the message prefixed.
\<close>

definition loadWallet_try ::
  "subtle_crypto \<Rightarrow> (jsstring \<Rightarrow> error + jsval) \<Rightarrow> chrome_storage \<Rightarrow> jsstring
     \<Rightarrow> error + jsobject" where
  "loadWallet_try C JSON_parse st password =
     (case local_get st of
        Inl e \<Rightarrow> Inl e
      | Inr result \<Rightarrow>
     (case dinari_wallet result of
        None \<Rightarrow> Inl (Error ''No wallet found'')
      | Some walletData \<Rightarrow>
     (case decrypt C (encrypted_data walletData) (salt' walletData) (iv' walletData) password of
        Inl e \<Rightarrow> Inl e
      | Inr decryptedJson \<Rightarrow>
     (case JSON_parse decryptedJson of
        Inl e \<Rightarrow> Inl e
      | Inr sensitiveData \<Rightarrow>
     (case member sensitiveData ''privateKey'' of
        Inl e \<Rightarrow> Inl e
      | Inr private_key \<Rightarrow>
     (case member sensitiveData ''seedPhrase'' of
        Inl e \<Rightarrow> Inl e
      | Inr seed_phrase \<Rightarrow>
          Inr [(''privateKey'', private_key),
               (''seedPhrase'', seed_phrase),
               (''address'', String (js (address' walletData))),
               (''publicKey'', String (js (public_key walletData)))]))))))"

definition loadWallet ::
  "subtle_crypto \<Rightarrow> (jsstring \<Rightarrow> error + jsval) \<Rightarrow> chrome_storage \<Rightarrow> jsstring
     \<Rightarrow> error + jsobject" where
  "loadWallet C JSON_parse st password =
     (case loadWallet_try C JSON_parse st password of
        Inl error \<Rightarrow> Inl (Error (''Failed to load wallet: '' @ message error))
      | Inr w \<Rightarrow> Inr w)"

text \<open>\<open>verifyPassword\<close>: every error raised inside is caught and gives \<open>false\<close>.\<close>

definition verifyPassword_try :: "subtle_crypto \<Rightarrow> chrome_storage \<Rightarrow> jsstring \<Rightarrow> error + bool" where
  "verifyPassword_try C st password =
     (case local_get st of
        Inl e \<Rightarrow> Inl e
      | Inr result \<Rightarrow>
     (case dinari_wallet result of
        None \<Rightarrow> Inr False
      | Some walletData \<Rightarrow>
     (case decrypt C (encrypted_data walletData) (salt' walletData) (iv' walletData) password of
        Inl e \<Rightarrow> Inl e
      | Inr plaintext \<Rightarrow> Inr True)))"

definition verifyPassword :: "subtle_crypto \<Rightarrow> chrome_storage \<Rightarrow> jsstring \<Rightarrow> error + bool" where
  "verifyPassword C st password =
     (case verifyPassword_try C st password of Inl error \<Rightarrow> Inr False | Inr b \<Rightarrow> Inr b)"

subsection \<open>Auto-lock check of the service worker (src/background/service-worker.js)\<close>

text \<open>
  \<open>checkAutoLock\<close> reads the session and the settings and, when the session is unlocked
  and the timeout has passed, writes a locked session. The result is the new store.
\<close>

definition checkAutoLock :: "chrome_storage \<Rightarrow> number \<Rightarrow> chrome_storage" where
  "checkAutoLock st now =
     (case local_get st of
        Inl e \<Rightarrow> st
      | Inr result \<Rightarrow>
          let settings = (case dinari_settings result of
                            None \<Rightarrow> DEFAULT_SETTINGS\<lparr>auto_lock_minutes := Finite 5 0\<rparr>
                          | Some s \<Rightarrow> s)
          in case dinari_session result of
               None \<Rightarrow> st
             | Some session \<Rightarrow>
                 if \<not> unlocked session then st
                 else
                   let autoLockMs =
                         js_mul (js_mul (auto_lock_minutes settings) (Finite 60 0)) (Finite 1000 0);
                       timeSinceActivity = js_sub now (last_activity session)
                   in if js_ge timeSinceActivity autoLockMs
                      then Storage (result\<lparr>dinari_session :=
                             Some \<lparr>unlocked = False, last_activity = Finite 0 0\<rparr>\<rparr>)
                      else st)"

text \<open>A store holding only the given session and auto-lock setting.\<close>

definition session_store :: "bool \<Rightarrow> number \<Rightarrow> number \<Rightarrow> chrome_storage" where
  "session_store u t m =
     Storage \<lparr>dinari_wallet = None,
              dinari_settings = Some (DEFAULT_SETTINGS\<lparr>auto_lock_minutes := m\<rparr>),
              dinari_session = Some \<lparr>unlocked = u, last_activity = t\<rparr>\<rparr>"

subsection \<open>Assumptions on the cipher\<close>

text \<open>A cipher that only copies its input: it instantiates the AES-GCM parameter.\<close>

definition copy_cipher :: subtle_crypto where
  "copy_cipher =
     \<lparr>digest_SHA256 = (\<lambda>data. replicate 32 0),
      AES_GCM_encrypt = (\<lambda>key iv data. Inr data),
      AES_GCM_decrypt = (\<lambda>key iv data. Inr data)\<rparr>"

text \<open>AES-GCM decrypts what it encrypted under the same key and initialisation vector.\<close>

definition cipher_correct :: "subtle_crypto \<Rightarrow> bool" where
  "cipher_correct C =
     (\<forall>key iv data c. AES_GCM_encrypt C key iv data = Inr c \<longrightarrow>
        AES_GCM_decrypt C key iv c = Inr data)"

text \<open>A cipher whose decryption always rejects, to instantiate the failure cases.\<close>

definition rejecting_cipher :: subtle_crypto where
  "rejecting_cipher =
     \<lparr>digest_SHA256 = (\<lambda>data. replicate 32 0),
      AES_GCM_encrypt = (\<lambda>key iv data. Inr data),
      AES_GCM_decrypt = (\<lambda>key iv data. Inl (Error ''OperationError''))\<rparr>"

text \<open>Stores used to instantiate the statements below.\<close>

definition corrupt_wallet_store :: chrome_storage where
  "corrupt_wallet_store =
     Storage \<lparr>dinari_wallet =
                Some \<lparr>encrypted_data = ''!'', salt' = ''AAAA'', iv' = ''AAAA'',
                      address' = ''D'', public_key = ''02''\<rparr>,
              dinari_settings = None, dinari_session = None\<rparr>"

definition empty_store :: chrome_storage where
  "empty_store = Storage \<lparr>dinari_wallet = None, dinari_settings = None, dinari_session = None\<rparr>"

subsection \<open>The timeout rule of the specification\<close>

text \<open>
  The rule as the specification words it, in exact arithmetic, for integer times and an
  auto-lock setting given as a number: for the finite setting \<open>m * 2 ^ e\<close> it is
  \<open>now - lastActivityMs < m * 2 ^ e * 60000\<close>, with both sides multiplied by
  \<open>2 ^ (- e)\<close> when \<open>e\<close> is negative.
\<close>

fun spec_isValid :: "bool \<Rightarrow> int \<Rightarrow> int \<Rightarrow> number \<Rightarrow> bool" where
  "spec_isValid unlocked' now lastActivityMs (Finite m e) =
     (unlocked' \<and> (now - lastActivityMs) * 2 ^ nat (- e) < m * 2 ^ nat e * 60000)"
| "spec_isValid unlocked' now lastActivityMs PosInfinity = unlocked'"
| "spec_isValid unlocked' now lastActivityMs NegInfinity = False"
| "spec_isValid unlocked' now lastActivityMs NaN = False"

text \<open>The doubles nearest to 0.017 and to 0.13, as the values of an auto-lock setting.\<close>

definition minutes_0_017 :: number where
  "minutes_0_017 = Finite 1224979098644775 (- 56)"

definition minutes_0_13 :: number where
  "minutes_0_13 = Finite 1170935903116329 (- 53)"

lemma digitValue_HEX_DIGITS: "d < 16 \<Longrightarrow> digitValue (HEX_DIGITS ! d) = Some d"
proof -
  have "list_all (\<lambda>d. digitValue (HEX_DIGITS ! d) = Some d) [0..<16]"
    by code_simp
  then show "d < 16 \<Longrightarrow> digitValue (HEX_DIGITS ! d) = Some d" by (simp add: list_all_iff)
qed

lemma toString16_small: "n < 16 \<Longrightarrow> toString16 n = [HEX_DIGITS ! n]"
  by (simp add: toString16.simps)

lemma toString16_byte:
  "n < 256 \<Longrightarrow> padStart2 (toString16 n) = [HEX_DIGITS ! (n div 16), HEX_DIGITS ! (n mod 16)]"
proof (cases "n < 16")
  case True
  then show ?thesis by (simp add: toString16_small padStart2_def HEX_DIGITS_def)
next
  case False
  assume "n < 256"
  with False have "n div 16 < 16" by simp
  with False show ?thesis
    by (subst toString16.simps) (simp add: toString16_small padStart2_def)
qed

lemma parseInt16_pair:
  assumes "a < 16" "b < 16"
  shows "parseInt16 [HEX_DIGITS ! a, HEX_DIGITS ! b] = Some (int (16 * a + b))"
proof -
  have "list_all (\<lambda>d. \<not> isWhiteSpace (HEX_DIGITS ! d) \<and> HEX_DIGITS ! d \<noteq> CHR ''-''
      \<and> HEX_DIGITS ! d \<noteq> CHR ''+'' \<and> HEX_DIGITS ! d \<noteq> CHR ''x'' \<and> HEX_DIGITS ! d \<noteq> CHR ''X'') [0..<16]"
    by code_simp
  with assms have A: "\<not> isWhiteSpace (HEX_DIGITS ! a)" "HEX_DIGITS ! a \<noteq> CHR ''-''"
    "HEX_DIGITS ! a \<noteq> CHR ''+''" "HEX_DIGITS ! b \<noteq> CHR ''x''" "HEX_DIGITS ! b \<noteq> CHR ''X''"
    by (simp_all add: list_all_iff)
  show ?thesis
    using A assms by (simp add: parseInt16_def digitValue_HEX_DIGITS)
qed


subsection \<open>Bytes as numbers\<close>

definition bytes_val :: "Uint8Array \<Rightarrow> nat" where
  "bytes_val bytes = foldl (\<lambda>n b. 256 * n + unat b) 0 bytes"

lemma bytes_val_snoc: "bytes_val (bs @ [b]) = 256 * bytes_val bs + unat b"
  by (simp add: bytes_val_def)

lemma bytes_val_Nil: "bytes_val [] = 0"
  by (simp add: bytes_val_def)

lemma those_digits_append:
  "those_digits (xs @ ys) =
     (case those_digits xs of None \<Rightarrow> None
      | Some ds \<Rightarrow> (case those_digits ys of None \<Rightarrow> None | Some es \<Rightarrow> Some (ds @ es)))"
  by (induction xs) (auto split: option.splits)

lemma unat_byte_less: "unat (b :: byte) < 256"
  using unsigned_less [of b] by simp

lemma those_digits_byte:
  "those_digits (padStart2 (toString16 (unat (b :: byte)))) = Some [unat b div 16, unat b mod 16]"
proof -
  have "unat b div 16 < 16" using unat_byte_less [of b] by simp
  then show ?thesis
    by (simp add: toString16_byte unat_byte_less digitValue_HEX_DIGITS)
qed

lemma bytesToHex_snoc:
  "bytesToHex (bs @ [b]) = bytesToHex bs @ padStart2 (toString16 (unat b))"
  by (simp add: bytesToHex_def)

lemma those_digits_bytesToHex:
  "\<exists>ds. those_digits (bytesToHex bs) = Some ds \<and> (ds = [] \<longleftrightarrow> bs = [])
     \<and> foldl (\<lambda>n d. 16 * n + d) 0 ds = bytes_val bs"
proof (induction bs rule: rev_induct)
  case Nil
  then show ?case by (simp add: bytesToHex_def bytes_val_def)
next
  case (snoc b bs)
  then obtain ds where ds: "those_digits (bytesToHex bs) = Some ds"
    "foldl (\<lambda>n d. 16 * n + d) 0 ds = bytes_val bs" by blast
  have "those_digits (bytesToHex (bs @ [b])) = Some (ds @ [unat b div 16, unat b mod 16])"
    by (simp add: bytesToHex_snoc those_digits_append ds those_digits_byte)
  moreover have "foldl (\<lambda>n d. 16 * n + d) 0 (ds @ [unat b div 16, unat b mod 16])
      = bytes_val (bs @ [b])"
    by (simp add: ds bytes_val_snoc)
  ultimately show ?case by simp
qed

lemma BigInt_0x_bytesToHex:
  "BigInt_0x (bytesToHex bs) =
     (if bs = [] then Inl (Error ''Cannot convert 0x to a BigInt'') else Inr (bytes_val bs))"
proof -
  obtain ds where "those_digits (bytesToHex bs) = Some ds" "ds = [] \<longleftrightarrow> bs = []"
    "foldl (\<lambda>n d. 16 * n + d) 0 ds = bytes_val bs"
    using those_digits_bytesToHex by blast
  then show ?thesis by (auto simp: BigInt_0x_def bytesToHex_def)
qed

function digits58 :: "nat \<Rightarrow> string" where
  "digits58 n = (if n = 0 then [] else digits58 (n div 58) @ [ALPHABET ! (n mod 58)])"
  by pat_completeness auto
termination
  by (relation "measure id") auto

declare digits58.simps [simp del]

lemma base58_loop_digits58: "base58_loop num encoded = digits58 num @ encoded"
proof (induction num encoded rule: base58_loop.induct)
  case (1 num encoded)
  show ?case
  proof (cases "num > 0")
    case True
    with "1" show ?thesis
      by (subst base58_loop.simps, subst digits58.simps) simp
  next
    case False
    then show ?thesis
      by (subst base58_loop.simps, subst digits58.simps) simp
  qed
qed

lemma indexOf_ALPHABET: "d < 58 \<Longrightarrow> indexOf ALPHABET (ALPHABET ! d) = Some d"
proof -
  have "list_all (\<lambda>d. indexOf ALPHABET (ALPHABET ! d) = Some d) [0..<58]"
    by code_simp
  then show "d < 58 \<Longrightarrow> indexOf ALPHABET (ALPHABET ! d) = Some d"
    by (simp add: list_all_iff)
qed

lemma ALPHABET_nonzero: "0 < d \<Longrightarrow> d < 58 \<Longrightarrow> ALPHABET ! d \<noteq> CHR ''1''"
proof -
  have "list_all (\<lambda>d. ALPHABET ! d \<noteq> CHR ''1'') [1..<58]"
    by code_simp
  then show "0 < d \<Longrightarrow> d < 58 \<Longrightarrow> ALPHABET ! d \<noteq> CHR ''1''"
    by (simp add: list_all_iff)
qed

lemma ALPHABET_0: "ALPHABET ! 0 = CHR ''1''"
  by (simp add: ALPHABET_def)

lemma base58_digits_append:
  "base58_digits (xs @ ys) num =
     (case base58_digits xs num of Inl e \<Rightarrow> Inl e | Inr m \<Rightarrow> base58_digits ys m)"
  by (induction xs arbitrary: num) (auto split: option.splits)

lemma base58_digits_digits58: "base58_digits (digits58 n) 0 = Inr n"
proof (induction n rule: digits58.induct)
  case (1 n)
  show ?case
  proof (cases "n = 0")
    case True
    then show ?thesis by (simp add: digits58.simps)
  next
    case False
    with "1" have "base58_digits (digits58 (n div 58)) 0 = Inr (n div 58)" by simp
    with False show ?thesis
      by (subst digits58.simps) (simp add: base58_digits_append indexOf_ALPHABET)
  qed
qed

lemma base58_digits_ones: "base58_digits (replicate z CHR ''1'') 0 = Inr 0"
proof (induction z)
  case 0
  then show ?case by simp
next
  case (Suc z)
  have "indexOf ALPHABET CHR ''1'' = Some 0" by (simp add: ALPHABET_def)
  with Suc show ?case by simp
qed

lemma digits58_head:
  "0 < n \<Longrightarrow> \<exists>d r. digits58 n = ALPHABET ! d # r \<and> 0 < d \<and> d < 58"
proof (induction n rule: digits58.induct)
  case (1 n)
  show ?case
  proof (cases "n div 58 = 0")
    case True
    with "1.prems" have "digits58 n = [ALPHABET ! (n mod 58)]" "0 < n mod 58"
      by (auto simp: digits58.simps [of n] digits58.simps [of 0] div_eq_0_iff)
    then show ?thesis by auto
  next
    case False
    with "1" obtain d r where "digits58 (n div 58) = ALPHABET ! d # r" "0 < d" "d < 58"
      by auto
    with "1.prems" show ?thesis
      by (subst digits58.simps) auto
  qed
qed

lemma takeWhile_ones_digits58:
  "length (takeWhile (\<lambda>c. c = CHR ''1'') (replicate z CHR ''1'' @ digits58 n)) = z"
proof (cases "n = 0")
  case True
  then show ?thesis by (simp add: digits58.simps)
next
  case False
  then obtain d r where "digits58 n = ALPHABET ! d # r" "0 < d" "d < 58"
    using digits58_head [of n] by auto
  then show ?thesis
    by (simp add: takeWhile_append ALPHABET_nonzero)
qed

lemma leading_zeros_loop_eq:
  "leading_zeros_loop bytes encoded =
     replicate (length (takeWhile (\<lambda>b. b = 0) bytes)) CHR ''1'' @ encoded"
  by (induction bytes arbitrary: encoded) (simp_all add: ALPHABET_0 replicate_app_Cons_same)

function min_bytes :: "nat \<Rightarrow> Uint8Array" where
  "min_bytes n = (if n < 256 then [of_nat n] else min_bytes (n div 256) @ [of_nat (n mod 256)])"
  by pat_completeness auto
termination
  by (relation "measure id") auto

declare min_bytes.simps [simp del]

definition evenPad :: "string \<Rightarrow> string" where
  "evenPad hex = (if length hex mod 2 \<noteq> 0 then CHR ''0'' # hex else hex)"

lemma hexToBytes_append_pair:
  "even (length xs) \<Longrightarrow> hexToBytes (xs @ [a, b]) = hexToBytes xs @ [ToUint8 (parseInt16 [a, b])]"
  by (induction xs rule: hexToBytes.induct) simp_all

lemma hexToBytes_byte:
  "n < 256 \<Longrightarrow> hexToBytes [HEX_DIGITS ! (n div 16), HEX_DIGITS ! (n mod 16)] = [of_nat n]"
proof -
  assume n: "n < 256"
  then have "n div 16 < 16" by simp
  then have "parseInt16 [HEX_DIGITS ! (n div 16), HEX_DIGITS ! (n mod 16)] = Some (int n)"
    by (simp add: parseInt16_pair)
  then show ?thesis by (simp add: ToUint8_def)
qed

lemma toString16_256:
  "256 \<le> n \<Longrightarrow> toString16 n =
     toString16 (n div 256) @ [HEX_DIGITS ! (n mod 256 div 16), HEX_DIGITS ! (n mod 16)]"
proof -
  assume n: "256 \<le> n"
  have a: "toString16 n = toString16 (n div 16) @ [HEX_DIGITS ! (n mod 16)]"
    using n by (subst toString16.simps) simp
  have n16: "\<not> n div 16 < 16" using n by simp
  have b: "toString16 (n div 16) = toString16 (n div 16 div 16) @ [HEX_DIGITS ! (n div 16 mod 16)]"
    using n16 by (subst toString16.simps) simp
  have c: "n div 16 div 16 = n div 256"
    using div_mult2_eq [of n 16 16] by simp
  have "n mod 256 = 16 * (n div 16 mod 16) + n mod 16"
    using mod_mult2_eq [of n 16 16] by simp
  then have d: "n div 16 mod 16 = n mod 256 div 16" by simp
  show ?thesis by (simp add: a b c d)
qed


lemma length_toString16_256:
  "256 \<le> n \<Longrightarrow> length (toString16 n) = length (toString16 (n div 256)) + 2"
  by (simp add: toString16_256)

lemma hexToBytes_toString16: "hexToBytes (evenPad (toString16 n)) = min_bytes n"
proof (induction n rule: min_bytes.induct)
  case (1 n)
  show ?case
  proof (cases "n < 256")
    case True
    have "evenPad (toString16 n) = padStart2 (toString16 n)"
    proof (cases "n < 16")
      case True
      then show ?thesis by (simp add: toString16_small evenPad_def padStart2_def)
    next
      case False
      with \<open>n < 256\<close> have "n div 16 < 16" by simp
      with False show ?thesis
        by (subst (1 2) toString16.simps) (simp add: toString16_small evenPad_def padStart2_def)
    qed
    with True show ?thesis
      using hexToBytes_byte [OF True]
      by (simp add: toString16_byte min_bytes.simps [of n])
  next
    case False
    then have n: "256 \<le> n" by simp
    let ?t = "toString16 (n div 256)"
    let ?p = "[HEX_DIGITS ! (n mod 256 div 16), HEX_DIGITS ! (n mod 16)]"
    have t: "toString16 n = ?t @ ?p" using n by (rule toString16_256)
    have pad: "evenPad (toString16 n) = evenPad ?t @ ?p"
      by (simp add: t evenPad_def)
    have "(length ?t mod 2 \<noteq> 0) = odd (length ?t)"
      by (simp add: even_iff_mod_2_eq_zero)
    then have ev: "even (length (evenPad ?t))"
      by (simp add: evenPad_def)
    have m: "n mod 256 mod 16 = n mod 16"
      using mod_mod_cancel [of 16 256 n] by simp
    have "hexToBytes ?p = [of_nat (n mod 256)]"
      using hexToBytes_byte [of "n mod 256"] by (simp add: m)
    then have "ToUint8 (parseInt16 ?p) = of_nat (n mod 256)" by simp
    with "1" False show ?thesis
      by (simp add: pad hexToBytes_append_pair [OF ev] min_bytes.simps [of n])
  qed
qed

lemma bytes_val_pos: "bs \<noteq> [] \<Longrightarrow> hd bs \<noteq> 0 \<Longrightarrow> 0 < bytes_val bs"
proof (induction bs rule: rev_induct)
  case Nil
  then show ?case by simp
next
  case (snoc b bs)
  show ?case
  proof (cases "bs = []")
    case True
    with snoc.prems show ?thesis
      by (simp add: bytes_val_def unat_gt_0)
  next
    case False
    with snoc have "0 < bytes_val bs" by simp
    then show ?thesis by (simp add: bytes_val_snoc)
  qed
qed

lemma min_bytes_bytes_val: "bs \<noteq> [] \<Longrightarrow> hd bs \<noteq> 0 \<Longrightarrow> min_bytes (bytes_val bs) = bs"
proof (induction bs rule: rev_induct)
  case Nil
  then show ?case by simp
next
  case (snoc b bs)
  show ?case
  proof (cases "bs = []")
    case True
    then show ?thesis
      by (simp add: bytes_val_def min_bytes.simps unat_byte_less)
  next
    case False
    with snoc have ih: "min_bytes (bytes_val bs) = bs" and pos: "0 < bytes_val bs"
      by (simp_all add: bytes_val_pos)
    have "\<not> 256 * bytes_val bs + unat b < 256" using pos by simp
    then show ?thesis
      by (simp add: bytes_val_snoc min_bytes.simps [of "256 * bytes_val bs + unat b"] ih
          unat_byte_less)
  qed
qed

lemma bytes_val_zeros: "bytes_val (replicate z 0 @ bs) = bytes_val bs"
proof -
  have "foldl (\<lambda>n b. 256 * n + unat b) 0 (replicate z (0 :: byte)) = 0"
    by (induction z) simp_all
  then show ?thesis by (simp add: bytes_val_def)
qed

lemma base58Decode_eq:
  "base58Decode str =
     (case base58_digits str 0 of
        Inl e \<Rightarrow> Inl e
      | Inr num \<Rightarrow>
          Inr (replicate (length (takeWhile (\<lambda>c. c = CHR ''1'') str)) 0 @ min_bytes num))"
  unfolding base58Decode_def Let_def evenPad_def [symmetric]
  by (simp only: hexToBytes_toString16)

lemma base58Encode_eq:
  "base58Encode bs =
     (if bs = [] then Inl (Error ''Cannot convert 0x to a BigInt'')
      else Inr (replicate (length (takeWhile (\<lambda>b. b = 0) bs)) CHR ''1'' @ digits58 (bytes_val bs)))"
  by (simp add: base58Encode_def BigInt_0x_bytesToHex base58_loop_digits58 leading_zeros_loop_eq)

lemma base58Decode_ones_digits58:
  "base58Decode (replicate z CHR ''1'' @ digits58 n) = Inr (replicate z 0 @ min_bytes n)"
  by (simp add: base58Decode_eq base58_digits_append base58_digits_ones base58_digits_digits58
      takeWhile_ones_digits58)

lemma takeWhile_zero_replicate:
  "takeWhile (\<lambda>b. b = 0) bs = replicate (length (takeWhile (\<lambda>b. b = 0) bs)) (0 :: byte)"
  by (induction bs) simp_all

lemma split_leading_zeros:
  "bs = replicate (length (takeWhile (\<lambda>b. b = 0) bs)) (0 :: byte) @ dropWhile (\<lambda>b. b = 0) bs"
  using takeWhile_dropWhile_id [of "\<lambda>b. b = 0" bs] takeWhile_zero_replicate [of bs] by simp

lemma min_bytes_nonzero:
  assumes "\<exists>b \<in> set bs. b \<noteq> 0"
  shows "replicate (length (takeWhile (\<lambda>b. b = 0) bs)) 0 @ min_bytes (bytes_val bs) = bs"
proof -
  let ?z = "length (takeWhile (\<lambda>b. b = 0) bs)"
  let ?r = "dropWhile (\<lambda>b. b = 0) bs"
  from assms have r: "?r \<noteq> []" by (simp add: dropWhile_eq_Nil_conv)
  then have h: "hd ?r \<noteq> 0" using hd_dropWhile [of "\<lambda>b. b = 0" bs] by simp
  have "bytes_val bs = bytes_val (replicate ?z 0 @ ?r)"
    using split_leading_zeros [of bs] by simp
  then have "bytes_val bs = bytes_val ?r" by (simp add: bytes_val_zeros)
  then have "min_bytes (bytes_val bs) = ?r" using r h by (simp add: min_bytes_bytes_val)
  then show ?thesis using split_leading_zeros [of bs] by simp
qed

lemma min_bytes_all_zero:
  assumes "\<forall>b \<in> set bs. b = 0"
  shows "replicate (length (takeWhile (\<lambda>b. b = 0) bs)) 0 @ min_bytes (bytes_val bs) = bs @ [0]"
proof -
  from assms have t: "takeWhile (\<lambda>b. b = 0) bs = bs" by (simp add: takeWhile_eq_all_conv)
  from assms have bs: "bs = replicate (length bs) 0" by (simp add: replicate_length_same)
  have "bytes_val bs = bytes_val (replicate (length bs) 0 @ [])" using bs by simp
  then have "bytes_val bs = 0" by (simp only: bytes_val_zeros bytes_val_Nil)
  then show ?thesis using bs by (simp add: t min_bytes.simps)
qed

lemma base58_decode_encode_nonzero:
  "\<exists>b \<in> set bytes. b \<noteq> 0 \<Longrightarrow>
     \<exists>s. base58Encode bytes = Inr s \<and> base58Decode s = Inr bytes"
  by (auto simp: base58Encode_eq base58Decode_ones_digits58 min_bytes_nonzero)

lemma base58_decode_encode_zero:
  "bytes \<noteq> [] \<Longrightarrow> \<forall>b \<in> set bytes. b = 0 \<Longrightarrow>
     \<exists>s. base58Encode bytes = Inr s \<and> base58Decode s = Inr (bytes @ [0])"
  by (auto simp: base58Encode_eq base58Decode_ones_digits58 min_bytes_all_zero)

lemma hexToBytes_bytesToHex: "hexToBytes (bytesToHex bs) = bs"
proof (induction bs)
  case Nil
  then show ?case by (simp add: bytesToHex_def)
next
  case (Cons b bs)
  have "bytesToHex (b # bs) = [HEX_DIGITS ! (unat b div 16), HEX_DIGITS ! (unat b mod 16)] @ bytesToHex bs"
    by (simp add: bytesToHex_def toString16_byte unat_byte_less)
  moreover have "ToUint8 (parseInt16 [HEX_DIGITS ! (unat b div 16), HEX_DIGITS ! (unat b mod 16)]) = b"
    using hexToBytes_byte [of "unat b"] by (simp add: unat_byte_less)
  ultimately show ?case using Cons by simp
qed

lemma sha256Sync_eq: "sha256Sync J data = SHA256 J data"
  by (simp add: sha256Sync_def hexToBytes_bytesToHex)

lemma ripemd160_eq: "ripemd160 J data = RIPEMD160 J data"
  by (simp add: ripemd160_def hexToBytes_bytesToHex)

lemma digits58_leading:
  "0 < d \<Longrightarrow> d < 58 \<Longrightarrow> d * 58 ^ k \<le> n \<Longrightarrow> n < (d + 1) * 58 ^ k \<Longrightarrow>
     \<exists>r. digits58 n = ALPHABET ! d # r"
proof (induction k arbitrary: n)
  case 0
  then have "n = d" by simp
  with 0 show ?case
    by (simp add: digits58.simps [of d] digits58.simps [of 0])
next
  case (Suc k)
  from Suc.prems have lo: "d * 58 ^ k \<le> n div 58"
    by (simp add: less_eq_div_iff_mult_less_eq mult.assoc mult.commute)
  from Suc.prems have hi: "n div 58 < (d + 1) * 58 ^ k"
    by (simp add: div_less_iff_less_mult mult.assoc mult.commute)
  from Suc.IH [OF Suc.prems(1,2) lo hi] obtain r where "digits58 (n div 58) = ALPHABET ! d # r" ..
  moreover have "0 < d * 58 ^ Suc k" using Suc.prems(1) by simp
  then have "n \<noteq> 0" using Suc.prems(3) by linarith
  ultimately show ?case by (subst digits58.simps) simp
qed

lemma bytes_val_less: "bytes_val bs < 256 ^ length bs"
proof (induction bs rule: rev_induct)
  case Nil
  then show ?case by (simp add: bytes_val_def)
next
  case (snoc b bs)
  have "256 * bytes_val bs + unat b < 256 * (bytes_val bs + 1)"
    using unat_byte_less [of b] by simp
  also have "\<dots> \<le> 256 * 256 ^ length bs"
    using snoc by (simp only: mult_le_cancel1 Suc_eq_plus1 [symmetric] Suc_le_eq) simp
  finally show ?case by (simp add: bytes_val_snoc)
qed

lemma bytes_val_append: "bytes_val (xs @ ys) = bytes_val xs * 256 ^ length ys + bytes_val ys"
proof (induction ys rule: rev_induct)
  case Nil
  then show ?case by (simp add: bytes_val_def)
next
  case (snoc b ys)
  have "bytes_val (xs @ ys @ [b]) = 256 * bytes_val (xs @ ys) + unat b"
    using bytes_val_snoc [of "xs @ ys" b] by simp
  then show ?case by (simp add: snoc bytes_val_snoc algebra_simps)
qed

lemma bytes_val_Cons: "bytes_val (b # bs) = unat b * 256 ^ length bs + bytes_val bs"
  using bytes_val_append [of "[b]" bs] by (simp add: bytes_val_def)

lemma compare_checksums_eq:
  "length xs = 4 \<Longrightarrow> length ys = 4 \<Longrightarrow> compare_checksums xs ys = (xs = ys)"
  by (auto simp: compare_checksums_def index_def list_eq_iff_nth_eq less_Suc_eq numeral_eq_Suc)

lemma versioned_encode:
  assumes "length bs = 25" and "hd bs = ADDRESS_VERSION"
  shows "\<exists>s. base58Encode bs = Inr s \<and> startsWith s ''D'' \<and> base58Decode s = Inr bs"
proof -
  from assms obtain rest where bs: "bs = ADDRESS_VERSION # rest" and rest: "length rest = 24"
    by (cases bs) auto
  have nz: "\<exists>b \<in> set bs. b \<noteq> 0" by (auto simp: bs ADDRESS_VERSION_def)
  have z: "takeWhile (\<lambda>b. b = 0) bs = []" by (simp add: bs ADDRESS_VERSION_def)
  let ?n = "bytes_val bs"
  have enc: "base58Encode bs = Inr (digits58 ?n)"
    using assms(1) by (auto simp: base58Encode_eq z)
  have n: "?n = 30 * 256 ^ 24 + bytes_val rest"
    by (simp add: bs bytes_val_Cons rest ADDRESS_VERSION_def)
  have "bytes_val rest < 256 ^ 24" using bytes_val_less [of rest] by (simp add: rest)
  with n have "12 * 58 ^ 33 \<le> ?n" "?n < (12 + 1) * 58 ^ 33" by simp_all
  then obtain r where "digits58 ?n = ALPHABET ! 12 # r"
    using digits58_leading [of 12 33 ?n] by auto
  then have "startsWith (digits58 ?n) ''D''"
    by (simp add: startsWith_def ALPHABET_def)
  moreover have "base58Decode (digits58 ?n) = Inr bs"
    using base58_decode_encode_nonzero [of bs] nz enc by auto
  ultimately show ?thesis using enc by simp
qed

lemma validateAddress_encoded:
  assumes len: "length bs = 25" and sha: "\<forall>x. length (SHA256 J x) = 32"
    and enc: "base58Encode bs = Inr s"
  shows "validateAddress J s =
     Inr (startsWith s ''D'' \<and> hd bs = ADDRESS_VERSION \<and>
          drop 21 bs = take 4 (SHA256 J (SHA256 J (take 21 bs))))"
proof (cases "startsWith s ''D''")
  case False
  then show ?thesis by (simp add: validateAddress_def validateAddress_try_def)
next
  case True
  let ?z = "length (takeWhile (\<lambda>b. b = 0) bs)"
  from len have ne: "bs \<noteq> []" by auto
  with enc have s: "s = replicate ?z CHR ''1'' @ digits58 (bytes_val bs)"
    by (simp add: base58Encode_eq)
  show ?thesis
  proof (cases "\<exists>b \<in> set bs. b \<noteq> 0")
    case nz: True
    then have dec: "base58Decode s = Inr bs"
      by (simp add: s base58Decode_ones_digits58 min_bytes_nonzero)
    have i0: "index bs 0 = Some (hd bs)" using ne by (cases bs) (simp_all add: index_def)
    have l1: "length (slice_arr 21 25 bs) = 4" by (simp add: slice_arr_def len)
    have l2: "length (slice_arr 0 4 (SHA256 J (SHA256 J (slice_arr 0 21 bs)))) = 4"
      using sha by (simp add: slice_arr_def)
    note chk = compare_checksums_eq [OF l1 l2]
    show ?thesis
      using True
      by (simp add: validateAddress_def validateAddress_try_def dec len i0 Let_def
          sha256Sync_eq chk)
        (simp add: slice_arr_def len)
  next
    case False
    then have "\<forall>b \<in> set bs. b = 0" by simp
    then have dec: "base58Decode s = Inr (bs @ [0])"
      by (simp add: s base58Decode_ones_digits58 min_bytes_all_zero)
    from False ne have "hd bs \<noteq> ADDRESS_VERSION"
      by (cases bs) (auto simp: ADDRESS_VERSION_def)
    then show ?thesis
      by (simp add: validateAddress_def validateAddress_try_def dec len)
  qed
qed

lemma publicKeyToAddress_eq:
  assumes sha: "\<forall>x. length (SHA256 J x) = 32" and rmd: "\<forall>x. length (RIPEMD160 J x) = 20"
  shows "publicKeyToAddress_try J publicKeyHex =
     base58Encode (address_bytes J (RIPEMD160 J (SHA256 J (hexToBytes publicKeyHex))))"
proof -
  let ?h = "RIPEMD160 J (SHA256 J (hexToBytes publicKeyHex))"
  have h: "length ?h = 20" using rmd by simp
  have p: "typed_set ((replicate 21 0) [0 := ADDRESS_VERSION]) ?h (Suc 0) = Inr (ADDRESS_VERSION # ?h)"
    by (simp add: typed_set_def h numeral_eq_Suc)
  have c: "length (slice_arr 0 4 (SHA256 J (SHA256 J (ADDRESS_VERSION # ?h)))) = 4"
    using sha by (simp add: slice_arr_def)
  have a: "typed_set (replicate 25 0) (ADDRESS_VERSION # ?h) 0
      = Inr ((ADDRESS_VERSION # ?h) @ replicate 4 0)"
    by (simp add: typed_set_def h)
  have b: "typed_set (ADDRESS_VERSION # ?h @ replicate 4 0)
        (slice_arr 0 4 (SHA256 J (SHA256 J (ADDRESS_VERSION # ?h)))) 21
      = Inr (address_bytes J ?h)"
    using c by (simp add: typed_set_def h address_bytes_def slice_arr_def)
  show ?thesis
    by (simp add: publicKeyToAddress_try_def Let_def sha256Sync_eq ripemd160_eq p a b)
qed

lemma address_bytes_props:
  assumes sha: "\<forall>x. length (SHA256 J x) = 32" and h: "length h = 20"
  shows "length (address_bytes J h) = 25" "hd (address_bytes J h) = ADDRESS_VERSION"
    "take 21 (address_bytes J h) = ADDRESS_VERSION # h"
    "drop 21 (address_bytes J h) = take 4 (SHA256 J (SHA256 J (ADDRESS_VERSION # h)))"
  using sha h by (simp_all add: address_bytes_def)

lemma length_WORDLIST: "length WORDLIST = 234"
  by (simp add: WORDLIST_def)

lemma residue_class:
  fixes i :: nat
  assumes "i < 234"
  shows "{n. n < 4294967296 \<and> n mod 234 = i} =
     (\<lambda>k. k * 234 + i) ` {..<(if i < 22 then 18354562 else 18354561 :: nat)}"
proof (intro set_eqI iffI)
  fix n :: nat
  assume "n \<in> {n. n < 4294967296 \<and> n mod 234 = i}"
  then have n: "n < 4294967296" "n mod 234 = i" by simp_all
  have eq: "n = (n div 234) * 234 + i" using n(2) by (metis div_mult_mod_eq)
  have "n div 234 < (if i < 22 then 18354562 else 18354561)"
    using n(1) eq by (auto split: if_splits)
  with eq show "n \<in> (\<lambda>k. k * 234 + i) ` {..<(if i < 22 then 18354562 else 18354561 :: nat)}"
    by blast
next
  fix n :: nat
  assume "n \<in> (\<lambda>k. k * 234 + i) ` {..<(if i < 22 then 18354562 else 18354561 :: nat)}"
  then obtain k where k: "n = k * 234 + i" "k < (if i < 22 then 18354562 else 18354561)"
    by auto
  have "n < 4294967296" using k assms by (auto split: if_splits)
  moreover have "n mod 234 = i" using k(1) assms by simp
  ultimately show "n \<in> {n. n < 4294967296 \<and> n mod 234 = i}" by simp
qed

lemma card_residue_class:
  fixes i :: nat
  assumes "i < 234"
  shows "card {n. n < 4294967296 \<and> n mod 234 = i} =
     (if i < 22 then 18354562 else 18354561 :: nat)"
proof -
  have "inj_on (\<lambda>k. k * 234 + i) {..<(if i < 22 then 18354562 else 18354561 :: nat)}"
    by (rule inj_onI) simp
  then show ?thesis
    by (simp only: residue_class [OF assms] card_image card_lessThan)
qed

lemma card_randomIndex:
  "card {r. randomIndex r = i} = card {n. n < 4294967296 \<and> n mod 234 = i}"
proof -
  have "unat ` {r :: 32 word. randomIndex r = i} = {n. n < 4294967296 \<and> n mod 234 = i}"
  proof (intro set_eqI iffI)
    fix n
    assume "n \<in> unat ` {r :: 32 word. randomIndex r = i}"
    then obtain r :: "32 word" where "n = unat r" "unat r mod 234 = i"
      by (auto simp: randomIndex_def length_WORDLIST)
    moreover have "unat r < 4294967296" using unsigned_less [of r] by simp
    ultimately show "n \<in> {n. n < 4294967296 \<and> n mod 234 = i}" by simp
  next
    fix n :: nat
    assume "n \<in> {n. n < 4294967296 \<and> n mod 234 = i}"
    then have n: "n < 4294967296" "n mod 234 = i" by simp_all
    then have "unat (word_of_nat n :: 32 word) = n"
      by (simp add: unat_of_nat)
    with n(2) have "(word_of_nat n :: 32 word) \<in> {r. randomIndex r = i}"
      by (simp add: randomIndex_def length_WORDLIST)
    with \<open>unat (word_of_nat n :: 32 word) = n\<close> show "n \<in> unat ` {r :: 32 word. randomIndex r = i}"
      by (metis imageI)
  qed
  moreover have "inj_on unat {r :: 32 word. randomIndex r = i}"
    by (rule inj_onI) (simp add: word_unat_eq_iff)
  ultimately show ?thesis by (metis card_image)
qed

subsection \<open>Base64 round trip\<close>

lemma base64_index_BASE64: "v < 64 \<Longrightarrow> base64_index BASE64 (BASE64 ! v) = Some v"
proof -
  have "list_all (\<lambda>v. base64_index BASE64 (BASE64 ! v) = Some v) [0..<64]"
    by code_simp
  then show "v < 64 \<Longrightarrow> base64_index BASE64 (BASE64 ! v) = Some v"
    by (simp add: list_all_iff)
qed

lemma BASE64_plain:
  "v < 64 \<Longrightarrow> \<not> ascii_whitespace (BASE64 ! v) \<and> BASE64 ! v \<noteq> CHR ''=''"
proof -
  have "list_all (\<lambda>v. \<not> ascii_whitespace (BASE64 ! v) \<and> BASE64 ! v \<noteq> CHR ''='') [0..<64]"
    by code_simp
  then show "v < 64 \<Longrightarrow> \<not> ascii_whitespace (BASE64 ! v) \<and> BASE64 ! v \<noteq> CHR ''=''"
    by (simp add: list_all_iff)
qed

lemma sextet_bounds:
  fixes a b c :: nat
  assumes "a < 256" "b < 256" "c < 256"
  shows "a div 4 < 64" "a mod 4 * 16 + b div 16 < 64" "b mod 16 * 4 + c div 64 < 64"
    "c mod 64 < 64" "b mod 16 * 4 < 64" "a mod 4 * 16 < 64"
proof -
  have x: "a mod 4 < 4" "b mod 16 < 16" by simp_all
  have y: "b div 16 < 16" "c div 64 < 4" using assms by simp_all
  have lin: "\<And>p q :: nat. p < 4 \<Longrightarrow> q < 16 \<Longrightarrow> p * 16 + q < 64"
    "\<And>p q :: nat. p < 16 \<Longrightarrow> q < 4 \<Longrightarrow> p * 4 + q < 64" by simp_all
  show "a div 4 < 64" using assms by simp
  show "a mod 4 * 16 + b div 16 < 64" using lin(1) [OF x(1) y(1)] .
  show "b mod 16 * 4 + c div 64 < 64" using lin(2) [OF x(2) y(2)] .
  show "c mod 64 < 64" by simp
  show "b mod 16 * 4 < 64" using lin(2) [OF x(2), of 0] by simp
  show "a mod 4 * 16 < 64" using lin(1) [OF x(1), of 0] by simp
qed

lemma sextets_less: "\<forall>x \<in> set xs. x < 256 \<Longrightarrow> \<forall>v \<in> set (sextets xs). v < 64"
proof (induction xs rule: sextets.induct)
  case (1 a b c rest)
  then have "a < 256" "b < 256" "c < 256" by simp_all
  from sextet_bounds [OF this] "1" show ?case by simp
next
  case (2 a b)
  then have "a < 256" "b < 256" by simp_all
  from sextet_bounds [OF this this(2)] show ?case by simp
next
  case (3 a)
  then have "a < 256" by simp
  from sextet_bounds [OF this this this] show ?case by simp
next
  case 4
  then show ?case by simp
qed


lemma sextet_arith:
  fixes a b c :: nat
  assumes "b < 256" "c < 256"
  shows "a div 4 * 4 + (a mod 4 * 16 + b div 16) div 16 = a"
    and "(a mod 4 * 16 + b div 16) mod 16 * 16 + (b mod 16 * 4 + c div 64) div 4 = b"
    and "(b mod 16 * 4 + c div 64) mod 4 * 64 + c mod 64 = c"
    and "(a mod 4 * 16 + b div 16) mod 16 * 16 + (b mod 16 * 4) div 4 = b"
    and "a div 4 * 4 + (a mod 4 * 16) div 16 = a"
proof -
  have 1: "b div 16 < 16" using assms(1) by simp
  have 2: "c div 64 < 4" using assms(2) by simp
  show "a div 4 * 4 + (a mod 4 * 16 + b div 16) div 16 = a" using 1 by simp
  show "(a mod 4 * 16 + b div 16) mod 16 * 16 + (b mod 16 * 4 + c div 64) div 4 = b"
    using 1 2 by simp
  show "(b mod 16 * 4 + c div 64) mod 4 * 64 + c mod 64 = c" using 2 by simp
  show "(a mod 4 * 16 + b div 16) mod 16 * 16 + (b mod 16 * 4) div 4 = b" using 1 by simp
  show "a div 4 * 4 + (a mod 4 * 16) div 16 = a" by simp
qed

lemma octets_sextets: "\<forall>x \<in> set xs. x < 256 \<Longrightarrow> octets (sextets xs) = xs"
proof (induction xs rule: sextets.induct)
  case (1 a b c rest)
  then have "b < 256" "c < 256" by simp_all
  from sextet_arith(1-3) [OF this] "1" show ?case by simp
next
  case (2 a b)
  then have "b < 256" by simp
  from sextet_arith(1,4) [OF this this] show ?case by simp
next
  case (3 a)
  from sextet_arith(5) show ?case by simp
next
  case 4
  then show ?case by simp
qed

lemma base64_values_map:
  "\<forall>v \<in> set vs. v < 64 \<Longrightarrow> base64_values (map (\<lambda>v. BASE64 ! v) vs) = Some vs"
  by (induction vs) (simp_all add: base64_index_BASE64)

lemma remove_padding_btoa:
  assumes body: "\<forall>c \<in> set body. c \<noteq> CHR ''=''" and "p < 3"
    and len: "length (body @ replicate p CHR ''='') mod 4 = 0"
  shows "remove_padding (body @ replicate p CHR ''='') = body"
proof -
  have nl: "(body \<noteq> [] \<and> last body = CHR ''='') = False"
    using body last_in_set by blast
  from \<open>p < 3\<close> consider "p = 0" | "p = 1" | "p = 2" by linarith
  then show ?thesis
  proof cases
    case 1
    then have "remove_padding body = body"
      unfolding remove_padding_def using nl by (cases "body = []") simp_all
    with 1 show ?thesis by simp
  next
    case 2
    then have d: "body @ replicate p CHR ''='' = body @ ''=''" by simp
    have "remove_padding (body @ ''='') = body"
      unfolding remove_padding_def using nl len [unfolded d]
      by (cases "body = []") (simp_all del: length_append)
    with d show ?thesis by simp
  next
    case 3
    then have d: "body @ replicate p CHR ''='' = body @ ''==''" by (simp add: numeral_2_eq_2)
    have b: "butlast (body @ ''=='') = body @ ''=''" by (simp add: butlast_append)
    have "remove_padding (body @ ''=='') = body"
      unfolding remove_padding_def b using len [unfolded d] by (simp del: length_append)
    with d show ?thesis by simp
  qed
qed


lemma mod3_add3: "(Suc (Suc (Suc n))) mod 3 = n mod 3"
proof -
  have "Suc (Suc (Suc n)) = n + 3" by simp
  then show ?thesis by (simp only: mod_add_self2)
qed

lemma mod4_add4: "(Suc (Suc (Suc (Suc n)))) mod 4 = n mod 4"
proof -
  have "Suc (Suc (Suc (Suc n))) = n + 4" by simp
  then show ?thesis by (simp only: mod_add_self2)
qed

lemma length_sextets_mod:
  "(length (sextets xs) + (3 - length xs mod 3) mod 3) mod 4 = 0 \<and> length (sextets xs) mod 4 \<noteq> 1"
proof (induction xs rule: sextets.induct)
  case (1 a b c rest)
  have "length (sextets (a # b # c # rest)) = Suc (Suc (Suc (Suc (length (sextets rest)))))"
    by simp
  moreover have "length (a # b # c # rest) mod 3 = length rest mod 3"
    using mod3_add3 [of "length rest"] by simp
  ultimately show ?case using 1 mod4_add4 by (simp only: add_Suc) simp
next
  case (2 a b)
  show ?case by simp
next
  case (3 a)
  show ?case by simp
next
  case 4
  show ?case by simp
qed


lemma atob_btoa: "atob (btoa s) = Inr s"
proof -
  let ?xs = "map of_char s :: nat list"
  let ?body = "map (\<lambda>v. BASE64 ! v) (sextets ?xs)"
  let ?p = "(3 - length s mod 3) mod 3"
  have xs: "\<forall>x \<in> set ?xs. x < 256" by auto
  then have v: "\<forall>v \<in> set (sextets ?xs). v < 64" by (rule sextets_less)
  have plain: "\<forall>c \<in> set ?body. \<not> ascii_whitespace c \<and> c \<noteq> CHR ''=''"
    using v by (auto simp: BASE64_plain)
  have eqws: "\<not> ascii_whitespace CHR ''=''" by (simp add: ascii_whitespace_def)
  have f: "filter (\<lambda>c. \<not> ascii_whitespace c) (btoa s) = ?body @ replicate ?p CHR ''=''"
    using plain eqws by (simp add: btoa_def filter_id_conv)
  have len: "length (?body @ replicate ?p CHR ''='') mod 4 = 0"
    using length_sextets_mod [of ?xs] by simp
  have r: "remove_padding (?body @ replicate ?p CHR ''='') = ?body"
    using plain len by (intro remove_padding_btoa) auto
  have l1: "length ?body mod 4 \<noteq> 1" using length_sextets_mod [of ?xs] by simp
  have "map char_of (octets (sextets ?xs)) = s"
    by (simp add: octets_sextets [OF xs] comp_def)
  then show ?thesis
    using l1 by (simp add: atob_def f r base64_values_map [OF v])
qed

lemma base64ToArrayBuffer_arrayBufferToBase64:
  "base64ToArrayBuffer (arrayBufferToBase64 buffer) = Inr buffer"
proof -
  have "map (\<lambda>c. of_nat (of_char c)) (map (\<lambda>b. char_of (unat b)) buffer) = buffer"
    by (induction buffer) (simp_all add: unat_byte_less)
  then show ?thesis
    by (simp add: base64ToArrayBuffer_def arrayBufferToBase64_def atob_btoa)
qed

subsection \<open>UTF-8 round trip\<close>

lemma mod_add_multiple: "q < m \<Longrightarrow> (k * m + q) mod m = (q :: nat)"
  by simp

lemma lead_mods:
  fixes q :: nat
  shows "q < 32 \<Longrightarrow> (192 + q) mod 32 = q"
    and "q < 16 \<Longrightarrow> (224 + q) mod 16 = q"
    and "q < 8 \<Longrightarrow> (240 + q) mod 8 = q"
    and "q < 64 \<Longrightarrow> (128 + q) mod 64 = q"
  using mod_add_multiple [of q 32 6] mod_add_multiple [of q 16 14]
    mod_add_multiple [of q 8 30] mod_add_multiple [of q 64 2]
  by simp_all

lemma decode1:
  "c < 128 \<Longrightarrow> utf8_decoder utf8_initial (c # rest) = c # utf8_decoder utf8_initial rest"
  by (simp add: utf8_initial_def utf8_decoder.simps)

lemma decode2:
  assumes "2 \<le> q1" "q1 < 32" "q0 < 64"
  shows "utf8_decoder utf8_initial ([0xC0 + q1, 0x80 + q0] @ rest) =
     (q1 * 64 + q0) # utf8_decoder utf8_initial rest"
  using assms lead_mods(1) [of q1] lead_mods(4) [of q0]
  by (simp add: utf8_initial_def Let_def utf8_decoder.simps)

lemma decode3:
  assumes "q2 < 16" "q1 < 64" "q0 < 64" "q2 = 0 \<longrightarrow> 32 \<le> q1" "q2 = 13 \<longrightarrow> q1 < 32"
  shows "utf8_decoder utf8_initial ([0xE0 + q2, 0x80 + q1, 0x80 + q0] @ rest) =
     ((q2 * 64 + q1) * 64 + q0) # utf8_decoder utf8_initial rest"
  using assms lead_mods(2) [of q2] lead_mods(4) [of q1] lead_mods(4) [of q0]
  by (auto simp: utf8_initial_def Let_def utf8_decoder.simps)

lemma decode4:
  assumes "q3 < 5" "q2 < 64" "q1 < 64" "q0 < 64" "q3 = 0 \<longrightarrow> 16 \<le> q2" "q3 = 4 \<longrightarrow> q2 < 16"
  shows "utf8_decoder utf8_initial ([0xF0 + q3, 0x80 + q2, 0x80 + q1, 0x80 + q0] @ rest) =
     (((q3 * 64 + q2) * 64 + q1) * 64 + q0) # utf8_decoder utf8_initial rest"
  using assms lead_mods(3) [of q3] lead_mods(4) [of q2] lead_mods(4) [of q1] lead_mods(4) [of q0]
  by (auto simp: utf8_initial_def Let_def utf8_decoder.simps)


lemma decode_encode:
  assumes "scalar c"
  shows "utf8_decoder utf8_initial (utf8_encode c @ rest) = c # utf8_decoder utf8_initial rest"
proof -
  define d1 where "d1 = c div 64"
  define d2 where "d2 = d1 div 64"
  define d3 where "d3 = d2 div 64"
  define q0 where "q0 = c mod 64"
  define q1 where "q1 = d1 mod 64"
  define q2 where "q2 = d2 mod 64"
  have e0: "c = d1 * 64 + q0" by (simp add: d1_def q0_def)
  have e1: "d1 = d2 * 64 + q1" by (simp add: d2_def q1_def)
  have e2: "d2 = d3 * 64 + q2" by (simp add: d3_def q2_def)
  have b: "q0 < 64" "q1 < 64" "q2 < 64" by (simp_all add: q0_def q1_def q2_def)
  have c4096: "c div 4096 = d2"
    using div_mult2_eq [of c 64 64] by (simp add: d1_def d2_def)
  have c262144: "c div 262144 = d3"
    using div_mult2_eq [of c 4096 64] by (simp add: c4096 d3_def)
  from assms have c: "c < 1114112" "c < 55296 \<or> 57343 < c"
    by (auto simp: scalar_def is_high_surrogate_def is_low_surrogate_def)
  consider "c < 128" | "128 \<le> c" "c < 2048" | "2048 \<le> c" "c < 65536" | "65536 \<le> c"
    by linarith
  then show ?thesis
  proof cases
    case 1
    then show ?thesis by (simp add: utf8_encode_def decode1)
  next
    case 2
    then have enc: "utf8_encode c = [0xC0 + d1, 0x80 + q0]"
      by (simp add: utf8_encode_def d1_def q0_def)
    have "2 \<le> d1" "d1 < 32" using 2 e0 b by linarith+
    from decode2 [OF this b(1), of rest] show ?thesis
      by (simp add: enc e0 [symmetric])
  next
    case 3
    then have enc: "utf8_encode c = [0xE0 + d2, 0x80 + q1, 0x80 + q0]"
      by (simp add: utf8_encode_def c4096 q1_def d1_def q0_def)
    have "d2 < 16" "d2 = 0 \<longrightarrow> 32 \<le> q1" "d2 = 13 \<longrightarrow> q1 < 32"
      using 3 c e0 e1 b by auto
    from decode3 [OF this(1) b(2) b(1) this(2,3), of rest] show ?thesis
      by (simp add: enc e0 [symmetric] e1 [symmetric])
  next
    case 4
    then have enc: "utf8_encode c = [0xF0 + d3, 0x80 + q2, 0x80 + q1, 0x80 + q0]"
      by (simp add: utf8_encode_def c262144 c4096 q2_def q1_def d1_def q0_def)
    have "d3 < 5" "d3 = 0 \<longrightarrow> 16 \<le> q2" "d3 = 4 \<longrightarrow> q2 < 16"
      using 4 c e0 e1 e2 b by auto
    from decode4 [OF this(1) b(3) b(2) b(1) this(2,3), of rest] show ?thesis
      by (simp add: enc e0 [symmetric] e1 [symmetric] e2 [symmetric])
  qed
qed


lemma decoder_Nil: "utf8_decoder utf8_initial [] = []"
  by (simp add: utf8_decoder.simps utf8_initial_def)

lemma decode_encode_all:
  "\<forall>c \<in> set cs. scalar c \<Longrightarrow>
     utf8_decoder utf8_initial (concat (map utf8_encode cs)) = cs"
  by (induction cs) (simp_all add: decoder_Nil decode_encode)

lemma pair_scalar:
  assumes "is_high_surrogate u" "is_low_surrogate v"
  shows "scalar (0x10000 + (u - 0xD800) * 0x400 + (v - 0xDC00))"
    and "utf16_units (0x10000 + (u - 0xD800) * 0x400 + (v - 0xDC00)) = [u, v]"
    and "0x10000 + (u - 0xD800) * 0x400 + (v - 0xDC00) \<noteq> 0xFEFF"
proof -
  define h where "h = u - 0xD800"
  define l where "l = v - 0xDC00"
  from assms have h: "h < 1024" "u = 55296 + h" and l: "l < 1024" "v = 56320 + l"
    by (auto simp: h_def l_def is_high_surrogate_def is_low_surrogate_def)
  have v: "0x10000 + (u - 0xD800) * 0x400 + (v - 0xDC00) = 65536 + h * 1024 + l"
    by (simp add: h l)
  have "65536 + h * 1024 + l < 1114112" using h l by linarith
  moreover have "57343 < 65536 + h * 1024 + l" by linarith
  ultimately show "scalar (0x10000 + (u - 0xD800) * 0x400 + (v - 0xDC00))"
    by (simp add: v scalar_def is_high_surrogate_def is_low_surrogate_def)
  have "(h * 1024 + l) div 1024 = h" "(h * 1024 + l) mod 1024 = l" using l(1) by simp_all
  then show "utf16_units (0x10000 + (u - 0xD800) * 0x400 + (v - 0xDC00)) = [u, v]"
    by (simp add: v utf16_units_def h l)
  show "0x10000 + (u - 0xD800) * 0x400 + (v - 0xDC00) \<noteq> 0xFEFF"
    by (simp add: v)
qed

lemma unit_scalar:
  assumes "u < 65536" "\<not> is_high_surrogate u" "\<not> is_low_surrogate u"
  shows "scalar u" and "utf16_units u = [u]"
  using assms by (simp_all add: scalar_def utf16_units_def)

lemma replacement_scalar: "scalar 0xFFFD"
  by (simp add: scalar_def is_high_surrogate_def is_low_surrogate_def)

lemma scalar_values_scalar:
  "\<forall>u \<in> set us. u < 65536 \<Longrightarrow> \<forall>c \<in> set (scalar_values us). scalar c"
  by (induction us rule: scalar_values.induct)
    (auto simp: pair_scalar(1) unit_scalar(1) replacement_scalar)

lemma utf16_scalar_values:
  "\<forall>u \<in> set us. u < 65536 \<Longrightarrow> well_formed us \<Longrightarrow>
     concat (map utf16_units (scalar_values us)) = us"
  by (induction us rule: scalar_values.induct)
    (auto simp: pair_scalar(2) unit_scalar(2))

lemma scalar_values_Nil: "scalar_values us = [] \<longleftrightarrow> us = []"
  by (induction us rule: scalar_values.induct) auto

lemma hd_scalar_values:
  "us \<noteq> [] \<Longrightarrow> well_formed us \<Longrightarrow> hd us \<noteq> 0xFEFF \<Longrightarrow> hd (scalar_values us) \<noteq> 0xFEFF"
  by (induction us rule: scalar_values.induct) (auto simp: pair_scalar(3))

lemma strip_BOM_scalar_values:
  assumes "well_formed us" "us = [] \<or> hd us \<noteq> 0xFEFF"
  shows "strip_BOM (scalar_values us) = scalar_values us"
proof (cases "us = []")
  case True
  then show ?thesis by (simp add: strip_BOM_def)
next
  case False
  with assms have "hd (scalar_values us) \<noteq> 0xFEFF" by (simp add: hd_scalar_values)
  moreover have "scalar_values us \<noteq> []" using False by (simp add: scalar_values_Nil)
  ultimately show ?thesis by (cases "scalar_values us") (simp_all add: strip_BOM_def)
qed

lemma utf8_encode_bytes: "scalar c \<Longrightarrow> \<forall>b \<in> set (utf8_encode c). b < 256"
proof -
  assume "scalar c"
  then have c: "c < 1114112" by (simp add: scalar_def)
  have m: "c mod 64 < 64" "c div 64 mod 64 < 64" "c div 4096 mod 64 < 64" by simp_all
  have "c < 2048 \<Longrightarrow> c div 64 < 32" "c < 65536 \<Longrightarrow> c div 4096 < 16" "c div 262144 < 5"
    using c by simp_all
  with m show ?thesis
    by (auto simp: utf8_encode_def)
qed


lemma unat_unit_less: "unat (u :: 16 word) < 65536"
  using unsigned_less [of u] by simp

lemma map_unat_of_nat_bytes:
  "\<forall>b \<in> set bs. b < 256 \<Longrightarrow> map unat (map of_nat bs :: byte list) = bs"
  by (induction bs) (simp_all add: unat_of_nat)

lemma TextDecoder_TextEncoder:
  assumes wf: "well_formed (map unat s)" and bom: "s = [] \<or> hd s \<noteq> 0xFEFF"
  shows "TextDecoder_decode (TextEncoder_encode s) = s"
proof -
  let ?us = "map unat s"
  let ?cs = "scalar_values ?us"
  have us: "\<forall>u \<in> set ?us. u < 65536" by (auto simp: unat_unit_less)
  then have cs: "\<forall>c \<in> set ?cs. scalar c" by (rule scalar_values_scalar)
  then have "\<forall>b \<in> set (concat (map utf8_encode ?cs)). b < 256"
    using utf8_encode_bytes by auto
  then have bytes: "map unat (TextEncoder_encode s) = concat (map utf8_encode ?cs)"
    unfolding TextEncoder_encode_def by (rule map_unat_of_nat_bytes)
  have "?us = [] \<or> hd ?us \<noteq> 0xFEFF"
  proof (cases s)
    case Nil
    then show ?thesis by simp
  next
    case (Cons u rest)
    with bom have "u \<noteq> 0xFEFF" by simp
    then have "unat u \<noteq> 0xFEFF"
      using word_unat_eq_iff [of u "0xFEFF"] by simp
    with Cons show ?thesis by simp
  qed
  with wf have "strip_BOM ?cs = ?cs" by (rule strip_BOM_scalar_values)
  then have "TextDecoder_decode (TextEncoder_encode s) = map of_nat (concat (map utf16_units ?cs))"
    by (simp add: TextDecoder_decode_def bytes decode_encode_all [OF cs])
  also have "\<dots> = map of_nat ?us" by (simp add: utf16_scalar_values [OF us wf])
  also have "\<dots> = s" by (simp add: comp_def)
  finally show ?thesis .
qed

subsection \<open>Encryption round trip\<close>

lemma decrypt_encrypt_text:
  assumes "cipher_correct C" and "encrypt C rnd plaintext password = Inr secret"
  shows "decrypt C (encrypted secret) (salt secret) (iv secret) password =
     Inr (TextDecoder_decode (TextEncoder_encode plaintext))"
proof -
  obtain salt_bytes rnd' where s: "getRandomBytes 32 rnd = (salt_bytes, rnd')"
    by (cases "getRandomBytes 32 rnd")
  obtain iv_bytes rnd'' where i: "getRandomBytes 12 rnd' = (iv_bytes, rnd'')"
    by (cases "getRandomBytes 12 rnd'")
  let ?key = "deriveKey C password salt_bytes"
  from assms(2) obtain c where
    c: "AES_GCM_encrypt C ?key iv_bytes (TextEncoder_encode plaintext) = Inr c"
    and secret: "secret = \<lparr>encrypted = arrayBufferToBase64 c,
        salt = arrayBufferToBase64 salt_bytes, iv = arrayBufferToBase64 iv_bytes\<rparr>"
    by (auto simp: encrypt_def s i Let_def split: sum.splits)
  from assms(1) c have "AES_GCM_decrypt C ?key iv_bytes c = Inr (TextEncoder_encode plaintext)"
    by (simp add: cipher_correct_def)
  then show ?thesis
    by (simp add: decrypt_def decrypt_try_def secret base64ToArrayBuffer_arrayBufferToBase64)
qed

lemma decrypt_encrypt:
  assumes "cipher_correct C" and "encrypt C rnd plaintext password = Inr secret"
    and "well_formed (map unat plaintext)" and "plaintext = [] \<or> hd plaintext \<noteq> 0xFEFF"
  shows "decrypt C (encrypted secret) (salt secret) (iv secret) password = Inr plaintext"
  using decrypt_encrypt_text [OF assms(1,2)] TextDecoder_TextEncoder [OF assms(3,4)] by simp

lemma copy_cipher_correct: "cipher_correct copy_cipher"
  by (simp add: cipher_correct_def copy_cipher_def)

lemma encrypt_copy_cipher:
  "\<exists>secret. encrypt copy_cipher rnd plaintext password = Inr secret"
  by (simp add: encrypt_def copy_cipher_def Let_def split: prod.splits)

lemma BOM_lost: "TextDecoder_decode (TextEncoder_encode [0xFEFF]) = []"
  by (simp add: TextEncoder_encode_def TextDecoder_decode_def utf8_encode_def
      is_high_surrogate_def is_low_surrogate_def utf8_decoder.simps utf8_initial_def
      strip_BOM_def Let_def)

lemma lone_surrogate_replaced: "TextDecoder_decode (TextEncoder_encode [0xD800]) = [0xFFFD]"
  by (simp add: TextEncoder_encode_def TextDecoder_decode_def utf8_encode_def
      is_high_surrogate_def is_low_surrogate_def utf8_decoder.simps utf8_initial_def
      strip_BOM_def utf16_units_def Let_def)

subsection \<open>Key derivation and decryption errors\<close>

lemma hmac_block_key_NUL:
  "length K < 64 \<Longrightarrow> hmac_block_key H (K @ [0]) = hmac_block_key H K"
proof -
  assume "length K < 64"
  then have "replicate (64 - length K) (0 :: byte) = 0 # replicate (64 - Suc (length K)) 0"
    by (cases "64 - length K") simp_all
  with \<open>length K < 64\<close> show ?thesis by (simp add: hmac_block_key_def)
qed

lemma HMAC_NUL: "length K < 64 \<Longrightarrow> HMAC H (K @ [0]) = HMAC H K"
  by (rule ext) (simp add: HMAC_def hmac_block_key_NUL)

lemma PBKDF2_NUL:
  "length P < 64 \<Longrightarrow> PBKDF2 H (P @ [0]) S c dkLen = PBKDF2 H P S c dkLen"
  by (simp add: PBKDF2_def HMAC_NUL)

lemma scalar_values_NUL: "scalar_values (us @ [0]) = scalar_values us @ [0]"
  by (induction us rule: scalar_values.induct)
    (simp_all add: is_high_surrogate_def is_low_surrogate_def)

lemma TextEncoder_encode_NUL: "TextEncoder_encode (s @ [0]) = TextEncoder_encode s @ [0]"
  by (simp add: TextEncoder_encode_def scalar_values_NUL utf8_encode_def)

lemma deriveKey_NUL:
  "length (TextEncoder_encode password) < 64 \<Longrightarrow>
     deriveKey C (password @ [0]) salt_bytes = deriveKey C password salt_bytes"
  by (simp add: deriveKey_def TextEncoder_encode_NUL PBKDF2_NUL)

lemma decrypt_NUL:
  "length (TextEncoder_encode password) < 64 \<Longrightarrow>
     decrypt C encryptedBase64 saltBase64 ivBase64 (password @ [0]) =
     decrypt C encryptedBase64 saltBase64 ivBase64 password"
  by (simp add: decrypt_def decrypt_try_def deriveKey_NUL cong: sum.case_cong)

lemma decrypt_error:
  "decrypt C e s i password = Inl err \<Longrightarrow>
     err = Error ''Decryption failed - incorrect password or corrupted data''"
  by (auto simp: decrypt_def split: sum.splits)

lemma decrypt_rejected:
  assumes "base64ToArrayBuffer s = Inr salt_bytes" "base64ToArrayBuffer i = Inr iv_bytes"
    "base64ToArrayBuffer e = Inr encrypted_bytes"
    "AES_GCM_decrypt C (deriveKey C password salt_bytes) iv_bytes encrypted_bytes = Inl err"
  shows "decrypt C e s i password =
     Inl (Error ''Decryption failed - incorrect password or corrupted data'')"
  using assms by (simp add: decrypt_def decrypt_try_def)

lemma decrypt_malformed:
  assumes "base64ToArrayBuffer s = Inl err \<or> base64ToArrayBuffer i = Inl err
    \<or> base64ToArrayBuffer e = Inl err"
  shows "decrypt C e s i password =
     Inl (Error ''Decryption failed - incorrect password or corrupted data'')"
  using assms by (auto simp: decrypt_def decrypt_try_def split: sum.splits)

lemma atob_bang: "base64ToArrayBuffer ''!'' = Inl (Error ''The string to be decoded is not correctly encoded.'')"
  by (simp add: base64ToArrayBuffer_def atob_def remove_padding_def ascii_whitespace_def)

subsection \<open>Loading the wallet and the boolean predicates\<close>

lemma loadWallet_decrypt_fails:
  assumes "local_get st = Inr result" "dinari_wallet result = Some walletData"
    "decrypt C (encrypted_data walletData) (salt' walletData) (iv' walletData) password = Inl e"
  shows "loadWallet C JSON_parse st password =
     Inl (Error (''Failed to load wallet: '' @ message e))"
  using assms by (simp add: loadWallet_def loadWallet_try_def)

lemma decrypt_corrupt:
  "decrypt C ''!'' ''AAAA'' ''AAAA'' password =
     Inl (Error ''Decryption failed - incorrect password or corrupted data'')"
  using decrypt_malformed [of "''AAAA''" _ "''AAAA''" "''!''" C password] atob_bang by blast

lemma verifyPassword_cases:
  "verifyPassword C st password =
     Inr (case local_get st of
            Inl e \<Rightarrow> False
          | Inr result \<Rightarrow>
              (case dinari_wallet result of
                 None \<Rightarrow> False
               | Some w \<Rightarrow>
                   (case decrypt C (encrypted_data w) (salt' w) (iv' w) password of
                      Inl e \<Rightarrow> False
                    | Inr plaintext \<Rightarrow> True)))"
  by (simp add: verifyPassword_def verifyPassword_try_def split: sum.splits option.splits)

lemma validateAddress_total: "\<exists>b. validateAddress J a = Inr b"
  by (cases "validateAddress_try J a") (auto simp: validateAddress_def)

lemma validateAddress_false:
  "\<not> startsWith a ''D'' \<Longrightarrow> validateAddress J a = Inr False"
  "base58Decode a = Inl e \<Longrightarrow> validateAddress J a = Inr False"
  "base58Decode a = Inr decoded \<Longrightarrow> length decoded \<noteq> 25 \<Longrightarrow> validateAddress J a = Inr False"
  "base58Decode a = Inr decoded \<Longrightarrow> index decoded 0 \<noteq> Some ADDRESS_VERSION \<Longrightarrow>
     validateAddress J a = Inr False"
  "base58Decode a = Inr decoded \<Longrightarrow>
     \<not> compare_checksums (slice_arr 21 25 decoded)
          (slice_arr 0 4 (sha256Sync J (sha256Sync J (slice_arr 0 21 decoded)))) \<Longrightarrow>
     validateAddress J a = Inr False"
  by (simp_all add: validateAddress_def validateAddress_try_def Let_def)

lemma base58_digits_bad:
  "c \<in> set a \<Longrightarrow> c \<notin> set ALPHABET \<Longrightarrow> \<exists>e. base58_digits a num = Inl e"
proof (induction a arbitrary: num)
  case Nil
  then show ?case by simp
next
  case (Cons x xs)
  have none: "\<And>s c. c \<notin> set s \<Longrightarrow> indexOf s c = None"
  proof -
    fix s :: string and c
    show "c \<notin> set s \<Longrightarrow> indexOf s c = None" by (induction s) auto
  qed
  show ?case
  proof (cases "indexOf ALPHABET x")
    case None
    then show ?thesis by simp
  next
    case (Some d)
    with Cons.prems none [of x ALPHABET] have "c \<in> set xs" by auto
    from Cons.IH [OF this Cons.prems(2)] Some show ?thesis by simp
  qed
qed

lemma base58Decode_bad:
  "c \<in> set a \<Longrightarrow> c \<notin> set ALPHABET \<Longrightarrow> \<exists>e. base58Decode a = Inl e"
  using base58_digits_bad [of c a 0] by (auto simp: base58Decode_def)

section \<open>Session guard\<close>

lemma bit_length_le: "(bit_length n \<le> k) = (n < 2 ^ k)"
proof (induction k arbitrary: n)
  case 0
  show ?case by (subst bit_length.simps) simp
next
  case (Suc k)
  have "(n div 2 < 2 ^ k) = (n < 2 ^ Suc k)" by auto
  with Suc [of "n div 2"] show ?case by (subst bit_length.simps) simp
qed

lemma js_round_integer:
  assumes "\<bar>m\<bar> < 2 ^ 53"
  shows "js_round m 0 = Finite m 0"
proof -
  from assms have "nat \<bar>m\<bar> < 2 ^ 53" by simp
  then have "bit_length (nat \<bar>m\<bar>) \<le> 53" by (simp only: bit_length_le)
  then have s: "max (int (bit_length (nat \<bar>m\<bar>)) - 53) (- 1074 - 0) \<le> 0" by simp
  have "\<bar>m\<bar> < 2 ^ 1024" using assms by simp
  then show ?thesis using s by (simp add: js_round_def Let_def)
qed

lemma js_mul_integer:
  "\<bar>a * b\<bar> < 2 ^ 53 \<Longrightarrow> js_mul (Finite a 0) (Finite b 0) = Finite (a * b) 0"
  by (simp add: js_round_integer)

lemma js_sub_integer:
  "\<bar>a - b\<bar> < 2 ^ 53 \<Longrightarrow> js_sub (Finite a 0) (Finite b 0) = Finite (a - b) 0"
  by (simp add: js_round_integer)

lemma js_lt_integer: "js_lt (Finite a 0) (Finite b 0) = (a < b)"
  by simp

lemma getSession_session_store:
  "getSession (session_store u t m) = \<lparr>unlocked = u, last_activity = t\<rparr>"
  by (simp add: getSession_def session_store_def)

lemma getSettings_session_store:
  "auto_lock_minutes (getSettings (session_store u t m)) = m"
  by (simp add: getSettings_def session_store_def)

lemma isSessionValid_integers:
  assumes "\<bar>m\<bar> * 60000 < 2 ^ 53" "\<bar>n - t\<bar> < 2 ^ 53"
  shows "isSessionValid (session_store u (Finite t 0) (Finite m 0)) (Finite n 0)
     = (u \<and> n - t < m * 60000)"
proof -
  have a: "\<bar>m * 60\<bar> < 2 ^ 53" "\<bar>m * 60 * 1000\<bar> < 2 ^ 53"
    using assms(1) by (simp_all add: abs_mult)
  have f1: "js_mul (js_mul (Finite m 0) (Finite 60 0)) (Finite 1000 0) = Finite (m * 60 * 1000) 0"
    using a by (simp only: js_mul_integer)
  have f2: "js_sub (Finite n 0) (Finite t 0) = Finite (n - t) 0"
    using assms(2) by (rule js_sub_integer)
  have "isSessionValid (session_store u (Finite t 0) (Finite m 0)) (Finite n 0)
      = (u \<and> js_lt (js_sub (Finite n 0) (Finite t 0))
                  (js_mul (js_mul (Finite m 0) (Finite 60 0)) (Finite 1000 0)))"
    by (simp add: isSessionValid_def Let_def getSession_session_store
        getSettings_session_store del: js_mul.simps js_sub.simps js_lt.simps)
  also have "\<dots> = (u \<and> js_lt (Finite (n - t) 0) (Finite (m * 60 * 1000) 0))"
    by (simp only: f1 f2)
  also have "\<dots> = (u \<and> n - t < m * 60000)" by (simp add: mult.commute)
  finally show ?thesis .
qed

text \<open>The auto-lock time of two fractional settings, in the code and as one product.\<close>

lemmas number_eval = js_round_def bit_length.simps round_half_even_def Let_def

lemma autoLockMs_0_017:
  "js_mul (js_mul minutes_0_017 (Finite 60 0)) (Finite 1000 0) = Finite 8972014882652160 (- 43)"
  by (simp add: minutes_0_017_def number_eval)

lemma product_0_017:
  "js_mul minutes_0_017 (Finite 60000 0) = Finite 8972014882652161 (- 43)"
  by (simp add: minutes_0_017_def number_eval)

lemma autoLockMs_0_13:
  "js_mul (js_mul minutes_0_13 (Finite 60 0)) (Finite 1000 0) = Finite 8576190696652801 (- 40)"
  by (simp add: minutes_0_13_def number_eval)

lemma product_0_13:
  "js_mul minutes_0_13 (Finite 60000 0) = Finite 8576190696652800 (- 40)"
  by (simp add: minutes_0_13_def number_eval)

lemma elapsed_1020:
  "js_sub (Finite 1700000001020 0) (Finite 1700000000000 0) = Finite 1020 0"
  by (simp add: js_round_integer)

lemma elapsed_7800:
  "js_sub (Finite 1700000007800 0) (Finite 1700000000000 0) = Finite 7800 0"
  by (simp add: js_round_integer)

lemma isSessionValid_unfold:
  "isSessionValid st now =
     (unlocked (getSession st) \<and>
      js_lt (js_sub now (last_activity (getSession st)))
        (js_mul (js_mul (auto_lock_minutes (getSettings st)) (Finite 60 0)) (Finite 1000 0)))"
  by (simp add: isSessionValid_def Let_def del: js_mul.simps js_sub.simps js_lt.simps)

text \<open>
  Claim C5, as amended. The session is valid exactly when it is unlocked and
  \<open>now - last_activity < auto_lock_minutes * 60 * 1000\<close> in JavaScript number arithmetic,
  where the subtraction and each of the two products is rounded to a double, for every
  store, setting and current time. For integer times and an integer setting \<open>m\<close> with
  \<open>\<bar>m\<bar> * 60000 < 2 ^ 53\<close> and \<open>\<bar>now - last_activity\<bar> < 2 ^ 53\<close> nothing is rounded and
  the session is valid exactly when it is unlocked and \<open>now - last_activity < m * 60000\<close>.
  With \<open>auto_lock_minutes = 5\<close>, a session last active \<open>5 * 60 * 1000 + 1\<close> ms ago is
  invalid and one last active \<open>4 * 60 * 1000\<close> ms ago is valid; a session that is not
  unlocked is invalid whatever its last activity, the setting and the time.
\<close>

theorem isSessionValid_timeout_rule:
  "isSessionValid st now =
     (unlocked (getSession st) \<and>
      js_lt (js_sub now (last_activity (getSession st)))
        (js_mul (js_mul (auto_lock_minutes (getSettings st)) (Finite 60 0)) (Finite 1000 0)))
   \<and> (\<bar>m\<bar> * 60000 < 2 ^ 53 \<and> \<bar>n - t\<bar> < 2 ^ 53 \<longrightarrow>
        isSessionValid (session_store u (Finite t 0) (Finite m 0)) (Finite n 0)
          = (u \<and> n - t < m * 60000))
   \<and> \<not> isSessionValid (session_store True (Finite (n - 5 * 60 * 1000 - 1) 0) (Finite 5 0))
         (Finite n 0)
   \<and> isSessionValid (session_store True (Finite (n - 4 * 60 * 1000) 0) (Finite 5 0))
         (Finite n 0)
   \<and> \<not> isSessionValid (session_store False t' m') now"
proof (intro conjI impI)
  show "isSessionValid st now =
     (unlocked (getSession st) \<and>
      js_lt (js_sub now (last_activity (getSession st)))
        (js_mul (js_mul (auto_lock_minutes (getSettings st)) (Finite 60 0)) (Finite 1000 0)))"
    by (rule isSessionValid_unfold)
next
  assume "\<bar>m\<bar> * 60000 < 2 ^ 53 \<and> \<bar>n - t\<bar> < 2 ^ 53"
  then show "isSessionValid (session_store u (Finite t 0) (Finite m 0)) (Finite n 0)
      = (u \<and> n - t < m * 60000)"
    by (intro isSessionValid_integers) simp_all
next
  show "\<not> isSessionValid (session_store True (Finite (n - 5 * 60 * 1000 - 1) 0) (Finite 5 0))
         (Finite n 0)"
    by (subst isSessionValid_integers) simp_all
next
  show "isSessionValid (session_store True (Finite (n - 4 * 60 * 1000) 0) (Finite 5 0))
         (Finite n 0)"
    by (subst isSessionValid_integers) simp_all
next
  show "\<not> isSessionValid (session_store False t' m') now"
    by (simp add: isSessionValid_def getSession_session_store)
qed

theorem isSessionValid_timeout_rule_witness:
  "isSessionValid (session_store True (Finite 1699999760000 0) (Finite 5 0))
     (Finite 1700000000000 0)
   \<and> \<not> isSessionValid (session_store True (Finite 1699999699999 0) (Finite 5 0))
         (Finite 1700000000000 0)
   \<and> \<not> isSessionValid (session_store True (Finite 1700000000000 0) (Finite 0 0))
         (Finite 1700000000000 0)"
proof -
  have a: "\<bar>5 :: int\<bar> * 60000 < 2 ^ 53 \<and> \<bar>1700000000000 - 1699999760000 :: int\<bar> < 2 ^ 53"
    by simp
  have b: "\<bar>5 :: int\<bar> * 60000 < 2 ^ 53 \<and> \<bar>1700000000000 - 1699999699999 :: int\<bar> < 2 ^ 53"
    by simp
  have c: "\<bar>0 :: int\<bar> * 60000 < 2 ^ 53 \<and> \<bar>1700000000000 - 1700000000000 :: int\<bar> < 2 ^ 53"
    by simp
  from isSessionValid_timeout_rule
      [where m = 5 and n = 1700000000000 and t = 1699999760000 and u = True] a
  have "isSessionValid (session_store True (Finite 1699999760000 0) (Finite 5 0))
      (Finite 1700000000000 0) = (True \<and> (1700000000000 - 1699999760000 :: int) < 5 * 60000)"
    by blast
  moreover from isSessionValid_timeout_rule
      [where m = 5 and n = 1700000000000 and t = 1699999699999 and u = True] b
  have "isSessionValid (session_store True (Finite 1699999699999 0) (Finite 5 0))
      (Finite 1700000000000 0) = (True \<and> (1700000000000 - 1699999699999 :: int) < 5 * 60000)"
    by blast
  moreover from isSessionValid_timeout_rule
      [where m = 0 and n = 1700000000000 and t = 1700000000000 and u = True] c
  have "isSessionValid (session_store True (Finite 1700000000000 0) (Finite 0 0))
      (Finite 1700000000000 0) = (True \<and> (1700000000000 - 1700000000000 :: int) < 0 * 60000)"
    by blast
  ultimately show ?thesis by simp
qed

text \<open>
  The claim as stated fails for a fractional setting. With \<open>auto_lock_minutes = 0.017\<close>
  and a session last active 1020 ms ago, \<open>0.017 * 60\<close> rounds to \<open>1.02\<close> and
  \<open>1.02 * 1000\<close> to \<open>1020\<close>, so the code finds the session invalid, while
  \<open>0.017 * 60000\<close> exceeds \<open>1020\<close> both exactly and as one rounded product. With
  \<open>auto_lock_minutes = 0.13\<close> and a session last active 7800 ms ago the code finds the
  session valid, while the one rounded product \<open>0.13 * 60000\<close> is \<open>7800\<close>.
\<close>

theorem fractional_minutes_rounded_twice:
  "\<not> isSessionValid (session_store True (Finite 1700000000000 0) minutes_0_017)
       (Finite 1700000001020 0)
   \<and> spec_isValid True 1700000001020 1700000000000 minutes_0_017
   \<and> js_lt (js_sub (Finite 1700000001020 0) (Finite 1700000000000 0))
        (js_mul minutes_0_017 (Finite 60000 0))
   \<and> isSessionValid (session_store True (Finite 1700000000000 0) minutes_0_13)
        (Finite 1700000007800 0)
   \<and> \<not> js_lt (js_sub (Finite 1700000007800 0) (Finite 1700000000000 0))
          (js_mul minutes_0_13 (Finite 60000 0))"
proof -
  have "\<not> isSessionValid (session_store True (Finite 1700000000000 0) minutes_0_017)
       (Finite 1700000001020 0)"
    by (simp only: isSessionValid_unfold getSession_session_store getSettings_session_store
        session.simps autoLockMs_0_017 elapsed_1020) simp
  moreover have "spec_isValid True 1700000001020 1700000000000 minutes_0_017"
    by (simp add: minutes_0_017_def)
  moreover have "js_lt (js_sub (Finite 1700000001020 0) (Finite 1700000000000 0))
        (js_mul minutes_0_017 (Finite 60000 0))"
    by (simp only: product_0_017 elapsed_1020) simp
  moreover have "isSessionValid (session_store True (Finite 1700000000000 0) minutes_0_13)
        (Finite 1700000007800 0)"
    by (simp only: isSessionValid_unfold getSession_session_store getSettings_session_store
        session.simps autoLockMs_0_13 elapsed_7800) simp
  moreover have "\<not> js_lt (js_sub (Finite 1700000007800 0) (Finite 1700000000000 0))
          (js_mul minutes_0_13 (Finite 60000 0))"
    by (simp only: product_0_13 elapsed_7800) simp
  ultimately show ?thesis by blast
qed

subsection \<open>SHA-256 on concrete messages\<close>

text \<open>
  The rounds of a block are evaluated sixteen at a time. The first message is the test
  vector \<open>abc\<close> of FIPS 180-4.
\<close>

lemmas sha_round_defs = Sigma0_def Sigma1_def sigma0_def sigma1_def Ch_def Maj_def rotr_def Let_def

lemma replicate_numeral: "replicate (numeral k) x = x # replicate (pred_numeral k) x"
  by (simp add: numeral_eq_Suc)

lemma K256_chunks:
  "K256 =
     [1116352408, 1899447441, 3049323471, 3921009573, 961987163, 1508970993, 2453635748,
      2870763221, 3624381080, 310598401, 607225278, 1426881987, 1925078388, 2162078206,
      2614888103, 3248222580] @
     [3835390401, 4022224774, 264347078, 604807628, 770255983, 1249150122, 1555081692,
      1996064986, 2554220882, 2821834349, 2952996808, 3210313671, 3336571891, 3584528711,
      113926993, 338241895] @
     [666307205, 773529912, 1294757372, 1396182291, 1695183700, 1986661051, 2177026350,
      2456956037, 2730485921, 2820302411, 3259730800, 3345764771, 3516065817, 3600352804,
      4094571909, 275423344] @
     [430227734, 506948616, 659060556, 883997877, 958139571, 1322822218, 1537002063,
      1747873779, 1955562222, 2024104815, 2227730452, 2361852424, 2428436474, 2756734187,
      3204031479, 3329325298]"
  by (simp add: K256_def)

lemma sha256_abc_b0_r0:
  "foldl sha_round
     ((1779033703, 3144134277, 1013904242, 2773480762, 1359893119, 2600822924, 528734635, 1541459225),
      [1633837952, 0, 0, 0, 0, 0, 0, 0, 0, 0, 0, 0, 0, 0, 0, 24])
     [1116352408, 1899447441, 3049323471, 3921009573, 961987163, 1508970993, 2453635748,
      2870763221, 3624381080, 310598401, 607225278, 1426881987, 1925078388, 2162078206,
      2614888103, 3248222580] =
     ((2969183118, 3227803614, 3643992854, 2274437520, 123276749, 194179596, 1952073950, 509051416),
      [1633837952, 983040, 2108187653, 1610613702, 1050508152, 25426944, 316456923,
       3806512014, 3357629466, 3073800610, 3854317833, 845560923, 2636160359, 3968280267,
       1881225380, 3552024379])"
  by (simp add: sha_round_defs)

lemma sha256_abc_b0_r1:
  "foldl sha_round
     ((2969183118, 3227803614, 3643992854, 2274437520, 123276749, 194179596, 1952073950, 509051416),
      [1633837952, 983040, 2108187653, 1610613702, 1050508152, 25426944, 316456923,
       3806512014, 3357629466, 3073800610, 3854317833, 845560923, 2636160359, 3968280267,
       1881225380, 3552024379])
     [3835390401, 4022224774, 264347078, 604807628, 770255983, 1249150122, 1555081692,
      1996064986, 2554220882, 2821834349, 2952996808, 3210313671, 3336571891, 3584528711,
      113926993, 338241895] =
     ((1941126133, 3935906338, 2684750640, 909411017, 3126399250, 17410874, 2917635127, 1628611511),
      [2482346367, 996719219, 2952069057, 4043988066, 176896406, 1924104970, 2483675966,
       610538786, 2672279444, 4037431130, 1042573945, 657669027, 206005234, 2215296807,
       2049510749, 106709978])"
  by (simp add: sha_round_defs)

lemma sha256_abc_b0_r2:
  "foldl sha_round
     ((1941126133, 3935906338, 2684750640, 909411017, 3126399250, 17410874, 2917635127, 1628611511),
      [2482346367, 996719219, 2952069057, 4043988066, 176896406, 1924104970, 2483675966,
       610538786, 2672279444, 4037431130, 1042573945, 657669027, 206005234, 2215296807,
       2049510749, 106709978])
     [666307205, 773529912, 1294757372, 1396182291, 1695183700, 1986661051, 2177026350,
      2456956037, 2730485921, 2820302411, 3259730800, 3345764771, 3516065817, 3600352804,
      4094571909, 275423344] =
     ((1098003085, 2706117808, 1923828625, 643991573, 4274981830, 3581645993, 3077922209, 2819559920),
      [4215179723, 3430291419, 3118885940, 2845390439, 2226839261, 3256115900, 344409900,
       2987358873, 4015503821, 3957764664, 2682456414, 2025622859, 2755645205, 1720397816,
       4004225740, 313650667])"
  by (simp add: sha_round_defs)

lemma sha256_abc_b0_r3:
  "foldl sha_round
     ((1098003085, 2706117808, 1923828625, 643991573, 4274981830, 3581645993, 3077922209, 2819559920),
      [4215179723, 3430291419, 3118885940, 2845390439, 2226839261, 3256115900, 344409900,
       2987358873, 4015503821, 3957764664, 2682456414, 2025622859, 2755645205, 1720397816,
       4004225740, 313650667])
     [430227734, 506948616, 659060556, 883997877, 958139571, 1322822218, 1537002063,
      1747873779, 1955562222, 2024104815, 2227730452, 2361852424, 2428436474, 2756734187,
      3204031479, 3329325298] =
     ((1349398616, 3550093669, 80891244, 3093179625, 1593118500, 4212265488, 2492278198, 2518632596),
      [3087686196, 484939733, 823116247, 2736351438, 2106384450, 3582536839, 250799243,
       2252827306, 4215000474, 3786143489, 2633077969, 1202520861, 2860590881, 70651292,
       3680168089, 3194403987])"
  by (simp add: sha_round_defs)

lemma sha256_abc_b0:
  "compress (1779033703, 3144134277, 1013904242, 2773480762, 1359893119, 2600822924, 528734635, 1541459225)
     [1633837952, 0, 0, 0, 0, 0, 0, 0, 0, 0, 0, 0, 0, 0, 0, 24] =
     (3128432319, 2399260650, 1094795486, 1571693091, 2953011619, 2518121116, 3021012833, 4060091821)"
  unfolding compress_def K256_chunks foldl_append
  by (simp only: sha256_abc_b0_r0 sha256_abc_b0_r1 sha256_abc_b0_r2 sha256_abc_b0_r3) simp

lemma sha256_abc:
  "sha256
     [97, 98, 99] =
     [186, 120, 22, 191, 143, 1, 207, 234, 65, 65, 64, 222, 93, 174, 34, 35, 176, 3, 97,
      163, 150, 23, 122, 156, 180, 16, 255, 97, 242, 0, 21, 173]"
  by (simp add: sha256_def sha_pad_def replicate_numeral sha_blocks.simps be32_def
      H256_def word_bytes_def sha256_abc_b0)

text \<open>Two 21-byte address payloads that differ in their last byte, and their digests.\<close>

lemma sha256_payload1_b0_r0:
  "foldl sha_round
     ((1779033703, 3144134277, 1013904242, 2773480762, 1359893119, 2600822924, 528734635, 1541459225),
      [512411394, 2885760974, 2927031597, 696492870, 2003679562, 2441084928, 0, 0, 0, 0, 0,
       0, 0, 0, 0, 168])
     [1116352408, 1899447441, 3049323471, 3921009573, 961987163, 1508970993, 2453635748,
      2870763221, 3624381080, 310598401, 607225278, 1426881987, 1925078388, 2162078206,
      2614888103, 3248222580] =
     ((2791879051, 3243799721, 96736225, 400540231, 2013425680, 40100440, 1766539571, 383763721),
      [3820377752, 2686161056, 4057034419, 3628193712, 624218163, 1654155101, 4061576112,
       588517790, 716075911, 2093318047, 3489379150, 894972120, 311797835, 277939643,
       3563479076, 2234835165])"
  by (simp add: sha_round_defs)

lemma sha256_payload1_b0_r1:
  "foldl sha_round
     ((2791879051, 3243799721, 96736225, 400540231, 2013425680, 40100440, 1766539571, 383763721),
      [3820377752, 2686161056, 4057034419, 3628193712, 624218163, 1654155101, 4061576112,
       588517790, 716075911, 2093318047, 3489379150, 894972120, 311797835, 277939643,
       3563479076, 2234835165])
     [3835390401, 4022224774, 264347078, 604807628, 770255983, 1249150122, 1555081692,
      1996064986, 2554220882, 2821834349, 2952996808, 3210313671, 3336571891, 3584528711,
      113926993, 338241895] =
     ((4185701751, 2431127176, 1780823783, 1014009737, 100412697, 124979377, 4204435172, 213533702),
      [235613329, 2128672369, 710365923, 2812339063, 674144294, 1984322849, 934058524,
       2921962215, 4132887098, 232042026, 3908829768, 515858037, 1066476133, 1482578195,
       3416091668, 1279441938])"
  by (simp add: sha_round_defs)

lemma sha256_payload1_b0_r2:
  "foldl sha_round
     ((4185701751, 2431127176, 1780823783, 1014009737, 100412697, 124979377, 4204435172, 213533702),
      [235613329, 2128672369, 710365923, 2812339063, 674144294, 1984322849, 934058524,
       2921962215, 4132887098, 232042026, 3908829768, 515858037, 1066476133, 1482578195,
       3416091668, 1279441938])
     [666307205, 773529912, 1294757372, 1396182291, 1695183700, 1986661051, 2177026350,
      2456956037, 2730485921, 2820302411, 3259730800, 3345764771, 3516065817, 3600352804,
      4094571909, 275423344] =
     ((1203340528, 2875476651, 4165514095, 2251342153, 2195695824, 32358162, 2067848704, 4086078994),
      [139949883, 2300315179, 1643533972, 1283521495, 1031394584, 3162767551, 271591799,
       345040474, 254805605, 1812640787, 2012396411, 3990771362, 3269717588, 3056502024,
       3977434670, 2555382534])"
  by (simp add: sha_round_defs)

lemma sha256_payload1_b0_r3:
  "foldl sha_round
     ((1203340528, 2875476651, 4165514095, 2251342153, 2195695824, 32358162, 2067848704, 4086078994),
      [139949883, 2300315179, 1643533972, 1283521495, 1031394584, 3162767551, 271591799,
       345040474, 254805605, 1812640787, 2012396411, 3990771362, 3269717588, 3056502024,
       3977434670, 2555382534])
     [430227734, 506948616, 659060556, 883997877, 958139571, 1322822218, 1537002063,
      1747873779, 1955562222, 2024104815, 2227730452, 2361852424, 2428436474, 2756734187,
      3204031479, 3329325298] =
     ((85266552, 2573331141, 3974760314, 3872540872, 2219369838, 2857113021, 62956049, 2454091441),
      [3993466234, 3073149640, 1039869441, 638138067, 1413384418, 1305275877, 3441843162,
       3092708164, 861905078, 2746886296, 2416297864, 3722515794, 313382860, 561836568,
       327153994, 3896070957])"
  by (simp add: sha_round_defs)

lemma sha256_payload1_b0:
  "compress (1779033703, 3144134277, 1013904242, 2773480762, 1359893119, 2600822924, 528734635, 1541459225)
     [512411394, 2885760974, 2927031597, 696492870, 2003679562, 2441084928, 0, 0, 0, 0, 0,
      0, 0, 0, 0, 168] =
     (1864300255, 1422498122, 693697260, 2351054338, 3579262957, 1162968649, 591690684, 3995550666)"
  unfolding compress_def K256_chunks foldl_append
  by (simp only: sha256_payload1_b0_r0 sha256_payload1_b0_r1 sha256_payload1_b0_r2 sha256_payload1_b0_r3) simp

lemma sha256_payload1:
  "sha256
     [30, 138, 199, 2, 172, 1, 55, 206, 174, 118, 245, 45, 41, 131, 163, 70, 119, 109, 185,
      74, 145] =
     [111, 30, 246, 223, 84, 201, 153, 74, 41, 88, 250, 236, 140, 34, 62, 2, 213, 87, 55,
      237, 69, 81, 126, 73, 35, 68, 123, 188, 238, 39, 67, 202]"
  by (simp add: sha256_def sha_pad_def replicate_numeral sha_blocks.simps be32_def
      H256_def word_bytes_def sha256_payload1_b0)

lemma sha256_digest1_b0_r0:
  "foldl sha_round
     ((1779033703, 3144134277, 1013904242, 2773480762, 1359893119, 2600822924, 528734635, 1541459225),
      [1864300255, 1422498122, 693697260, 2351054338, 3579262957, 1162968649, 591690684,
       3995550666, 2147483648, 0, 0, 0, 0, 0, 0, 256])
     [1116352408, 1899447441, 3049323471, 3921009573, 961987163, 1508970993, 2453635748,
      2870763221, 3624381080, 310598401, 607225278, 1426881987, 1925078388, 2162078206,
      2614888103, 3248222580] =
     ((2742871642, 2611067084, 3888870635, 2193917428, 1144380197, 2865327353, 1881606242, 2423137937),
      [1736518664, 959200840, 2014477083, 838913157, 234548195, 670125325, 2763863083,
       4124531495, 4125476812, 3202149538, 2367908292, 4192578417, 32173308, 94760655,
       569988540, 2548175394])"
  by (simp add: sha_round_defs)

lemma sha256_digest1_b0_r1:
  "foldl sha_round
     ((2742871642, 2611067084, 3888870635, 2193917428, 1144380197, 2865327353, 1881606242, 2423137937),
      [1736518664, 959200840, 2014477083, 838913157, 234548195, 670125325, 2763863083,
       4124531495, 4125476812, 3202149538, 2367908292, 4192578417, 32173308, 94760655,
       569988540, 2548175394])
     [3835390401, 4022224774, 264347078, 604807628, 770255983, 1249150122, 1555081692,
      1996064986, 2554220882, 2821834349, 2952996808, 3210313671, 3336571891, 3584528711,
      113926993, 338241895] =
     ((1813111584, 3605987091, 2430132977, 4085916560, 444391165, 3125522, 4293084651, 1841190703),
      [1065735486, 3103080230, 20231260, 3919698817, 775498506, 793344541, 1965546373,
       3192413831, 790163629, 664626331, 1931557337, 2314694427, 3524001344, 4264452820,
       880396694, 3536497925])"
  by (simp add: sha_round_defs)

lemma sha256_digest1_b0_r2:
  "foldl sha_round
     ((1813111584, 3605987091, 2430132977, 4085916560, 444391165, 3125522, 4293084651, 1841190703),
      [1065735486, 3103080230, 20231260, 3919698817, 775498506, 793344541, 1965546373,
       3192413831, 790163629, 664626331, 1931557337, 2314694427, 3524001344, 4264452820,
       880396694, 3536497925])
     [666307205, 773529912, 1294757372, 1396182291, 1695183700, 1986661051, 2177026350,
      2456956037, 2730485921, 2820302411, 3259730800, 3345764771, 3516065817, 3600352804,
      4094571909, 275423344] =
     ((2354417437, 980533302, 1047057994, 3823336941, 2558314646, 4030218623, 1140047161, 390677832),
      [1522458689, 3294714436, 2675003350, 2640550244, 466535496, 372028220, 296942264,
       1285137913, 2166624511, 2689832871, 2561748527, 3276456159, 3384374165, 2695393479,
       3545978766, 3157574600])"
  by (simp add: sha_round_defs)

lemma sha256_digest1_b0_r3:
  "foldl sha_round
     ((2354417437, 980533302, 1047057994, 3823336941, 2558314646, 4030218623, 1140047161, 390677832),
      [1522458689, 3294714436, 2675003350, 2640550244, 466535496, 372028220, 296942264,
       1285137913, 2166624511, 2689832871, 2561748527, 3276456159, 3384374165, 2695393479,
       3545978766, 3157574600])
     [430227734, 506948616, 659060556, 883997877, 958139571, 1322822218, 1537002063,
      1747873779, 1955562222, 2024104815, 2227730452, 2361852424, 2428436474, 2756734187,
      3204031479, 3329325298] =
     ((3192442399, 1438054953, 906963953, 1375094460, 2001748177, 3794135470, 642835633, 1802755633),
      [2209002975, 1139423704, 2885713672, 3846251505, 1122779960, 1812129752, 172467597,
       3932799367, 2854698536, 751454829, 247879936, 3773314176, 2764425581, 2584139072,
       3515109264, 412140832])"
  by (simp add: sha_round_defs)

lemma sha256_digest1_b0:
  "compress (1779033703, 3144134277, 1013904242, 2773480762, 1359893119, 2600822924, 528734635, 1541459225)
     [1864300255, 1422498122, 693697260, 2351054338, 3579262957, 1162968649, 591690684,
      3995550666, 2147483648, 0, 0, 0, 0, 0, 0, 256] =
     (676508806, 287221934, 1920868195, 4148575222, 3361641296, 2099991098, 1171570268, 3344214858)"
  unfolding compress_def K256_chunks foldl_append
  by (simp only: sha256_digest1_b0_r0 sha256_digest1_b0_r1 sha256_digest1_b0_r2 sha256_digest1_b0_r3) simp

lemma sha256_digest1:
  "sha256
     [111, 30, 246, 223, 84, 201, 153, 74, 41, 88, 250, 236, 140, 34, 62, 2, 213, 87, 55,
      237, 69, 81, 126, 73, 35, 68, 123, 188, 238, 39, 67, 202] =
     [40, 82, 180, 134, 17, 30, 168, 174, 114, 126, 31, 99, 247, 70, 59, 246, 200, 94, 147,
      80, 125, 43, 82, 58, 69, 212, 190, 92, 199, 84, 171, 74]"
  by (simp add: sha256_def sha_pad_def replicate_numeral sha_blocks.simps be32_def
      H256_def word_bytes_def sha256_digest1_b0)

lemma sha256_payload2_b0_r0:
  "foldl sha_round
     ((1779033703, 3144134277, 1013904242, 2773480762, 1359893119, 2600822924, 528734635, 1541459225),
      [512411394, 2885760974, 2927031597, 696492870, 2003679562, 2659188736, 0, 0, 0, 0, 0,
       0, 0, 0, 0, 168])
     [1116352408, 1899447441, 3049323471, 3921009573, 961987163, 1508970993, 2453635748,
      2870763221, 3624381080, 310598401, 607225278, 1426881987, 1925078388, 2162078206,
      2614888103, 3248222580] =
     ((2845227752, 2883698310, 4062516069, 4163905314, 1620609929, 3534953671, 3607376270, 2054361575),
      [3820377752, 2686161056, 4057034419, 3628193712, 621728627, 1872258909, 3017717306,
       588599998, 772966617, 4107370351, 3988655641, 3044410400, 915213384, 1989658574,
       2598375846, 19757180])"
  by (simp add: sha_round_defs)

lemma sha256_payload2_b0_r1:
  "foldl sha_round
     ((2845227752, 2883698310, 4062516069, 4163905314, 1620609929, 3534953671, 3607376270, 2054361575),
      [3820377752, 2686161056, 4057034419, 3628193712, 621728627, 1872258909, 3017717306,
       588599998, 772966617, 4107370351, 3988655641, 3044410400, 915213384, 1989658574,
       2598375846, 19757180])
     [3835390401, 4022224774, 264347078, 604807628, 770255983, 1249150122, 1555081692,
      1996064986, 2554220882, 2821834349, 2952996808, 3210313671, 3336571891, 3584528711,
      113926993, 338241895] =
     ((3975205553, 2034996112, 3234536341, 2266232711, 2355043561, 1535001208, 1508196984, 967600532),
      [2494851426, 3280002597, 1884567538, 3656166410, 3887949361, 2629668159, 25057117,
       1150357080, 1904301610, 3120991402, 541250201, 181447779, 1781434615, 366334963,
       455731618, 2484645021])"
  by (simp add: sha_round_defs)

lemma sha256_payload2_b0_r2:
  "foldl sha_round
     ((3975205553, 2034996112, 3234536341, 2266232711, 2355043561, 1535001208, 1508196984, 967600532),
      [2494851426, 3280002597, 1884567538, 3656166410, 3887949361, 2629668159, 25057117,
       1150357080, 1904301610, 3120991402, 541250201, 181447779, 1781434615, 366334963,
       455731618, 2484645021])
     [666307205, 773529912, 1294757372, 1396182291, 1695183700, 1986661051, 2177026350,
      2456956037, 2730485921, 2820302411, 3259730800, 3345764771, 3516065817, 3600352804,
      4094571909, 275423344] =
     ((3775825803, 712832060, 1446687480, 1999706009, 1898741374, 351702113, 1182590436, 486470058),
      [2099045679, 248701414, 2396976395, 2543605489, 2977654975, 2305100579, 1787332405,
       4125070444, 3034145873, 73051468, 1120303768, 17235891, 1980825963, 1573512305,
       3021672804, 2141618746])"
  by (simp add: sha_round_defs)

lemma sha256_payload2_b0_r3:
  "foldl sha_round
     ((3775825803, 712832060, 1446687480, 1999706009, 1898741374, 351702113, 1182590436, 486470058),
      [2099045679, 248701414, 2396976395, 2543605489, 2977654975, 2305100579, 1787332405,
       4125070444, 3034145873, 73051468, 1120303768, 17235891, 1980825963, 1573512305,
       3021672804, 2141618746])
     [430227734, 506948616, 659060556, 883997877, 958139571, 1322822218, 1537002063,
      1747873779, 1955562222, 2024104815, 2227730452, 2361852424, 2428436474, 2756734187,
      3204031479, 3329325298] =
     ((2271261678, 533490125, 1976241810, 3008007347, 2144873713, 2839494496, 3495302948, 2154827996),
      [3790198544, 2657318657, 1167647502, 2522297364, 2452841122, 7783421, 3919319496,
       2117180533, 301255728, 3994714154, 2995140843, 1004203630, 3790261305, 2383190894,
       1299539710, 3100587393])"
  by (simp add: sha_round_defs)

lemma sha256_payload2_b0:
  "compress (1779033703, 3144134277, 1013904242, 2773480762, 1359893119, 2600822924, 528734635, 1541459225)
     [512411394, 2885760974, 2927031597, 696492870, 2003679562, 2659188736, 0, 0, 0, 0, 0,
      0, 0, 0, 0, 168] =
     (4050295381, 3677624402, 2990146052, 1486520813, 3504766832, 1145350124, 4024037583, 3696287221)"
  unfolding compress_def K256_chunks foldl_append
  by (simp only: sha256_payload2_b0_r0 sha256_payload2_b0_r1 sha256_payload2_b0_r2 sha256_payload2_b0_r3) simp

lemma sha256_payload2:
  "sha256
     [30, 138, 199, 2, 172, 1, 55, 206, 174, 118, 245, 45, 41, 131, 163, 70, 119, 109, 185,
      74, 158] =
     [241, 106, 154, 85, 219, 52, 24, 82, 178, 58, 2, 4, 88, 154, 129, 237, 208, 230, 127,
      112, 68, 68, 167, 236, 239, 217, 240, 207, 220, 80, 221, 245]"
  by (simp add: sha256_def sha_pad_def replicate_numeral sha_blocks.simps be32_def
      H256_def word_bytes_def sha256_payload2_b0)

lemma sha256_digest2_b0_r0:
  "foldl sha_round
     ((1779033703, 3144134277, 1013904242, 2773480762, 1359893119, 2600822924, 528734635, 1541459225),
      [4050295381, 3677624402, 2990146052, 1486520813, 3504766832, 1145350124, 4024037583,
       3696287221, 2147483648, 0, 0, 0, 0, 0, 0, 256])
     [1116352408, 1899447441, 3049323471, 3921009573, 961987163, 1508970993, 2453635748,
      2870763221, 3624381080, 310598401, 607225278, 1426881987, 1925078388, 2162078206,
      2614888103, 3248222580] =
     ((1527315523, 1785959481, 2762742348, 1526063759, 697023956, 453584346, 686699826, 264684872),
      [2855204940, 2071343388, 3340271880, 2611947631, 460736866, 3011048290, 2764395047,
       4285646896, 4277422282, 2755280172, 1223869989, 1955664247, 4013761848, 1330496197,
       900885890, 2317406075])"
  by (simp add: sha_round_defs)

lemma sha256_digest2_b0_r1:
  "foldl sha_round
     ((1527315523, 1785959481, 2762742348, 1526063759, 697023956, 453584346, 686699826, 264684872),
      [2855204940, 2071343388, 3340271880, 2611947631, 460736866, 3011048290, 2764395047,
       4285646896, 4277422282, 2755280172, 1223869989, 1955664247, 4013761848, 1330496197,
       900885890, 2317406075])
     [3835390401, 4022224774, 264347078, 604807628, 770255983, 1249150122, 1555081692,
      1996064986, 2554220882, 2821834349, 2952996808, 3210313671, 3336571891, 3584528711,
      113926993, 338241895] =
     ((3974915658, 3752182721, 188504955, 2005965759, 2387197832, 313754955, 2028930046, 3597593641),
      [2244254472, 1812481165, 549917617, 179899038, 3325809978, 2627900670, 3406740507,
       907015885, 3074230129, 3166371468, 458084387, 2164110152, 3518588927, 604475892,
       3766852602, 2744953209])"
  by (simp add: sha_round_defs)

lemma sha256_digest2_b0_r2:
  "foldl sha_round
     ((3974915658, 3752182721, 188504955, 2005965759, 2387197832, 313754955, 2028930046, 3597593641),
      [2244254472, 1812481165, 549917617, 179899038, 3325809978, 2627900670, 3406740507,
       907015885, 3074230129, 3166371468, 458084387, 2164110152, 3518588927, 604475892,
       3766852602, 2744953209])
     [666307205, 773529912, 1294757372, 1396182291, 1695183700, 1986661051, 2177026350,
      2456956037, 2730485921, 2820302411, 3259730800, 3345764771, 3516065817, 3600352804,
      4094571909, 275423344] =
     ((150943308, 2407201185, 3872950782, 464844237, 3176069240, 2656199884, 4197224798, 1893493141),
      [3350456802, 3955637159, 2879877302, 1326852149, 2352841031, 3492361491, 1081232196,
       1849241658, 3240819903, 1471957840, 2049488791, 1988013352, 4156582314, 1993705468,
       1443325392, 4276441612])"
  by (simp add: sha_round_defs)

lemma sha256_digest2_b0_r3:
  "foldl sha_round
     ((150943308, 2407201185, 3872950782, 464844237, 3176069240, 2656199884, 4197224798, 1893493141),
      [3350456802, 3955637159, 2879877302, 1326852149, 2352841031, 3492361491, 1081232196,
       1849241658, 3240819903, 1471957840, 2049488791, 1988013352, 4156582314, 1993705468,
       1443325392, 4276441612])
     [430227734, 506948616, 659060556, 883997877, 958139571, 1322822218, 1537002063,
      1747873779, 1955562222, 2024104815, 2227730452, 2361852424, 2428436474, 2756734187,
      3204031479, 3329325298] =
     ((3192442399, 1427101636, 861645807, 2476337352, 159956257, 3078253361, 780536601, 1531879095),
      [1509852990, 225793878, 2667999442, 1189565509, 1783195652, 2035026751, 226858864,
       631681577, 8560191, 2456827140, 3545334322, 1313574077, 4198523600, 2941170539,
       190671301, 1704926659])"
  by (simp add: sha_round_defs)

lemma sha256_digest2_b0:
  "compress (1779033703, 3144134277, 1013904242, 2773480762, 1359893119, 2600822924, 528734635, 1541459225)
     [4050295381, 3677624402, 2990146052, 1486520813, 3504766832, 1145350124, 4024037583,
      3696287221, 2147483648, 0, 0, 0, 0, 0, 0, 256] =
     (676508806, 276268617, 1875550049, 954850818, 1519849376, 1384108989, 1309271236, 3073338320)"
  unfolding compress_def K256_chunks foldl_append
  by (simp only: sha256_digest2_b0_r0 sha256_digest2_b0_r1 sha256_digest2_b0_r2 sha256_digest2_b0_r3) simp

lemma sha256_digest2:
  "sha256
     [241, 106, 154, 85, 219, 52, 24, 82, 178, 58, 2, 4, 88, 154, 129, 237, 208, 230, 127,
      112, 68, 68, 167, 236, 239, 217, 240, 207, 220, 80, 221, 245] =
     [40, 82, 180, 134, 16, 119, 134, 73, 111, 202, 159, 97, 56, 233, 222, 2, 90, 151, 15,
      160, 82, 127, 211, 189, 78, 9, 228, 196, 183, 47, 107, 208]"
  by (simp add: sha256_def sha_pad_def replicate_numeral sha_blocks.simps be32_def
      H256_def word_bytes_def sha256_digest2_b0)

subsection \<open>The two colliding addresses\<close>

lemma length_word_bytes: "length (word_bytes w) = 4"
  by (simp add: word_bytes_def)

lemma length_state_bytes: "length (state_bytes s) = 32"
  by (cases s rule: state_bytes.cases) (simp add: length_word_bytes)

lemma length_sha256: "length (sha256 msg) = 32"
  by (simp add: sha256_def length_state_bytes)

lemma digits58_payload1:
  "digits58 (bytes_val
     [30, 138, 199, 2, 172, 1, 55, 206, 174, 118, 245, 45, 41, 131, 163, 70, 119, 109, 185,
      74, 145, 40, 82, 180, 134]) =
     ''DHntCDdggUsWSRPgyAShTRyEvz5vxt8d3T''"
  by (simp add: bytes_val_def digits58.simps ALPHABET_def)

lemma digits58_payload2:
  "digits58 (bytes_val
     [30, 138, 199, 2, 172, 1, 55, 206, 174, 118, 245, 45, 41, 131, 163, 70, 119, 109, 185,
      74, 158, 40, 82, 180, 134]) =
     ''DHntCDdggUsWSRPgyAShTRyEvz5xRx3Qu3''"
  by (simp add: bytes_val_def digits58.simps ALPHABET_def)

section \<open>Transaction hashing\<close>

lemma get_prop_set_prop:
  "get_prop (set_prop tx k v) k' = (if k' = k then v else get_prop tx k')"
  by (induction tx) (auto simp: get_prop_def)

lemma get_prop_permutation:
  assumes "distinct (map fst tx)" "distinct (map fst tx')" "set tx = set tx'"
  shows "get_prop tx k = get_prop tx' k"
  using map_of_inject_set [OF assms(1,2)] assms(3) by (simp add: get_prop_def)

lemma hashTransaction_signable:
  "signable tx = signable tx' \<Longrightarrow> hashTransaction J tx = hashTransaction J tx'"
  by (simp add: hashTransaction_def txData_def)

lemma signable_reads:
  assumes "get_prop tx ''from'' = get_prop tx' ''from''"
    "get_prop tx ''to'' = get_prop tx' ''to''"
    "get_prop tx ''amount'' = get_prop tx' ''amount''"
    "get_prop tx ''tokenType'' = get_prop tx' ''tokenType''"
    "logical_or (get_prop tx ''fee'') (get_prop tx ''feeDNT'')
       = logical_or (get_prop tx' ''fee'') (get_prop tx' ''feeDNT'')"
    "get_prop tx ''nonce'' = get_prop tx' ''nonce''"
  shows "signable tx = signable tx'"
  using assms by (simp add: signable_def)

lemma signable_extra_field:
  assumes "k \<notin> signable_keys"
  shows "signable (set_prop tx k v) = signable tx"
proof -
  from assms have "''from'' \<noteq> k" "''to'' \<noteq> k" "''amount'' \<noteq> k" "''tokenType'' \<noteq> k"
    "''fee'' \<noteq> k" "''feeDNT'' \<noteq> k" "''nonce'' \<noteq> k"
    by (auto simp: signable_keys_def)
  then show ?thesis by (simp add: signable_def get_prop_set_prop)
qed

lemma signable_signTransaction:
  "signTransaction E J tx privateKeyHex = Inr stx \<Longrightarrow> signable stx = signable tx"
  by (auto simp: signTransaction_def Let_def signable_def get_prop_set_prop split: sum.splits)

lemma signable_fee_field:
  assumes "truthy v" "get_prop tx ''fee'' = Undefined" "get_prop tx ''feeDNT'' = Undefined"
  shows "signable (set_prop tx ''fee'' v) = signable (set_prop tx ''feeDNT'' v)"
  using assms by (simp add: signable_def get_prop_set_prop logical_or_def)

text \<open>The bytes hashed for the two transactions with a fee of zero, and their digests in hexadecimal.\<close>

lemmas stringify_defs = txData_def signable_def get_prop_def logical_or_def
  QuoteJSONString_def quote_unit_def is_high_surrogate_def is_low_surrogate_def js_def
  Number_toString_def decimal.simps TextEncoder_encode_def utf8_encode_def

lemma txData_fee_zero:
  "TextEncoder_encode (txData tx_fee_zero) =
     [123, 34, 102, 114, 111, 109, 34, 58, 34, 97, 34, 44, 34, 116, 111, 34, 58, 34, 98,
      34, 44, 34, 97, 109, 111, 117, 110, 116, 34, 58, 49, 44, 34, 116, 111, 107, 101, 110,
      84, 121, 112, 101, 34, 58, 34, 68, 78, 84, 34, 44, 34, 110, 111, 110, 99, 101, 34,
      58, 48, 125]"
  by (simp add: tx_fee_zero_def stringify_defs)

lemma txData_feeDNT_zero:
  "TextEncoder_encode (txData tx_feeDNT_zero) =
     [123, 34, 102, 114, 111, 109, 34, 58, 34, 97, 34, 44, 34, 116, 111, 34, 58, 34, 98,
      34, 44, 34, 97, 109, 111, 117, 110, 116, 34, 58, 49, 44, 34, 116, 111, 107, 101, 110,
      84, 121, 112, 101, 34, 58, 34, 68, 78, 84, 34, 44, 34, 102, 101, 101, 34, 58, 48, 44,
      34, 110, 111, 110, 99, 101, 34, 58, 48, 125]"
  by (simp add: tx_feeDNT_zero_def stringify_defs)

lemma bytesToHex_fee_zero:
  "bytesToHex
     [164, 0, 123, 148, 55, 196, 45, 5, 242, 230, 202, 169, 48, 214, 131, 236, 247, 253,
      78, 25, 46, 233, 161, 143, 89, 183, 163, 247, 72, 157, 191, 217] =
     ''a4007b9437c42d05f2e6caa930d683ecf7fd4e192ee9a18f59b7a3f7489dbfd9''"
  by (simp add: bytesToHex_def toString16_byte HEX_DIGITS_def)

lemma bytesToHex_feeDNT_zero:
  "bytesToHex
     [40, 115, 166, 89, 222, 215, 53, 62, 61, 100, 46, 236, 35, 158, 127, 22, 204, 11, 193,
      191, 249, 181, 9, 165, 64, 224, 94, 79, 96, 29, 173, 126] =
     ''2873a659ded7353e3d642eec239e7f16cc0bc1bff9b509a540e05e4f601dad7e''"
  by (simp add: bytesToHex_def toString16_byte HEX_DIGITS_def)

text \<open>SHA-256 of the bytes hashed for the two transactions with a fee of zero.\<close>

lemma sha256_tx_fee_zero_b0_r0:
  "foldl sha_round
     ((1779033703, 3144134277, 1013904242, 2773480762, 1359893119, 2600822924, 528734635, 1541459225),
      [2065852018, 1869423162, 576791084, 578055970, 975331874, 740450669, 1869966964,
       574239020, 578056043, 1701729401, 1885676090, 574901844, 573317742, 1869505381,
       574238845, 2147483648])
     [1116352408, 1899447441, 3049323471, 3921009573, 961987163, 1508970993, 2453635748,
      2870763221, 3624381080, 310598401, 607225278, 1426881987, 1925078388, 2162078206,
      2614888103, 3248222580] =
     ((2651954546, 471301575, 1126986249, 3204306327, 3480299457, 2497008263, 2254404350, 1511284747),
      [1887984793, 4101407501, 3324777065, 2989715629, 2086689349, 3816411708, 3862082279,
       804548378, 2440742247, 409143323, 476905681, 1414001946, 2248537878, 3422093955,
       2826359382, 3732172594])"
  by (simp add: sha_round_defs)

lemma sha256_tx_fee_zero_b0_r1:
  "foldl sha_round
     ((2651954546, 471301575, 1126986249, 3204306327, 3480299457, 2497008263, 2254404350, 1511284747),
      [1887984793, 4101407501, 3324777065, 2989715629, 2086689349, 3816411708, 3862082279,
       804548378, 2440742247, 409143323, 476905681, 1414001946, 2248537878, 3422093955,
       2826359382, 3732172594])
     [3835390401, 4022224774, 264347078, 604807628, 770255983, 1249150122, 1555081692,
      1996064986, 2554220882, 2821834349, 2952996808, 3210313671, 3336571891, 3584528711,
      113926993, 338241895] =
     ((625324949, 1150394769, 2624747374, 3192326732, 1286929217, 3540900631, 2752181650, 2345619981),
      [3789308335, 2600458671, 1415047104, 3823337085, 1754104669, 3698205849, 1626229520,
       1426966644, 279382041, 2875068464, 683861803, 3339920452, 4030135834, 810429224,
       70621457, 330059184])"
  by (simp add: sha_round_defs)

lemma sha256_tx_fee_zero_b0_r2:
  "foldl sha_round
     ((625324949, 1150394769, 2624747374, 3192326732, 1286929217, 3540900631, 2752181650, 2345619981),
      [3789308335, 2600458671, 1415047104, 3823337085, 1754104669, 3698205849, 1626229520,
       1426966644, 279382041, 2875068464, 683861803, 3339920452, 4030135834, 810429224,
       70621457, 330059184])
     [666307205, 773529912, 1294757372, 1396182291, 1695183700, 1986661051, 2177026350,
      2456956037, 2730485921, 2820302411, 3259730800, 3345764771, 3516065817, 3600352804,
      4094571909, 275423344] =
     ((1912306465, 1344635686, 3892359077, 3217454289, 2381470623, 403355554, 274791259, 638091590),
      [3337085970, 3875530668, 1649041445, 3125591614, 3053301306, 1739711673, 1739113415,
       3707505431, 1633352135, 2097786451, 1599087269, 4100813822, 1235093565, 4101982195,
       393995372, 2224514507])"
  by (simp add: sha_round_defs)

lemma sha256_tx_fee_zero_b0_r3:
  "foldl sha_round
     ((1912306465, 1344635686, 3892359077, 3217454289, 2381470623, 403355554, 274791259, 638091590),
      [3337085970, 3875530668, 1649041445, 3125591614, 3053301306, 1739711673, 1739113415,
       3707505431, 1633352135, 2097786451, 1599087269, 4100813822, 1235093565, 4101982195,
       393995372, 2224514507])
     [430227734, 506948616, 659060556, 883997877, 958139571, 1322822218, 1537002063,
      1747873779, 1955562222, 2024104815, 2227730452, 2361852424, 2428436474, 2756734187,
      3204031479, 3329325298] =
     ((3091730201, 543876499, 2095857869, 3815284338, 12877822, 1375924818, 557592468, 3125376300),
      [2410226837, 2203197863, 1399197875, 1628278698, 2079266618, 2821822718, 2357739820,
       2827481025, 3490581255, 614495091, 1154452822, 2582321536, 1367107014, 2495102152,
       3711743244, 3796696263])"
  by (simp add: sha_round_defs)

lemma sha256_tx_fee_zero_b0:
  "compress (1779033703, 3144134277, 1013904242, 2773480762, 1359893119, 2600822924, 528734635, 1541459225)
     [2065852018, 1869423162, 576791084, 578055970, 975331874, 740450669, 1869966964,
      574239020, 578056043, 1701729401, 1885676090, 574901844, 573317742, 1869505381,
      574238845, 2147483648] =
     (575796608, 3688010776, 3109762111, 2293797804, 1372770941, 3976747742, 1086327103, 371868229)"
  unfolding compress_def K256_chunks foldl_append
  by (simp only: sha256_tx_fee_zero_b0_r0 sha256_tx_fee_zero_b0_r1 sha256_tx_fee_zero_b0_r2 sha256_tx_fee_zero_b0_r3) simp

lemma sha256_tx_fee_zero_b1_r0:
  "foldl sha_round
     ((575796608, 3688010776, 3109762111, 2293797804, 1372770941, 3976747742, 1086327103, 371868229),
      [0, 0, 0, 0, 0, 0, 0, 0, 0, 0, 0, 0, 0, 0, 0, 480])
     [1116352408, 1899447441, 3049323471, 3921009573, 961987163, 1508970993, 2453635748,
      2870763221, 3624381080, 310598401, 607225278, 1426881987, 1925078388, 2162078206,
      2614888103, 3248222580] =
     ((51248246, 3758277272, 1693006553, 688023409, 742796513, 2032210049, 2923364472, 1077458629),
      [0, 13369344, 0, 2147496831, 0, 535834636, 480, 503345162, 26738688, 906218716,
       2147523198, 2683837746, 2118172722, 219735012, 1450791201, 1864745719])"
  by (simp add: sha_round_defs)

lemma sha256_tx_fee_zero_b1_r1:
  "foldl sha_round
     ((51248246, 3758277272, 1693006553, 688023409, 742796513, 2032210049, 2923364472, 1077458629),
      [0, 13369344, 0, 2147496831, 0, 535834636, 480, 503345162, 26738688, 906218716,
       2147523198, 2683837746, 2118172722, 219735012, 1450791201, 1864745719])
     [3835390401, 4022224774, 264347078, 604807628, 770255983, 1249150122, 1555081692,
      1996064986, 2554220882, 2821834349, 2952996808, 3210313671, 3336571891, 3584528711,
      113926993, 338241895] =
     ((3329773697, 2250425619, 637642459, 3649039468, 291044269, 2256612670, 2017589727, 2299225213),
      [3099395254, 3658165636, 2797315907, 4052052032, 3426471652, 1341491476, 432160673,
       1286142092, 2170650716, 195275929, 3541557276, 1799962234, 3417288276, 4226767647,
       1501268232, 1923461471])"
  by (simp add: sha_round_defs)

lemma sha256_tx_fee_zero_b1_r2:
  "foldl sha_round
     ((3329773697, 2250425619, 637642459, 3649039468, 291044269, 2256612670, 2017589727, 2299225213),
      [3099395254, 3658165636, 2797315907, 4052052032, 3426471652, 1341491476, 432160673,
       1286142092, 2170650716, 195275929, 3541557276, 1799962234, 3417288276, 4226767647,
       1501268232, 1923461471])
     [666307205, 773529912, 1294757372, 1396182291, 1695183700, 1986661051, 2177026350,
      2456956037, 2730485921, 2820302411, 3259730800, 3345764771, 3516065817, 3600352804,
      4094571909, 275423344] =
     ((4256087405, 3694889497, 1400885734, 4054491126, 4273188261, 3168341579, 3644996627, 154234693),
      [1403547688, 2517038610, 231623475, 2261380193, 4165732508, 1139923421, 1090207479,
       1095840247, 3898826045, 3020618656, 3573960136, 3784715725, 4116153615, 171004917,
       2848861887, 627572917])"
  by (simp add: sha_round_defs)

lemma sha256_tx_fee_zero_b1_r3:
  "foldl sha_round
     ((4256087405, 3694889497, 1400885734, 4054491126, 4273188261, 3168341579, 3644996627, 154234693),
      [1403547688, 2517038610, 231623475, 2261380193, 4165732508, 1139923421, 1090207479,
       1095840247, 3898826045, 3020618656, 3573960136, 3784715725, 4116153615, 171004917,
       2848861887, 627572917])
     [430227734, 506948616, 659060556, 883997877, 958139571, 1322822218, 1537002063,
      1747873779, 1955562222, 2024104815, 2227730452, 2361852424, 2428436474, 2756734187,
      3204031479, 3329325298] =
     ((2175698452, 1542559981, 965449322, 2820534336, 2787802012, 1105282737, 418880184, 846429588),
      [1690186956, 1623279222, 1964497451, 753755306, 3713627876, 900641515, 2798794511,
       3871921558, 2406850162, 2983977910, 2336952108, 745881565, 3506849886, 3404164600,
       3966931155, 700254458])"
  by (simp add: sha_round_defs)

lemma sha256_tx_fee_zero_b1:
  "compress (575796608, 3688010776, 3109762111, 2293797804, 1372770941, 3976747742, 1086327103, 371868229)
     [0, 0, 0, 0, 0, 0, 0, 0, 0, 0, 0, 0, 0, 0, 0, 480] =
     (2751495060, 935603461, 4075211433, 819364844, 4160572953, 787063183, 1505207287, 1218297817)"
  unfolding compress_def K256_chunks foldl_append
  by (simp only: sha256_tx_fee_zero_b1_r0 sha256_tx_fee_zero_b1_r1 sha256_tx_fee_zero_b1_r2 sha256_tx_fee_zero_b1_r3) simp

lemma sha256_tx_fee_zero:
  "sha256
     [123, 34, 102, 114, 111, 109, 34, 58, 34, 97, 34, 44, 34, 116, 111, 34, 58, 34, 98,
      34, 44, 34, 97, 109, 111, 117, 110, 116, 34, 58, 49, 44, 34, 116, 111, 107, 101, 110,
      84, 121, 112, 101, 34, 58, 34, 68, 78, 84, 34, 44, 34, 110, 111, 110, 99, 101, 34,
      58, 48, 125] =
     [164, 0, 123, 148, 55, 196, 45, 5, 242, 230, 202, 169, 48, 214, 131, 236, 247, 253,
      78, 25, 46, 233, 161, 143, 89, 183, 163, 247, 72, 157, 191, 217]"
  by (simp add: sha256_def sha_pad_def replicate_numeral sha_blocks.simps be32_def
      H256_def word_bytes_def sha256_tx_fee_zero_b0 sha256_tx_fee_zero_b1)

lemma sha256_tx_feeDNT_zero_b0_r0:
  "foldl sha_round
     ((1779033703, 3144134277, 1013904242, 2773480762, 1359893119, 2600822924, 528734635, 1541459225),
      [2065852018, 1869423162, 576791084, 578055970, 975331874, 740450669, 1869966964,
       574239020, 578056043, 1701729401, 1885676090, 574901844, 573317734, 1701126714,
       808198766, 1869505381])
     [1116352408, 1899447441, 3049323471, 3921009573, 961987163, 1508970993, 2453635748,
      2870763221, 3624381080, 310598401, 607225278, 1426881987, 1925078388, 2162078206,
      2614888103, 3248222580] =
     ((1629418818, 3608448900, 442698988, 3204306319, 1798505261, 4216738540, 1565930963, 1511284739),
      [2814735838, 4061918415, 3034961006, 2770049347, 933658078, 3667706226, 2693087578,
       2356274661, 2293749944, 455378640, 3968024063, 3996641420, 657262160, 3797228221,
       1081356278, 454599140])"
  by (simp add: sha_round_defs)

lemma sha256_tx_feeDNT_zero_b0_r1:
  "foldl sha_round
     ((1629418818, 3608448900, 442698988, 3204306319, 1798505261, 4216738540, 1565930963, 1511284739),
      [2814735838, 4061918415, 3034961006, 2770049347, 933658078, 3667706226, 2693087578,
       2356274661, 2293749944, 455378640, 3968024063, 3996641420, 657262160, 3797228221,
       1081356278, 454599140])
     [3835390401, 4022224774, 264347078, 604807628, 770255983, 1249150122, 1555081692,
      1996064986, 2554220882, 2821834349, 2952996808, 3210313671, 3336571891, 3584528711,
      113926993, 338241895] =
     ((1084700153, 222750811, 2303036909, 2692467412, 3299310082, 2507157905, 2052237094, 2638427242),
      [3516180451, 3797309361, 3759235623, 3544909616, 2250553336, 4016217341, 749763236,
       302700365, 537055063, 1505242572, 4233192238, 1827036529, 3581856574, 3817289109,
       4068022942, 2881841039])"
  by (simp add: sha_round_defs)

lemma sha256_tx_feeDNT_zero_b0_r2:
  "foldl sha_round
     ((1084700153, 222750811, 2303036909, 2692467412, 3299310082, 2507157905, 2052237094, 2638427242),
      [3516180451, 3797309361, 3759235623, 3544909616, 2250553336, 4016217341, 749763236,
       302700365, 537055063, 1505242572, 4233192238, 1827036529, 3581856574, 3817289109,
       4068022942, 2881841039])
     [666307205, 773529912, 1294757372, 1396182291, 1695183700, 1986661051, 2177026350,
      2456956037, 2730485921, 2820302411, 3259730800, 3345764771, 3516065817, 3600352804,
      4094571909, 275423344] =
     ((2905796437, 905782359, 1896291745, 1141801070, 2294789935, 614207237, 2331118939, 2036927552),
      [3285134768, 152077094, 2052721703, 3338031633, 4064518128, 415072857, 3261523334,
       1624316314, 1884149455, 2662446046, 2365806278, 614973425, 2863117763, 856303675,
       3549039345, 532399850])"
  by (simp add: sha_round_defs)

lemma sha256_tx_feeDNT_zero_b0_r3:
  "foldl sha_round
     ((2905796437, 905782359, 1896291745, 1141801070, 2294789935, 614207237, 2331118939, 2036927552),
      [3285134768, 152077094, 2052721703, 3338031633, 4064518128, 415072857, 3261523334,
       1624316314, 1884149455, 2662446046, 2365806278, 614973425, 2863117763, 856303675,
       3549039345, 532399850])
     [430227734, 506948616, 659060556, 883997877, 958139571, 1322822218, 1537002063,
      1747873779, 1955562222, 2024104815, 2227730452, 2361852424, 2428436474, 2756734187,
      3204031479, 3329325298] =
     ((3392962321, 1163142456, 1453141571, 1095145429, 2794861271, 802551659, 1094020661, 1344251853),
      [344770026, 4101613521, 1227263833, 1897835263, 2371099039, 422395954, 4039059370,
       1657921998, 2650831569, 4255800246, 962162763, 2550135040, 1409368421, 2730039436,
       3847845453, 1425912093])"
  by (simp add: sha_round_defs)

lemma sha256_tx_feeDNT_zero_b0:
  "compress (1779033703, 3144134277, 1013904242, 2773480762, 1359893119, 2600822924, 528734635, 1541459225)
     [2065852018, 1869423162, 576791084, 578055970, 975331874, 740450669, 1869966964,
      574239020, 578056043, 1701729401, 1885676090, 574901844, 573317734, 1701126714,
      808198766, 1869505381] =
     (877028728, 12309437, 2467045813, 3868626191, 4154754390, 3403374583, 1622755296, 2885711078)"
  unfolding compress_def K256_chunks foldl_append
  by (simp only: sha256_tx_feeDNT_zero_b0_r0 sha256_tx_feeDNT_zero_b0_r1 sha256_tx_feeDNT_zero_b0_r2 sha256_tx_feeDNT_zero_b0_r3) simp

lemma sha256_tx_feeDNT_zero_b1_r0:
  "foldl sha_round
     ((877028728, 12309437, 2467045813, 3868626191, 4154754390, 3403374583, 1622755296, 2885711078),
      [574238845, 2147483648, 0, 0, 0, 0, 0, 0, 0, 0, 0, 0, 0, 0, 0, 544])
     [1116352408, 1899447441, 3049323471, 3921009573, 961987163, 1508970993, 2453635748,
      2870763221, 3624381080, 310598401, 607225278, 1426881987, 1925078388, 2162078206,
      2614888103, 3248222580] =
     ((1298805392, 3428948953, 1836181566, 1462453461, 3653767122, 2861292031, 3479147111, 3433734265),
      [859459709, 2169765888, 1648226670, 2149582208, 1182954021, 38819861, 2001186093,
       1514341873, 2760033440, 1150158870, 3138218976, 194722681, 452125138, 1914236829,
       3349215440, 1992477333])"
  by (simp add: sha_round_defs)

lemma sha256_tx_feeDNT_zero_b1_r1:
  "foldl sha_round
     ((1298805392, 3428948953, 1836181566, 1462453461, 3653767122, 2861292031, 3479147111, 3433734265),
      [859459709, 2169765888, 1648226670, 2149582208, 1182954021, 38819861, 2001186093,
       1514341873, 2760033440, 1150158870, 3138218976, 194722681, 452125138, 1914236829,
       3349215440, 1992477333])
     [3835390401, 4022224774, 264347078, 604807628, 770255983, 1249150122, 1555081692,
      1996064986, 2554220882, 2821834349, 2952996808, 3210313671, 3336571891, 3584528711,
      113926993, 338241895] =
     ((2048918758, 2542791176, 1537346961, 3959614297, 383514070, 3592364575, 2748082089, 1764050122),
      [3962827778, 624913963, 49788156, 3569400885, 566790576, 3538409706, 1819381478,
       1120205065, 1721001681, 3089796734, 2368960149, 1667335713, 3537266504, 1504064323,
       2691709432, 2727707189])"
  by (simp add: sha_round_defs)

lemma sha256_tx_feeDNT_zero_b1_r2:
  "foldl sha_round
     ((2048918758, 2542791176, 1537346961, 3959614297, 383514070, 3592364575, 2748082089, 1764050122),
      [3962827778, 624913963, 49788156, 3569400885, 566790576, 3538409706, 1819381478,
       1120205065, 1721001681, 3089796734, 2368960149, 1667335713, 3537266504, 1504064323,
       2691709432, 2727707189])
     [666307205, 773529912, 1294757372, 1396182291, 1695183700, 1986661051, 2177026350,
      2456956037, 2730485921, 2820302411, 3259730800, 3345764771, 3516065817, 3600352804,
      4094571909, 275423344] =
     ((3681824146, 3023185910, 2865389128, 2545924195, 1710778309, 1803497477, 2767485377, 547970120),
      [1236350222, 961265283, 2160763022, 2521650487, 3114852316, 375392121, 2816604499,
       1199070662, 2910138271, 1163448259, 2226844987, 2906674883, 245983135, 239857411,
       2797820029, 861142162])"
  by (simp add: sha_round_defs)

lemma sha256_tx_feeDNT_zero_b1_r3:
  "foldl sha_round
     ((3681824146, 3023185910, 2865389128, 2545924195, 1710778309, 1803497477, 2767485377, 547970120),
      [1236350222, 961265283, 2160763022, 2521650487, 3114852316, 375392121, 2816604499,
       1199070662, 2910138271, 1163448259, 2226844987, 2906674883, 245983135, 239857411,
       2797820029, 861142162])
     [430227734, 506948616, 659060556, 883997877, 958139571, 1322822218, 1537002063,
      1747873779, 1955562222, 2024104815, 2227730452, 2361852424, 2428436474, 2756734187,
      3204031479, 3329325298] =
     ((4096606433, 3726336385, 2857897271, 1023930887, 3563535465, 786016686, 3760658031, 3021813912),
      [1159596863, 3843661916, 463264414, 583321931, 2941091299, 2291054878, 2142032338,
       2033763566, 1127015491, 3065721422, 494609013, 3254826370, 2294332995, 331677265,
       1173354369, 1280141232])"
  by (simp add: sha_round_defs)

lemma sha256_tx_feeDNT_zero_b1:
  "compress (877028728, 12309437, 2467045813, 3868626191, 4154754390, 3403374583, 1622755296, 2885711078)
     [574238845, 2147483648, 0, 0, 0, 0, 0, 0, 0, 0, 0, 0, 0, 0, 0, 544] =
     (678667865, 3738645822, 1029975788, 597589782, 3423322559, 4189391269, 1088446031, 1612557694)"
  unfolding compress_def K256_chunks foldl_append
  by (simp only: sha256_tx_feeDNT_zero_b1_r0 sha256_tx_feeDNT_zero_b1_r1 sha256_tx_feeDNT_zero_b1_r2 sha256_tx_feeDNT_zero_b1_r3) simp

lemma sha256_tx_feeDNT_zero:
  "sha256
     [123, 34, 102, 114, 111, 109, 34, 58, 34, 97, 34, 44, 34, 116, 111, 34, 58, 34, 98,
      34, 44, 34, 97, 109, 111, 117, 110, 116, 34, 58, 49, 44, 34, 116, 111, 107, 101, 110,
      84, 121, 112, 101, 34, 58, 34, 68, 78, 84, 34, 44, 34, 102, 101, 101, 34, 58, 48, 44,
      34, 110, 111, 110, 99, 101, 34, 58, 48, 125] =
     [40, 115, 166, 89, 222, 215, 53, 62, 61, 100, 46, 236, 35, 158, 127, 22, 204, 11, 193,
      191, 249, 181, 9, 165, 64, 224, 94, 79, 96, 29, 173, 126]"
  by (simp add: sha256_def sha_pad_def replicate_numeral sha_blocks.simps be32_def
      H256_def word_bytes_def sha256_tx_feeDNT_zero_b0 sha256_tx_feeDNT_zero_b1)

section \<open>Base58 codec\<close>

text \<open>
  Claim C10, as amended. \<open>base58Decode (base58Encode bytes) = bytes\<close> for every byte
  array with at least one nonzero byte. For a non-empty array of zero bytes the decoded
  value has one extra zero byte. For the empty array \<open>base58Encode\<close> throws, because
  \<open>BigInt('0x')\<close> is a syntax error, so there is nothing to decode. A 25-byte address
  starts with the version byte \<open>0x1E\<close> and always round-trips.
\<close>

theorem base58_codec_roundtrip:
  "((\<exists>b \<in> set bytes. b \<noteq> 0) \<longrightarrow>
      (\<exists>s. base58Encode bytes = Inr s \<and> base58Decode s = Inr bytes))
   \<and> (bytes \<noteq> [] \<and> (\<forall>b \<in> set bytes. b = 0) \<longrightarrow>
      (\<exists>s. base58Encode bytes = Inr s \<and> base58Decode s = Inr (bytes @ [0])))
   \<and> base58Encode [] = Inl (Error ''Cannot convert 0x to a BigInt'')
   \<and> (length bytes = 25 \<and> hd bytes = ADDRESS_VERSION \<longrightarrow>
      (\<exists>s. base58Encode bytes = Inr s \<and> base58Decode s = Inr bytes))"
proof (intro conjI impI)
  assume "\<exists>b \<in> set bytes. b \<noteq> 0"
  then show "\<exists>s. base58Encode bytes = Inr s \<and> base58Decode s = Inr bytes"
    by (rule base58_decode_encode_nonzero)
next
  assume "bytes \<noteq> [] \<and> (\<forall>b \<in> set bytes. b = 0)"
  then show "\<exists>s. base58Encode bytes = Inr s \<and> base58Decode s = Inr (bytes @ [0])"
    by (simp add: base58_decode_encode_zero)
next
  show "base58Encode [] = Inl (Error ''Cannot convert 0x to a BigInt'')"
    by (simp add: base58Encode_eq)
next
  assume "length bytes = 25 \<and> hd bytes = ADDRESS_VERSION"
  then show "\<exists>s. base58Encode bytes = Inr s \<and> base58Decode s = Inr bytes"
    using versioned_encode [of bytes] by auto
qed

theorem base58_codec_roundtrip_witness:
  "(\<exists>s. base58Encode [0, 0, 1] = Inr s \<and> base58Decode s = Inr [0, 0, 1])
   \<and> (\<exists>s. base58Encode [0, 0] = Inr s \<and> base58Decode s = Inr [0, 0, 0])
   \<and> (\<exists>s. base58Encode (ADDRESS_VERSION # replicate 24 7) = Inr s
          \<and> base58Decode s = Inr (ADDRESS_VERSION # replicate 24 7))"
  using base58_codec_roundtrip [of "[0, 0, 1]"] base58_codec_roundtrip [of "[0, 0]"]
    base58_codec_roundtrip [of "ADDRESS_VERSION # replicate 24 7"]
  by simp

theorem base58_empty_array_throws:
  "\<not> (\<exists>s. base58Encode [] = Inr s \<and> base58Decode s = Inr [0])"
  by (simp add: base58Encode_eq)

section \<open>Importing a private key\<close>



section \<open>Mnemonic word selection\<close>

text \<open>
  Claim C9, as amended. The word list has 234 entries and \<open>2 ^ 32 mod 234 = 22\<close>: of the
  \<open>2 ^ 32\<close> values of a draw, 18354562 select each of the first 22 words and 18354561
  select each of the other 212 words. The counts differ by one, so the selection is not
  uniform.
\<close>

theorem randomIndex_preimages:
  "card {r. randomIndex r = i} =
     (if i < 22 then 18354562 else if i < 234 then 18354561 else 0)"
proof (cases "i < 234")
  case True
  then show ?thesis by (simp add: card_randomIndex card_residue_class)
next
  case False
  then have "{r. randomIndex r = i} = {}"
    by (auto simp: randomIndex_def length_WORDLIST)
  with False show ?thesis by simp
qed

theorem randomIndex_not_uniform:
  "card {r. randomIndex r = 0} \<noteq> card {r. randomIndex r = 233}"
  by (simp add: card_randomIndex card_residue_class)

section \<open>Encrypted secret store\<close>

text \<open>
  Claim C1, as amended. For every cipher that decrypts what it encrypted, every password
  and every plaintext that is a well-formed string (no lone surrogate) and does not
  start with the byte order mark U+FEFF, decrypting the secret produced by \<open>encrypt\<close>
  with the same password returns the plaintext.
\<close>

theorem encrypt_decrypt_roundtrip:
  assumes "cipher_correct C" and "encrypt C rnd plaintext password = Inr secret"
    and "well_formed (map unat plaintext)" and "plaintext = [] \<or> hd plaintext \<noteq> 0xFEFF"
  shows "decrypt C (encrypted secret) (salt secret) (iv secret) password = Inr plaintext"
  using assms by (rule decrypt_encrypt)

theorem encrypt_decrypt_roundtrip_witness:
  "\<exists>secret.
     encrypt copy_cipher (\<lambda>i. 0) (js ''secret-payload'') (js ''correct-horse'') = Inr secret \<and>
     decrypt copy_cipher (encrypted secret) (salt secret) (iv secret) (js ''correct-horse'')
       = Inr (js ''secret-payload'')"
proof -
  obtain secret where
    e: "encrypt copy_cipher (\<lambda>i. 0) (js ''secret-payload'') (js ''correct-horse'') = Inr secret"
    using encrypt_copy_cipher by blast
  have w: "well_formed (map unat (js ''secret-payload''))"
    by (simp add: js_def is_high_surrogate_def is_low_surrogate_def)
  have b: "js ''secret-payload'' = [] \<or> hd (js ''secret-payload'') \<noteq> 0xFEFF"
    by (simp add: js_def)
  from encrypt_decrypt_roundtrip [OF copy_cipher_correct e w b] e show ?thesis by blast
qed

text \<open>
  The claim as stated fails for the plaintext U+FEFF: the decoder removes the byte order
  mark and \<open>decrypt\<close> returns the empty string.
\<close>

theorem roundtrip_loses_byte_order_mark:
  "\<not> (\<forall>C rnd plaintext password secret.
        cipher_correct C \<longrightarrow> encrypt C rnd plaintext password = Inr secret \<longrightarrow>
        decrypt C (encrypted secret) (salt secret) (iv secret) password = Inr plaintext)"
proof
  assume a: "\<forall>C rnd plaintext password secret.
        cipher_correct C \<longrightarrow> encrypt C rnd plaintext password = Inr secret \<longrightarrow>
        decrypt C (encrypted secret) (salt secret) (iv secret) password = Inr plaintext"
  obtain secret where e: "encrypt copy_cipher (\<lambda>i. 0) [0xFEFF] [] = Inr secret"
    using encrypt_copy_cipher by blast
  with a copy_cipher_correct
  have "decrypt copy_cipher (encrypted secret) (salt secret) (iv secret) [] = Inr [0xFEFF]"
    by blast
  moreover have "decrypt copy_cipher (encrypted secret) (salt secret) (iv secret) [] = Inr []"
    using decrypt_encrypt_text [OF copy_cipher_correct e] by (simp add: BOM_lost)
  ultimately show False by simp
qed

text \<open>
  Claim C2, as amended. \<open>decrypt\<close> reports every failure with the same error, whether
  a stored field is not Base64 or AES-GCM rejects the ciphertext under the derived key;
  it returns a plaintext only when AES-GCM accepts. Whether a modified ciphertext or
  another password is rejected is decided by the tag check of AES-GCM alone. A password
  of fewer than 64 bytes followed by U+0000 derives the same key, because HMAC pads its
  key with zero bytes, so that password is accepted whenever the original is.
\<close>

theorem decrypt_single_error:
  "(decrypt C e s i password = Inl err \<longrightarrow>
      err = Error ''Decryption failed - incorrect password or corrupted data'')
   \<and> (base64ToArrayBuffer s = Inr salt_bytes \<and> base64ToArrayBuffer i = Inr iv_bytes \<and>
      base64ToArrayBuffer e = Inr encrypted_bytes \<and>
      AES_GCM_decrypt C (deriveKey C password salt_bytes) iv_bytes encrypted_bytes = Inl err'
      \<longrightarrow> decrypt C e s i password =
            Inl (Error ''Decryption failed - incorrect password or corrupted data''))
   \<and> (base64ToArrayBuffer s = Inl err' \<or> base64ToArrayBuffer i = Inl err' \<or>
      base64ToArrayBuffer e = Inl err'
      \<longrightarrow> decrypt C e s i password =
            Inl (Error ''Decryption failed - incorrect password or corrupted data''))
   \<and> (length (TextEncoder_encode password) < 64 \<longrightarrow>
      decrypt C e s i (password @ [0]) = decrypt C e s i password)"
  using decrypt_error [of C e s i password err]
    decrypt_rejected [of s salt_bytes i iv_bytes e encrypted_bytes C password err']
    decrypt_malformed [of s err' i e C password]
    decrypt_NUL [of password C e s i]
  by blast

theorem decrypt_single_error_witness:
  "decrypt rejecting_cipher ''AAAA'' ''AAAA'' ''AAAA'' (js ''a'')
     = Inl (Error ''Decryption failed - incorrect password or corrupted data'')
   \<and> decrypt copy_cipher ''!'' ''AAAA'' ''AAAA'' (js ''a'')
     = Inl (Error ''Decryption failed - incorrect password or corrupted data'')
   \<and> decrypt copy_cipher ''AAAA'' ''AAAA'' ''AAAA'' (js ''a'' @ [0])
     = decrypt copy_cipher ''AAAA'' ''AAAA'' ''AAAA'' (js ''a'')"
proof -
  have b: "base64ToArrayBuffer ''AAAA'' = Inr [0, 0, 0]"
    by (simp add: base64ToArrayBuffer_def atob_def remove_padding_def ascii_whitespace_def
        BASE64_def)
  have r: "AES_GCM_decrypt rejecting_cipher (deriveKey rejecting_cipher (js ''a'') [0, 0, 0])
      [0, 0, 0] [0, 0, 0] = Inl (Error ''OperationError'')"
    by (simp add: rejecting_cipher_def)
  have l: "length (TextEncoder_encode (js ''a'')) < 64"
    by (simp add: TextEncoder_encode_def js_def utf8_encode_def is_high_surrogate_def
        is_low_surrogate_def)
  from decrypt_single_error [of rejecting_cipher "''AAAA''" "''AAAA''" "''AAAA''" "js ''a''"
      _ "[0, 0, 0]" "[0, 0, 0]" "[0, 0, 0]" "Error ''OperationError''"] b r
  have 1: "decrypt rejecting_cipher ''AAAA'' ''AAAA'' ''AAAA'' (js ''a'')
     = Inl (Error ''Decryption failed - incorrect password or corrupted data'')" by blast
  from decrypt_single_error [of copy_cipher "''!''" "''AAAA''" "''AAAA''" "js ''a''"
      _ _ _ _ "Error ''The string to be decoded is not correctly encoded.''"] atob_bang
  have 2: "decrypt copy_cipher ''!'' ''AAAA'' ''AAAA'' (js ''a'')
     = Inl (Error ''Decryption failed - incorrect password or corrupted data'')" by blast
  from decrypt_single_error [of copy_cipher "''AAAA''" "''AAAA''" "''AAAA''" "js ''a''"] l
  have 3: "decrypt copy_cipher ''AAAA'' ''AAAA'' ''AAAA'' (js ''a'' @ [0])
     = decrypt copy_cipher ''AAAA'' ''AAAA'' ''AAAA'' (js ''a'')" by blast
  from 1 2 3 show ?thesis by blast
qed

text \<open>
  The claim as stated fails for the wrong password \<open>a\<close> followed by U+0000: for every
  cipher, hash function and stored secret it decrypts exactly as the password \<open>a\<close> does.
\<close>

theorem wrong_password_accepted:
  "js ''a'' @ [0] \<noteq> js ''a'' \<and>
   (\<forall>C e s i. decrypt C e s i (js ''a'' @ [0]) = decrypt C e s i (js ''a'')) \<and>
   (\<exists>secret. encrypt copy_cipher (\<lambda>i. 0) (js ''secret-payload'') (js ''a'') = Inr secret \<and>
      decrypt copy_cipher (encrypted secret) (salt secret) (iv secret) (js ''a'' @ [0])
        = Inr (js ''secret-payload''))"
proof -
  have l: "length (TextEncoder_encode (js ''a'')) < 64"
    by (simp add: TextEncoder_encode_def js_def utf8_encode_def is_high_surrogate_def
        is_low_surrogate_def)
  then have n: "\<forall>C e s i. decrypt C e s i (js ''a'' @ [0]) = decrypt C e s i (js ''a'')"
    by (simp add: decrypt_NUL)
  obtain secret where
    e: "encrypt copy_cipher (\<lambda>i. 0) (js ''secret-payload'') (js ''a'') = Inr secret"
    using encrypt_copy_cipher by blast
  have w: "well_formed (map unat (js ''secret-payload''))"
    by (simp add: js_def is_high_surrogate_def is_low_surrogate_def)
  have b: "js ''secret-payload'' = [] \<or> hd (js ''secret-payload'') \<noteq> 0xFEFF"
    by (simp add: js_def)
  have "decrypt copy_cipher (encrypted secret) (salt secret) (iv secret) (js ''a'')
      = Inr (js ''secret-payload'')"
    using decrypt_encrypt [OF copy_cipher_correct e w b] .
  with n e show ?thesis by auto
qed

section \<open>Error handling\<close>

text \<open>
  Claim C8, as amended. When decryption of the stored secret fails, \<open>loadWallet\<close>
  catches the error of \<open>decrypt\<close> and throws a new error whose message is the message
  of \<open>decrypt\<close> prefixed with \<open>Failed to load wallet: \<close>. The caller does not observe
  the error of \<open>decrypt\<close> unmodified.
\<close>

theorem loadWallet_wraps_decrypt_error:
  "local_get st = Inr result \<and> dinari_wallet result = Some w \<and>
   decrypt C (encrypted_data w) (salt' w) (iv' w) password = Inl e
   \<longrightarrow> e = Error ''Decryption failed - incorrect password or corrupted data'' \<and>
       loadWallet C JSON_parse st password =
         Inl (Error (''Failed to load wallet: '' @
                ''Decryption failed - incorrect password or corrupted data''))"
proof (intro impI, elim conjE)
  assume a: "local_get st = Inr result" "dinari_wallet result = Some w"
    "decrypt C (encrypted_data w) (salt' w) (iv' w) password = Inl e"
  from a(3) have e: "e = Error ''Decryption failed - incorrect password or corrupted data''"
    by (rule decrypt_error)
  from loadWallet_decrypt_fails [OF a, of JSON_parse] e
  show "e = Error ''Decryption failed - incorrect password or corrupted data'' \<and>
       loadWallet C JSON_parse st password =
         Inl (Error (''Failed to load wallet: '' @
                ''Decryption failed - incorrect password or corrupted data''))"
    by simp
qed

theorem loadWallet_wraps_decrypt_error_witness:
  "loadWallet copy_cipher (\<lambda>s. Inr Null) corrupt_wallet_store (js ''password'') =
     Inl (Error (''Failed to load wallet: '' @
            ''Decryption failed - incorrect password or corrupted data''))"
proof -
  let ?w = "\<lparr>encrypted_data = ''!'', salt' = ''AAAA'', iv' = ''AAAA'',
             address' = ''D'', public_key = ''02''\<rparr>"
  let ?r = "\<lparr>dinari_wallet = Some ?w, dinari_settings = None, dinari_session = None\<rparr>"
  have "local_get corrupt_wallet_store = Inr ?r" by (simp add: corrupt_wallet_store_def)
  moreover have "dinari_wallet ?r = Some ?w" by simp
  moreover have "decrypt copy_cipher (encrypted_data ?w) (salt' ?w) (iv' ?w) (js ''password'')
      = Inl (Error ''Decryption failed - incorrect password or corrupted data'')"
    by (simp add: decrypt_corrupt)
  ultimately show ?thesis
    using loadWallet_wraps_decrypt_error [of corrupt_wallet_store ?r ?w copy_cipher
        "js ''password''" "Error ''Decryption failed - incorrect password or corrupted data''"
        "\<lambda>s. Inr Null"]
    by blast
qed

theorem loadWallet_error_not_verbatim:
  "\<forall>C JSON_parse password.
     \<exists>e. decrypt C ''!'' ''AAAA'' ''AAAA'' password = Inl e \<and>
         loadWallet C JSON_parse corrupt_wallet_store password \<noteq> Inl e"
proof (intro allI)
  fix C :: subtle_crypto and JSON_parse :: "jsstring \<Rightarrow> error + jsval" and password :: jsstring
  let ?e = "Error ''Decryption failed - incorrect password or corrupted data''"
  have d: "decrypt C ''!'' ''AAAA'' ''AAAA'' password = Inl ?e" by (rule decrypt_corrupt)
  let ?w = "\<lparr>encrypted_data = ''!'', salt' = ''AAAA'', iv' = ''AAAA'',
             address' = ''D'', public_key = ''02''\<rparr>"
  let ?r = "\<lparr>dinari_wallet = Some ?w, dinari_settings = None, dinari_session = None\<rparr>"
  have "loadWallet C JSON_parse corrupt_wallet_store password =
      Inl (Error (''Failed to load wallet: '' @ message ?e))"
    using loadWallet_decrypt_fails [of corrupt_wallet_store ?r ?w C password ?e JSON_parse] d
    by (simp add: corrupt_wallet_store_def)
  then have "loadWallet C JSON_parse corrupt_wallet_store password \<noteq> Inl ?e" by simp
  with d show "\<exists>e. decrypt C ''!'' ''AAAA'' ''AAAA'' password = Inl e \<and>
         loadWallet C JSON_parse corrupt_wallet_store password \<noteq> Inl e" by blast
qed

text \<open>
  Claim C7. \<open>validateAddress\<close> and \<open>verifyPassword\<close> always return a boolean and never
  throw. \<open>validateAddress\<close> returns \<open>false\<close> for a string that does not start with
  \<open>D\<close>, has a character outside the Base58 alphabet, decodes to a length other than 25,
  has another version byte or a checksum that does not match. \<open>verifyPassword\<close> returns
  \<open>false\<close> when the store fails, when no wallet record exists and when decryption
  fails, and \<open>true\<close> when decryption succeeds.
\<close>

theorem boolean_predicates_never_throw:
  "(\<exists>b. validateAddress J a = Inr b) \<and> (\<exists>b. verifyPassword C st password = Inr b)
   \<and> (\<not> startsWith a ''D'' \<longrightarrow> validateAddress J a = Inr False)
   \<and> (c \<in> set a \<and> c \<notin> set ALPHABET \<longrightarrow> validateAddress J a = Inr False)
   \<and> (base58Decode a = Inr decoded \<and> length decoded \<noteq> 25 \<longrightarrow>
        validateAddress J a = Inr False)
   \<and> (base58Decode a = Inr decoded \<and> index decoded 0 \<noteq> Some ADDRESS_VERSION \<longrightarrow>
        validateAddress J a = Inr False)
   \<and> (base58Decode a = Inr decoded \<and>
        \<not> compare_checksums (slice_arr 21 25 decoded)
             (slice_arr 0 4 (sha256Sync J (sha256Sync J (slice_arr 0 21 decoded)))) \<longrightarrow>
        validateAddress J a = Inr False)
   \<and> (local_get st = Inl e \<longrightarrow> verifyPassword C st password = Inr False)
   \<and> (local_get st = Inr result \<and> dinari_wallet result = None \<longrightarrow>
        verifyPassword C st password = Inr False)
   \<and> (local_get st = Inr result \<and> dinari_wallet result = Some w \<and>
        decrypt C (encrypted_data w) (salt' w) (iv' w) password = Inl e \<longrightarrow>
        verifyPassword C st password = Inr False)
   \<and> (local_get st = Inr result \<and> dinari_wallet result = Some w \<and>
        decrypt C (encrypted_data w) (salt' w) (iv' w) password = Inr plaintext \<longrightarrow>
        verifyPassword C st password = Inr True)"
proof -
  have bad: "c \<in> set a \<and> c \<notin> set ALPHABET \<longrightarrow> validateAddress J a = Inr False"
    using base58Decode_bad [of c a] validateAddress_false(2) [of a _ J] by blast
  show ?thesis
    using validateAddress_total [of J a] validateAddress_false(1,3,4,5) [of a] bad
    by (simp add: verifyPassword_cases)
qed

lemma base58Decode_samples:
  "base58Decode ''D'' = Inr [12]"
  "base58Decode ''D111111111111111111111111111111111'' =
     Inr [29, 210, 151, 139, 166, 126, 15, 130, 187, 147, 114, 136, 71, 17, 19, 22, 51, 194, 40, 78, 184, 0, 0, 0, 0]"
  "base58Decode ''DFSVTrK1N53SeFiKKXRUVKCZKRvmA2xzoU'' =
     Inr [30, 112, 251, 119, 22, 139, 26, 127, 240, 212, 31, 178, 107, 72, 234, 8, 226, 6, 85, 55, 201, 176, 228, 105, 83]"
  by (simp_all add: base58Decode_eq ALPHABET_def min_bytes.simps)

theorem boolean_predicates_never_throw_witness:
  "validateAddress zero_hashes ''X'' = Inr False
   \<and> validateAddress zero_hashes ''D0'' = Inr False
   \<and> validateAddress zero_hashes ''D'' = Inr False
   \<and> validateAddress zero_hashes ''D111111111111111111111111111111111'' = Inr False
   \<and> validateAddress zero_hashes ''DFSVTrK1N53SeFiKKXRUVKCZKRvmA2xzoU'' = Inr False
   \<and> verifyPassword copy_cipher (StorageFailure ''quota'') (js ''a'') = Inr False
   \<and> verifyPassword copy_cipher empty_store (js ''a'') = Inr False
   \<and> verifyPassword copy_cipher corrupt_wallet_store (js ''a'') = Inr False
   \<and> verifyPassword copy_cipher
         (Storage \<lparr>dinari_wallet =
                     Some \<lparr>encrypted_data = ''AAAA'', salt' = ''AAAA'', iv' = ''AAAA'',
                           address' = ''D'', public_key = ''02''\<rparr>,
                   dinari_settings = None, dinari_session = None\<rparr>) (js ''a'') = Inr True"
proof -
  let ?w = "\<lparr>encrypted_data = ''!'', salt' = ''AAAA'', iv' = ''AAAA'',
             address' = ''D'', public_key = ''02''\<rparr>"
  let ?r = "\<lparr>dinari_wallet = Some ?w, dinari_settings = None, dinari_session = None\<rparr>"
  let ?w' = "\<lparr>encrypted_data = ''AAAA'', salt' = ''AAAA'', iv' = ''AAAA'',
              address' = ''D'', public_key = ''02''\<rparr>"
  let ?r' = "\<lparr>dinari_wallet = Some ?w', dinari_settings = None, dinari_session = None\<rparr>"
  let ?n = "\<lparr>dinari_wallet = None, dinari_settings = None, dinari_session = None\<rparr>"
  note T = boolean_predicates_never_throw
  have 1: "validateAddress zero_hashes ''X'' = Inr False"
    using T [of zero_hashes "''X''"] by (simp add: startsWith_def)
  have 2: "validateAddress zero_hashes ''D0'' = Inr False"
    using T [of zero_hashes "''D0''" _ _ _ "CHR ''0''"] by (simp add: ALPHABET_def)
  have 3: "validateAddress zero_hashes ''D'' = Inr False"
    using T [of zero_hashes "''D''" _ _ _ _ "[12]"] by (simp add: base58Decode_samples(1))
  have 4: "validateAddress zero_hashes ''D111111111111111111111111111111111'' = Inr False"
    using T [of zero_hashes "''D111111111111111111111111111111111''" _ _ _ _
        "[29, 210, 151, 139, 166, 126, 15, 130, 187, 147, 114, 136, 71, 17, 19, 22, 51, 194, 40, 78, 184, 0, 0, 0, 0]"]
    by (simp add: base58Decode_samples(2) index_def ADDRESS_VERSION_def)
  have 5: "validateAddress zero_hashes ''DFSVTrK1N53SeFiKKXRUVKCZKRvmA2xzoU'' = Inr False"
    using T [of zero_hashes "''DFSVTrK1N53SeFiKKXRUVKCZKRvmA2xzoU''" _ _ _ _
        "[30, 112, 251, 119, 22, 139, 26, 127, 240, 212, 31, 178, 107, 72, 234, 8, 226, 6, 85, 55, 201, 176, 228, 105, 83]"]
    by (simp add: base58Decode_samples(3) sha256Sync_eq zero_hashes_def slice_arr_def
        compare_checksums_def index_def)
  have 6: "verifyPassword copy_cipher (StorageFailure ''quota'') (js ''a'') = Inr False"
    using T [of _ _ copy_cipher "StorageFailure ''quota''" "js ''a''" _ _ "Error ''quota''"]
    by simp
  have 7: "verifyPassword copy_cipher empty_store (js ''a'') = Inr False"
    using T [of _ _ copy_cipher empty_store "js ''a''" _ _ _ ?n]
    by (simp add: empty_store_def)
  have 8: "verifyPassword copy_cipher corrupt_wallet_store (js ''a'') = Inr False"
    using T [of _ _ copy_cipher corrupt_wallet_store "js ''a''" _ _
        "Error ''Decryption failed - incorrect password or corrupted data''" ?r ?w]
    by (simp add: corrupt_wallet_store_def decrypt_corrupt)
  have b: "base64ToArrayBuffer ''AAAA'' = Inr [0, 0, 0]"
    by (simp add: base64ToArrayBuffer_def atob_def remove_padding_def ascii_whitespace_def
        BASE64_def)
  have d: "decrypt copy_cipher ''AAAA'' ''AAAA'' ''AAAA'' (js ''a'') = Inr [0, 0, 0]"
    by (simp add: decrypt_def decrypt_try_def b copy_cipher_def TextDecoder_decode_def
        utf8_decoder.simps utf8_initial_def strip_BOM_def utf16_units_def)
  have 9: "verifyPassword copy_cipher (Storage ?r') (js ''a'') = Inr True"
    using T [of _ _ copy_cipher "Storage ?r'" "js ''a''" _ _ _ ?r' ?w' "[0, 0, 0]"]
    by (simp add: d)
  from 1 2 3 4 5 6 7 8 9 show ?thesis by blast
qed

section \<open>Addresses\<close>

lemma validateAddress_mutated:
  assumes sha: "\<forall>x. length (SHA256 J x) = 32"
    and len: "length bs = 25" and ver: "hd bs = ADDRESS_VERSION"
    and chk: "drop 21 bs = take 4 (SHA256 J (SHA256 J (take 21 bs)))"
    and i: "i < 25" and v: "v \<noteq> bs ! i"
  shows "\<exists>a. base58Encode (bs[i := v]) = Inr a \<and>
     validateAddress J a =
       Inr (0 < i \<and> i < 21 \<and> take 4 (SHA256 J (SHA256 J (take 21 (bs[i := v])))) = drop 21 bs)"
proof -
  let ?bs = "bs[i := v]"
  have len': "length ?bs = 25" using len by simp
  then have "?bs \<noteq> []" by auto
  then obtain a where a: "base58Encode ?bs = Inr a" by (auto simp: base58Encode_eq)
  have va: "validateAddress J a =
     Inr (startsWith a ''D'' \<and> hd ?bs = ADDRESS_VERSION \<and>
          drop 21 ?bs = take 4 (SHA256 J (SHA256 J (take 21 ?bs))))"
    using len' sha a by (rule validateAddress_encoded)
  from len obtain b0 rest where bs: "bs = b0 # rest" by (cases bs) auto
  consider "i = 0" | "0 < i" "i < 21" | "21 \<le> i" by linarith
  then have "validateAddress J a =
       Inr (0 < i \<and> i < 21 \<and> take 4 (SHA256 J (SHA256 J (take 21 ?bs))) = drop 21 bs)"
  proof cases
    case 1
    with v bs ver have "hd ?bs \<noteq> ADDRESS_VERSION" by simp
    with 1 va show ?thesis by simp
  next
    case 2
    then have h: "hd ?bs = ADDRESS_VERSION" using ver bs by (cases i) simp_all
    from versioned_encode [OF len' h] a have "startsWith a ''D''" by auto
    moreover have "drop 21 ?bs = drop 21 bs" using 2 by (simp add: drop_update_cancel)
    ultimately show ?thesis using 2 va h by auto
  next
    case 3
    then have t: "take 21 ?bs = take 21 bs" by (simp add: take_update_cancel)
    have "drop 21 ?bs = (drop 21 bs)[i - 21 := v]" using 3 by (simp add: drop_update_swap)
    moreover have "(drop 21 bs)[i - 21 := v] \<noteq> drop 21 bs"
    proof
      assume "(drop 21 bs)[i - 21 := v] = drop 21 bs"
      then have "(drop 21 bs)[i - 21 := v] ! (i - 21) = drop 21 bs ! (i - 21)" by simp
      moreover have "i - 21 < length (drop 21 bs)" using 3 i len by simp
      ultimately have "v = drop 21 bs ! (i - 21)" by simp
      also have "\<dots> = bs ! i" using 3 len by simp
      finally show False using v by simp
    qed
    ultimately have "drop 21 ?bs \<noteq> take 4 (SHA256 J (SHA256 J (take 21 ?bs)))"
      using chk t by simp
    with 3 va show ?thesis by simp
  qed
  with a show ?thesis by blast
qed

text \<open>
  Claim C3, as amended. For hash functions with 32-byte and 20-byte digests, the address
  derived from a public key validates, starts with \<open>D\<close> and decodes to the 25 bytes
  version \<open>0x1E\<close>, \<open>RIPEMD160(SHA256(publicKey))\<close>, and the first four bytes of
  \<open>SHA256(SHA256(payload))\<close>. Changing the version byte or a byte of the checksum makes
  \<open>validateAddress\<close> return \<open>false\<close>; changing a byte of the hash makes it return
  \<open>false\<close> unless the changed payload has the same four checksum bytes.
\<close>

theorem derived_address_validates:
  assumes sha: "\<forall>x. length (SHA256 J x) = 32" and rmd: "\<forall>x. length (RIPEMD160 J x) = 20"
  shows "\<exists>a bs. publicKeyToAddress J publicKeyHex = Inr a
     \<and> validateAddress J a = Inr True
     \<and> startsWith a ''D''
     \<and> base58Decode a = Inr bs
     \<and> bs = address_bytes J (RIPEMD160 J (SHA256 J (hexToBytes publicKeyHex)))
     \<and> length bs = 25
     \<and> (\<forall>i v. i < 25 \<and> v \<noteq> bs ! i \<longrightarrow>
          (\<exists>a'. base58Encode (bs[i := v]) = Inr a' \<and>
             validateAddress J a' =
               Inr (0 < i \<and> i < 21 \<and>
                    take 4 (SHA256 J (SHA256 J (take 21 (bs[i := v])))) = drop 21 bs)))"
proof -
  let ?h = "RIPEMD160 J (SHA256 J (hexToBytes publicKeyHex))"
  let ?bs = "address_bytes J ?h"
  have h: "length ?h = 20" using rmd by simp
  note p = address_bytes_props [OF sha h]
  from versioned_encode [OF p(1,2)] obtain a where
    a: "base58Encode ?bs = Inr a" "startsWith a ''D''" "base58Decode a = Inr ?bs" by blast
  have pk: "publicKeyToAddress J publicKeyHex = Inr a"
    using publicKeyToAddress_eq [OF sha rmd, of publicKeyHex] a(1)
    by (simp add: publicKeyToAddress_def)
  have chk: "drop 21 ?bs = take 4 (SHA256 J (SHA256 J (take 21 ?bs)))"
    by (simp only: p(3,4))
  have "validateAddress J a = Inr True"
    using validateAddress_encoded [OF p(1) sha a(1)] a(2) p(2) chk by simp
  moreover have "\<forall>i v. i < 25 \<and> v \<noteq> ?bs ! i \<longrightarrow>
          (\<exists>a'. base58Encode (?bs[i := v]) = Inr a' \<and>
             validateAddress J a' =
               Inr (0 < i \<and> i < 21 \<and>
                    take 4 (SHA256 J (SHA256 J (take 21 (?bs[i := v])))) = drop 21 ?bs))"
    using validateAddress_mutated [OF sha p(1,2) chk] by blast
  ultimately show ?thesis using pk a p(1) by blast
qed

theorem derived_address_validates_witness:
  "\<exists>a bs. publicKeyToAddress (cryptojs_with (\<lambda>data. replicate 20 0)) ''02ab'' = Inr a
     \<and> validateAddress (cryptojs_with (\<lambda>data. replicate 20 0)) a = Inr True
     \<and> startsWith a ''D''
     \<and> base58Decode a = Inr bs
     \<and> length bs = 25
     \<and> (\<exists>a'. base58Encode (bs[24 := bs ! 24 + 1]) = Inr a' \<and>
           validateAddress (cryptojs_with (\<lambda>data. replicate 20 0)) a' = Inr False)"
proof -
  let ?J = "cryptojs_with (\<lambda>data. replicate 20 0)"
  have sha: "\<forall>x. length (SHA256 ?J x) = 32" by (simp add: cryptojs_with_def length_sha256)
  have rmd: "\<forall>x. length (RIPEMD160 ?J x) = 20" by (simp add: cryptojs_with_def)
  from derived_address_validates [OF sha rmd, of "''02ab''"] obtain a bs where
    r: "publicKeyToAddress ?J ''02ab'' = Inr a" "validateAddress ?J a = Inr True"
      "startsWith a ''D''" "base58Decode a = Inr bs" "length bs = 25"
    and m: "\<forall>i v. i < 25 \<and> v \<noteq> bs ! i \<longrightarrow>
          (\<exists>a'. base58Encode (bs[i := v]) = Inr a' \<and>
             validateAddress ?J a' =
               Inr (0 < i \<and> i < 21 \<and>
                    take 4 (SHA256 ?J (SHA256 ?J (take 21 (bs[i := v])))) = drop 21 bs))"
    by blast
  have "(24 :: nat) < 25 \<and> bs ! 24 + 1 \<noteq> bs ! 24" by simp
  with m have "\<exists>a'. base58Encode (bs[24 := bs ! 24 + 1]) = Inr a' \<and>
             validateAddress ?J a' =
               Inr (0 < (24 :: nat) \<and> (24 :: nat) < 21 \<and>
                    take 4 (SHA256 ?J (SHA256 ?J (take 21 (bs[24 := bs ! 24 + 1])))) = drop 21 bs)"
    by blast
  then have "\<exists>a'. base58Encode (bs[24 := bs ! 24 + 1]) = Inr a' \<and>
      validateAddress ?J a' = Inr False" by simp
  with r show ?thesis by blast
qed

text \<open>
  The claim as stated fails for the two addresses below: both validate, and their
  decoded bytes differ only in byte 20, the last byte of the hash, so changing that one
  payload byte of the first address gives the second, which \<open>validateAddress\<close> accepts.
\<close>

theorem payload_mutation_accepted:
  "\<forall>rmd. validateAddress (cryptojs_with rmd) address_one = Inr True
     \<and> validateAddress (cryptojs_with rmd) address_two = Inr True
     \<and> base58Decode address_one = Inr address_one_bytes
     \<and> base58Decode address_two = Inr (address_one_bytes[20 := 0x9e])
     \<and> address_one_bytes ! 20 \<noteq> 0x9e"
proof (intro allI)
  fix rmd
  let ?J = "cryptojs_with rmd"
  let ?two = "address_one_bytes[20 := 0x9e]"
  have sha: "\<forall>x. length (SHA256 ?J x) = 32" by (simp add: cryptojs_with_def length_sha256)
  have two: "?two =
      [30, 138, 199, 2, 172, 1, 55, 206, 174, 118, 245, 45, 41, 131, 163, 70, 119, 109,
       185, 74, 158, 40, 82, 180, 134]"
    by (simp add: address_one_bytes_def)
  have l1: "length address_one_bytes = 25" by (simp add: address_one_bytes_def)
  have l2: "length ?two = 25" by (simp add: l1)
  have z1: "takeWhile (\<lambda>b. b = 0) address_one_bytes = []" by (simp add: address_one_bytes_def)
  have z2: "takeWhile (\<lambda>b. b = 0) ?two = []" by (simp add: two)
  have e1: "base58Encode address_one_bytes = Inr address_one"
    using digits58_payload1
    by (simp add: base58Encode_eq z1 address_one_def) (simp add: address_one_bytes_def)
  have e2: "base58Encode ?two = Inr address_two"
    using digits58_payload2
    by (simp only: two) (simp add: base58Encode_eq address_two_def)
  have c1: "drop 21 address_one_bytes =
      take 4 (SHA256 ?J (SHA256 ?J (take 21 address_one_bytes)))"
    by (simp add: address_one_bytes_def cryptojs_with_def sha256_payload1 sha256_digest1)
  have c2: "drop 21 ?two = take 4 (SHA256 ?J (SHA256 ?J (take 21 ?two)))"
    by (simp only: two) (simp add: cryptojs_with_def sha256_payload2 sha256_digest2)
  have v1: "validateAddress ?J address_one = Inr True"
    using validateAddress_encoded [OF l1 sha e1] c1
    by (simp add: startsWith_def address_one_def address_one_bytes_def ADDRESS_VERSION_def)
  have v2: "validateAddress ?J address_two = Inr True"
    using validateAddress_encoded [OF l2 sha e2] c2
    by (simp add: startsWith_def address_two_def address_one_bytes_def ADDRESS_VERSION_def)
  have d1: "base58Decode address_one = Inr address_one_bytes"
    using base58_decode_encode_nonzero [of address_one_bytes] e1
    by (auto simp: address_one_bytes_def)
  have d2: "base58Decode address_two = Inr ?two"
    using base58_decode_encode_nonzero [of ?two] e2 by (auto simp: two)
  have n: "address_one_bytes ! 20 \<noteq> 0x9e" by (simp add: address_one_bytes_def)
  from v1 v2 d1 d2 n
  show "validateAddress ?J address_one = Inr True
     \<and> validateAddress ?J address_two = Inr True
     \<and> base58Decode address_one = Inr address_one_bytes
     \<and> base58Decode address_two = Inr ?two
     \<and> address_one_bytes ! 20 \<noteq> 0x9e" by blast
qed

text \<open>
  Claim C4, as amended. \<open>hashTransaction\<close> is the hexadecimal SHA-256 digest of the JSON
  text of the six signable fields, so two transactions that give the same values for
  \<open>from\<close>, \<open>to\<close>, \<open>amount\<close>, \<open>tokenType\<close> and \<open>nonce\<close> and the same value for
  \<open>fee || feeDNT\<close> have the same hash. In particular the hash does not depend on the
  order of the properties, nor on a property other than these, nor, for a truthy fee,
  on which of \<open>fee\<close> and \<open>feeDNT\<close> carries it; and a transaction returned by
  \<open>signTransaction\<close> has the hash of the transaction that was signed.
\<close>

theorem hashTransaction_signable_fields:
  "hashTransaction J tx = bytesToHex (SHA256 J (TextEncoder_encode (txData tx)))
   \<and> (get_prop tx ''from'' = get_prop tx' ''from''
        \<and> get_prop tx ''to'' = get_prop tx' ''to''
        \<and> get_prop tx ''amount'' = get_prop tx' ''amount''
        \<and> get_prop tx ''tokenType'' = get_prop tx' ''tokenType''
        \<and> logical_or (get_prop tx ''fee'') (get_prop tx ''feeDNT'')
            = logical_or (get_prop tx' ''fee'') (get_prop tx' ''feeDNT'')
        \<and> get_prop tx ''nonce'' = get_prop tx' ''nonce''
      \<longrightarrow> hashTransaction J tx = hashTransaction J tx')
   \<and> (distinct (map fst tx) \<and> distinct (map fst tx') \<and> set tx = set tx'
      \<longrightarrow> hashTransaction J tx = hashTransaction J tx')
   \<and> (k \<notin> signable_keys \<longrightarrow> hashTransaction J (set_prop tx k v) = hashTransaction J tx)
   \<and> (truthy fee \<and> get_prop tx ''fee'' = Undefined \<and> get_prop tx ''feeDNT'' = Undefined
      \<longrightarrow> hashTransaction J (set_prop tx ''fee'' fee)
          = hashTransaction J (set_prop tx ''feeDNT'' fee))
   \<and> (signTransaction E J tx privateKeyHex = Inr stx
      \<longrightarrow> hashTransaction J stx = hashTransaction J tx)"
proof (intro conjI impI)
  show "hashTransaction J tx = bytesToHex (SHA256 J (TextEncoder_encode (txData tx)))"
    by (simp add: hashTransaction_def sha256Sync_eq)
next
  assume "get_prop tx ''from'' = get_prop tx' ''from''
        \<and> get_prop tx ''to'' = get_prop tx' ''to''
        \<and> get_prop tx ''amount'' = get_prop tx' ''amount''
        \<and> get_prop tx ''tokenType'' = get_prop tx' ''tokenType''
        \<and> logical_or (get_prop tx ''fee'') (get_prop tx ''feeDNT'')
            = logical_or (get_prop tx' ''fee'') (get_prop tx' ''feeDNT'')
        \<and> get_prop tx ''nonce'' = get_prop tx' ''nonce''"
  then have "signable tx = signable tx'" by (intro signable_reads) simp_all
  then show "hashTransaction J tx = hashTransaction J tx'" by (rule hashTransaction_signable)
next
  assume "distinct (map fst tx) \<and> distinct (map fst tx') \<and> set tx = set tx'"
  then have "\<And>k. get_prop tx k = get_prop tx' k" by (intro get_prop_permutation) simp_all
  then have "signable tx = signable tx'" by (simp add: signable_def)
  then show "hashTransaction J tx = hashTransaction J tx'" by (rule hashTransaction_signable)
next
  assume "k \<notin> signable_keys"
  then show "hashTransaction J (set_prop tx k v) = hashTransaction J tx"
    by (intro hashTransaction_signable signable_extra_field)
next
  assume "truthy fee \<and> get_prop tx ''fee'' = Undefined \<and> get_prop tx ''feeDNT'' = Undefined"
  then show "hashTransaction J (set_prop tx ''fee'' fee)
      = hashTransaction J (set_prop tx ''feeDNT'' fee)"
    by (intro hashTransaction_signable signable_fee_field) simp_all
next
  assume "signTransaction E J tx privateKeyHex = Inr stx"
  then show "hashTransaction J stx = hashTransaction J tx"
    by (intro hashTransaction_signable signable_signTransaction)
qed

theorem hashTransaction_signable_fields_witness:
  "hashTransaction zero_hashes (rev tx_base) = hashTransaction zero_hashes tx_base
   \<and> hashTransaction zero_hashes (set_prop (rev tx_base) ''memo'' (Number 7))
       = hashTransaction zero_hashes (rev tx_base)
   \<and> hashTransaction zero_hashes (set_prop tx_base ''fee'' (Number 7))
       = hashTransaction zero_hashes (set_prop tx_base ''feeDNT'' (Number 7))
   \<and> signTransaction fixed_signer zero_hashes tx_base ''01''
       = Inr (tx_base @ [(''signature'', String (js ''30'')), (''publicKey'', String (js ''02''))])
   \<and> hashTransaction zero_hashes
         (tx_base @ [(''signature'', String (js ''30'')), (''publicKey'', String (js ''02''))])
       = hashTransaction zero_hashes tx_base"
proof -
  let ?stx = "tx_base @ [(''signature'', String (js ''30'')), (''publicKey'', String (js ''02''))]"
  have s: "signTransaction fixed_signer zero_hashes tx_base ''01'' = Inr ?stx"
    by (simp add: signTransaction_def signMessage_def getPublicKeyFromPrivate_def
        fixed_signer_def tx_base_def)
  have p: "distinct (map fst (rev tx_base)) \<and> distinct (map fst tx_base)
      \<and> set (rev tx_base) = set tx_base"
    by (simp add: distinct_rev) (simp add: tx_base_def)
  have k: "''memo'' \<notin> signable_keys" by (simp add: signable_keys_def)
  have f: "truthy (Number 7) \<and> get_prop tx_base ''fee'' = Undefined
      \<and> get_prop tx_base ''feeDNT'' = Undefined"
    by (simp add: tx_base_def get_prop_def)
  from hashTransaction_signable_fields
      [where tx = "rev tx_base" and tx' = tx_base and J = zero_hashes and k = "''memo''"
         and v = "Number 7"]
    hashTransaction_signable_fields
      [where tx = tx_base and J = zero_hashes and fee = "Number 7" and E = fixed_signer
         and privateKeyHex = "''01''" and stx = ?stx]
    s p k f
  show ?thesis by blast
qed

text \<open>
  The claim as stated fails for a fee of zero: \<open>0 || undefined\<close> is \<open>undefined\<close>, which
  \<open>JSON.stringify\<close> leaves out, and \<open>undefined || 0\<close> is \<open>0\<close>. The two transactions
  below agree on every field value and differ only in the name of the field that
  carries the fee; their SHA-256 digests differ.
\<close>

theorem zero_fee_field_changes_hash:
  "get_prop tx_fee_zero ''fee'' = Number 0
   \<and> get_prop tx_feeDNT_zero ''feeDNT'' = Number 0
   \<and> hashTransaction (cryptojs_with (\<lambda>data. [])) tx_fee_zero =
       ''a4007b9437c42d05f2e6caa930d683ecf7fd4e192ee9a18f59b7a3f7489dbfd9''
   \<and> hashTransaction (cryptojs_with (\<lambda>data. [])) tx_feeDNT_zero =
       ''2873a659ded7353e3d642eec239e7f16cc0bc1bff9b509a540e05e4f601dad7e''
   \<and> hashTransaction (cryptojs_with (\<lambda>data. [])) tx_fee_zero
       \<noteq> hashTransaction (cryptojs_with (\<lambda>data. [])) tx_feeDNT_zero"
proof -
  let ?J = "cryptojs_with (\<lambda>data. [])"
  have h1: "hashTransaction ?J tx_fee_zero =
       ''a4007b9437c42d05f2e6caa930d683ecf7fd4e192ee9a18f59b7a3f7489dbfd9''"
    by (simp only: hashTransaction_def Let_def sha256Sync_eq cryptojs_with_def
        cryptojs.simps txData_fee_zero sha256_tx_fee_zero bytesToHex_fee_zero)
  have h2: "hashTransaction ?J tx_feeDNT_zero =
       ''2873a659ded7353e3d642eec239e7f16cc0bc1bff9b509a540e05e4f601dad7e''"
    by (simp only: hashTransaction_def Let_def sha256Sync_eq cryptojs_with_def
        cryptojs.simps txData_feeDNT_zero sha256_tx_feeDNT_zero bytesToHex_feeDNT_zero)
  have g: "get_prop tx_fee_zero ''fee'' = Number 0 \<and> get_prop tx_feeDNT_zero ''feeDNT'' = Number 0"
    by (simp add: tx_fee_zero_def tx_feeDNT_zero_def get_prop_def)
  have "hashTransaction ?J tx_fee_zero \<noteq> hashTransaction ?J tx_feeDNT_zero"
    unfolding h1 h2 by simp
  with h1 h2 g show ?thesis by blast
qed

end
